(* ===== verification/Prelude.thy ===== *)
theory Prelude
  imports Main "HOL-Library.AList" "HOL-Library.Word"
begin

text \<open>
  What every component shares: the ways a handler of the program can stop instead of returning,
  sequencing of fallible steps, Go maps as association lists, the contract of a writer and its reader, and the collections of facts the
  component theories add to.
\<close>

section \<open>Halting\<close>

text \<open>
  A call of \<open>xlog.FATAL\<close> ends in \<open>os.Exit(1)\<close> inside logrus, whatever the log level; a nil dereference,
  an index out of range or an explicit \<open>panic\<close> unwinds the goroutine. Both are values of the result
  type; the string is the message or the reason. After a C store beyond its object anything may happen:
  its behaviour is \<open>Undefined\<close>.
\<close>

datatype halt = Exit string | Panic string | Undefined

type_synonym 'a res = "halt + 'a"

fun bindr :: "'a res \<Rightarrow> ('a \<Rightarrow> 'b res) \<Rightarrow> 'b res" where
  "bindr (Inl h) f = Inl h"
| "bindr (Inr x) f = f x"

text \<open>The reason strings of run-time panics.\<close>

definition nil_deref :: halt where
  "nil_deref = Panic ''invalid memory address or nil pointer dereference''"

definition index_panic :: halt where
  "index_panic = Panic ''index out of range''"

text \<open>A Go \<open>for ... range\<close> over a list of keys, threading the state and stopping at the first halt.\<close>

fun for_each :: "('k \<Rightarrow> 's \<Rightarrow> 's res) \<Rightarrow> 'k list \<Rightarrow> 's \<Rightarrow> 's res" where
  "for_each f [] s = Inr s"
| "for_each f (k # ks) s = bindr (f k s) (for_each f ks)"

text \<open>
  \<open>ends r H P\<close>: the computation either halts in a way \<open>H\<close> allows or returns a value with \<open>P\<close>. With
  \<open>H = (\<lambda>_. False)\<close> it says that the computation returns.
\<close>

definition ends :: "'a res \<Rightarrow> (halt \<Rightarrow> bool) \<Rightarrow> ('a \<Rightarrow> bool) \<Rightarrow> bool" where
  "ends r H P = (case r of Inl h \<Rightarrow> H h | Inr x \<Rightarrow> P x)"

lemma ends_Inl [simp]: "ends (Inl h) H P = H h"
  and ends_Inr [simp]: "ends (Inr x) H P = P x"
  by (simp_all add: ends_def)

lemma ends_bindr [simp]: "ends (bindr r f) H P = ends r H (\<lambda>x. ends (f x) H P)"
  by (cases r) simp_all

lemma ends_mono:
  "ends r H P \<Longrightarrow> (\<And>x. P x \<Longrightarrow> Q x) \<Longrightarrow> (\<And>h. H h \<Longrightarrow> K h) \<Longrightarrow> ends r K Q"
  by (cases r) auto

lemma ends_conj: "ends r H P \<Longrightarrow> ends r H Q \<Longrightarrow> ends r H (\<lambda>x. P x \<and> Q x)"
  by (cases r) auto

lemma endsD: "ends r H P \<Longrightarrow> r = Inr x \<Longrightarrow> P x"
  by simp

lemma ends_returns: "ends r (\<lambda>_. False) P \<Longrightarrow> \<exists>x. r = Inr x \<and> P x"
  by (cases r) auto

lemma bindr_assoc: "bindr (bindr r f) g = bindr r (\<lambda>x. bindr (f x) g)"
  by (cases r) simp_all

lemma bindr_eq_Inr: "bindr r f = Inr y \<longleftrightarrow> (\<exists>x. r = Inr x \<and> f x = Inr y)"
  by (cases r) simp_all

lemma for_each_append: "for_each f (xs @ ys) s = bindr (for_each f xs s) (for_each f ys)"
proof (induction xs arbitrary: s)
  case (Cons x xs)
  then show ?case by (cases "f x s") simp_all
qed simp

text \<open>The rule for loops: an invariant that every iteration over a listed key keeps.\<close>

lemma for_each_ends:
  assumes "I s" and "\<And>k s. k \<in> set ks \<Longrightarrow> I s \<Longrightarrow> ends (f k s) H I"
  shows "ends (for_each f ks s) H I"
  using assms
proof (induction ks arbitrary: s)
  case Nil
  then show ?case by simp
next
  case (Cons k ks)
  have "ends (f k s) H I" using Cons.prems by simp
  then show ?case
  proof (simp, elim ends_mono)
    fix s' assume "I s'"
    then show "ends (for_each f ks s') H I"
      by (rule Cons.IH) (use Cons.prems in auto)
  qed
qed

text \<open>
  The same with an index-dependent invariant: \<open>J vis s\<close> where \<open>vis\<close> is the prefix already visited.
\<close>

lemma for_each_prefix_aux:
  assumes "J vis s"
    and "\<And>xs k ys s. vis @ ks = xs @ k # ys \<Longrightarrow> J xs s \<Longrightarrow> ends (f k s) H (J (xs @ [k]))"
  shows "ends (for_each f ks s) H (J (vis @ ks))"
  using assms
proof (induction ks arbitrary: s vis)
  case Nil
  then show ?case by simp
next
  case (Cons k ks)
  have "ends (f k s) H (J (vis @ [k]))"
    using Cons.prems(1) by (intro Cons.prems(2)) auto
  moreover have "ends (for_each f ks s') H (J ((vis @ [k]) @ ks))" if "J (vis @ [k]) s'" for s'
    using that by (intro Cons.IH Cons.prems(2)) auto
  ultimately show ?case
    by (simp, elim ends_mono) auto
qed

lemmas for_each_prefix = for_each_prefix_aux [where vis = "[]", simplified]

section \<open>Go maps\<close>

text \<open>
  A Go map is an association list without duplicate keys: \<open>map_of m k\<close> is \<open>m[k]\<close> with its \<open>ok\<close> flag,
  \<open>mput\<close> is \<open>m[k] = v\<close>, \<open>mdel\<close> is \<open>delete(m, k)\<close> and \<open>length\<close> is \<open>len(m)\<close>. The order of the list has
  no meaning in Go: a \<open>range\<close> over a map takes the visiting order as an argument \<open>ord\<close>, and
  \<open>range_order ord m\<close> says that \<open>ord\<close> visits every key of \<open>m\<close> once.
\<close>

type_synonym ('k, 'v) gomap = "('k \<times> 'v) list"

abbreviation mput :: "'k \<Rightarrow> 'v \<Rightarrow> ('k, 'v) gomap \<Rightarrow> ('k, 'v) gomap" where
  "mput \<equiv> AList.update"

abbreviation mdel :: "'k \<Rightarrow> ('k, 'v) gomap \<Rightarrow> ('k, 'v) gomap" where
  "mdel \<equiv> AList.delete"

definition mwf :: "('k, 'v) gomap \<Rightarrow> bool" where
  "mwf m = distinct (map fst m)"

definition range_order :: "'k list \<Rightarrow> ('k, 'v) gomap \<Rightarrow> bool" where
  "range_order ord m = (distinct ord \<and> set ord = set (map fst m))"

lemma mwf_Nil [simp]: "mwf []"
  by (simp add: mwf_def)

lemma mwf_mput [simp]: "mwf m \<Longrightarrow> mwf (mput k v m)"
  by (simp add: mwf_def distinct_update)

lemma mwf_mdel [simp]: "mwf m \<Longrightarrow> mwf (mdel k m)"
  by (simp add: mwf_def distinct_delete)

lemma map_of_mput [simp]: "map_of (mput k v m) = (map_of m)(k \<mapsto> v)"
  by (simp add: update_conv')

lemma map_of_mdel [simp]: "map_of (mdel k m) = (map_of m)(k := None)"
  by (simp add: delete_conv')

lemma length_mdel: "mwf m \<Longrightarrow> map_of m k \<noteq> None \<Longrightarrow> Suc (length (mdel k m)) = length m"
proof (induction m)
  case (Cons p m)
  show ?case
  proof (cases "fst p = k")
    case True
    with Cons.prems(1) have "mdel k m = m"
      by (cases p) (auto simp: mwf_def intro!: delete_idem)
    with True show ?thesis by (cases p) simp
  next
    case False
    with Cons show ?thesis by (cases p) (auto simp: mwf_def)
  qed
qed simp

lemma length_mdel_le: "length (mdel k m) \<le> length m"
  by (simp add: AList.delete_eq)

lemma range_order_keys: "mwf m \<Longrightarrow> range_order (map fst m) m"
  by (simp add: mwf_def range_order_def)

lemma range_order_lookup: "range_order ord m \<Longrightarrow> k \<in> set ord \<longleftrightarrow> map_of m k \<noteq> None"
  by (auto simp: range_order_def map_of_eq_None_iff)

text \<open>
  The laws a client of a map relies on, as an interface: what a lookup returns after a store or a
  deletion, and that the keys stay unique. \<open>len0\<close> is the test \<open>len(m) == 0\<close> of \<open>mayQueueCmd\<close>.
\<close>

locale go_map =
  fixes get :: "'m \<Rightarrow> 'k \<Rightarrow> 'v option"
    and put :: "'k \<Rightarrow> 'v \<Rightarrow> 'm \<Rightarrow> 'm"
    and del :: "'k \<Rightarrow> 'm \<Rightarrow> 'm"
    and len :: "'m \<Rightarrow> nat"
    and wf :: "'m \<Rightarrow> bool"
  assumes get_put: "get (put k v m) = (get m)(k \<mapsto> v)"
    and get_del: "get (del k m) = (get m)(k := None)"
    and wf_put: "wf m \<Longrightarrow> wf (put k v m)"
    and wf_del: "wf m \<Longrightarrow> wf (del k m)"
    and len_0: "len m = 0 \<longleftrightarrow> get m = Map.empty"
    and len_put_new: "get m k = None \<Longrightarrow> len (put k v m) = Suc (len m)"
    and len_del: "wf m \<Longrightarrow> get m k \<noteq> None \<Longrightarrow> Suc (len (del k m)) = len m"
begin

lemma put_del_same: "get (del k (put k v m)) = (get m)(k := None)"
  by (simp add: get_put get_del)

lemma single_after_queue: "len m = 0 \<Longrightarrow> len (put k v m) = 1 \<and> get (put k v m) = [k \<mapsto> v]"
  using len_put_new [of m k v] by (simp add: len_0 get_put)

lemma len_1_unique:
  assumes "wf m" and "len m \<le> 1" and "get m k = Some v" and "get m k' = Some v'"
  shows "k' = k"
proof (rule ccontr)
  assume ne: "k' \<noteq> k"
  have "Suc (len (del k m)) = len m" using assms by (intro len_del) auto
  with assms(2) have "len (del k m) = 0" by simp
  then have "get (del k m) = Map.empty" by (simp add: len_0)
  with ne assms(4) show False by (auto simp: get_del fun_eq_iff split: if_splits)
qed

lemma len_1_del:
  assumes "wf m" and "len m \<le> 1" and "get m k \<noteq> None"
  shows "len (del k m) = 0"
  using len_del [OF assms(1,3)] assms(2) by simp

end

lemma length_mput_new: "map_of m k = None \<Longrightarrow> length (mput k v m) = Suc (length m)"
  by (induction m) (auto split: if_splits)

lemma length_0_map_of: "length m = 0 \<longleftrightarrow> map_of m = Map.empty"
  by (cases m) (auto simp: fun_eq_iff)

interpretation gm: go_map "\<lambda>m k. map_of m k" mput mdel length mwf
  by unfold_locales
    (auto simp: length_mput_new length_mdel length_0_map_of fun_eq_iff simp del: length_0_conv)

section \<open>Codecs\<close>

text \<open>
  The contract of a writer and a reader of a format: on the values the format can carry, what is written
  is read back. \<open>ok\<close> is the reader's result for a value, which in an exact codec determines it.
\<close>

locale codec =
  fixes enc :: "'a \<Rightarrow> 'c" and dec :: "'c \<Rightarrow> 'b" and good :: "'a \<Rightarrow> bool" and ok :: "'a \<Rightarrow> 'b"
  assumes dec_enc: "good x \<Longrightarrow> dec (enc x) = ok x"
begin

lemma decode_all: "list_all good xs \<Longrightarrow> map dec (map enc xs) = map ok xs"
  by (induction xs) (simp_all add: dec_enc)

end

locale exact_codec = codec +
  assumes ok_inj: "ok x = ok y \<Longrightarrow> x = y"
begin

lemma enc_inj: "good x \<Longrightarrow> good y \<Longrightarrow> enc x = enc y \<Longrightarrow> x = y"
  using dec_enc [of x] dec_enc [of y] ok_inj [of x y] by simp

lemma distinct_enc: "distinct xs \<Longrightarrow> list_all good xs \<Longrightarrow> distinct (map enc xs)"
  by (auto simp: distinct_map list_all_iff intro!: inj_onI dest: enc_inj)

end

section \<open>Collections\<close>

named_theorems handler_defs \<open>definitions of the handlers, unfolded when a handler is run on a concrete state\<close>
named_theorems frame \<open>what an operation leaves unchanged\<close>

end
