(* ===== verification/GoLib.thy ===== *)
theory GoLib
  imports Prelude
begin

text \<open>
  The functions of Go's standard library the program calls on strings and numbers (\<open>strings\<close>,
  \<open>strconv\<close>, \<open>path/filepath\<close>, \<open>bytes\<close>), on byte strings as lists of characters. Only what the source
  uses of them is here; separators are non-empty, as they are in the source.
\<close>

abbreviation nl :: string where "nl \<equiv> [CHR 0x0A]"

abbreviation dq :: string where "dq \<equiv> [CHR 0x22]"

section \<open>strings\<close>

definition HasPrefix :: "string \<Rightarrow> string \<Rightarrow> bool" where
  "HasPrefix s p = (take (length p) s = p)"

lemma HasPrefix_append [simp]: "HasPrefix (p @ s) p"
  by (simp add: HasPrefix_def)

lemma HasPrefix_iff: "HasPrefix s p \<longleftrightarrow> (\<exists>t. s = p @ t)"
proof
  assume "HasPrefix s p"
  then have "s = p @ drop (length p) s"
    by (metis HasPrefix_def append_take_drop_id)
  then show "\<exists>t. s = p @ t" ..
qed auto

fun Index :: "string \<Rightarrow> string \<Rightarrow> nat option" where
  "Index [] sub = (if sub = [] then Some 0 else None)"
| "Index (c # cs) sub = (if HasPrefix (c # cs) sub then Some 0 else map_option Suc (Index cs sub))"

definition Contains :: "string \<Rightarrow> string \<Rightarrow> bool" where
  "Contains s sub = (Index s sub \<noteq> None)"

lemma Index_None_iff: "Index s sub = None \<longleftrightarrow> \<not> (\<exists>xs ys. s = xs @ sub @ ys)"
proof (induction s)
  case (Cons c cs)
  have "(\<exists>xs ys. c # cs = xs @ sub @ ys) \<longleftrightarrow>
      (\<exists>ys. c # cs = sub @ ys) \<or> (\<exists>xs ys. cs = xs @ sub @ ys)"
    by (auto simp: Cons_eq_append_conv)
  with Cons.IH show ?case by (simp add: HasPrefix_iff)
qed auto

lemma Contains_iff: "Contains s sub \<longleftrightarrow> (\<exists>xs ys. s = xs @ sub @ ys)"
  using Index_None_iff [of s sub] by (auto simp: Contains_def)

text \<open>\<open>strings.SplitN\<close> with at most \<open>n\<close> pieces; \<open>strings.Split\<close> has no limit.\<close>

fun split_acc :: "string \<Rightarrow> nat option \<Rightarrow> string \<Rightarrow> string \<Rightarrow> string list" where
  "split_acc sep lim [] acc = [rev acc]"
| "split_acc sep lim (c # cs) acc =
     (if sep \<noteq> [] \<and> lim \<noteq> Some 1 \<and> HasPrefix (c # cs) sep
      then rev acc # split_acc sep (map_option (\<lambda>n. n - 1) lim) (drop (length sep - 1) cs) []
      else split_acc sep lim cs (c # acc))"

definition Split :: "string \<Rightarrow> string \<Rightarrow> string list" where
  "Split s sep = split_acc sep None s []"

definition SplitN :: "string \<Rightarrow> string \<Rightarrow> nat \<Rightarrow> string list" where
  "SplitN s sep n = split_acc sep (Some n) s []"

fun Join :: "string list \<Rightarrow> string \<Rightarrow> string" where
  "Join [] sep = []"
| "Join [x] sep = x"
| "Join (x # y # xs) sep = x @ sep @ Join (y # xs) sep"

lemma split_acc_not_Nil [simp]: "split_acc sep lim s acc \<noteq> []"
  by (induction sep lim s acc rule: split_acc.induct) auto

lemma Join_Cons: "xs \<noteq> [] \<Longrightarrow> Join (x # xs) sep = x @ sep @ Join xs sep"
  by (cases xs) auto

lemma Join_split_acc: "Join (split_acc sep lim s acc) sep = rev acc @ s"
proof (induction sep lim s acc rule: split_acc.induct)
  case (2 sep lim c cs acc)
  show ?case
  proof (cases "sep \<noteq> [] \<and> lim \<noteq> Some 1 \<and> HasPrefix (c # cs) sep")
    case True
    then obtain t where t: "c # cs = sep @ t" by (auto simp: HasPrefix_iff)
    with True have "drop (length sep - 1) cs = t" by (cases sep) auto
    with True 2(1) [OF True] show ?thesis by (simp add: Join_Cons t [symmetric])
  next
    case False
    with 2 show ?thesis by (simp only: split_acc.simps if_False) simp
  qed
qed simp

lemma Join_Split: "Join (Split s sep) sep = s"
  by (simp add: Split_def Join_split_acc)

lemma length_split_acc: "lim = Some n \<Longrightarrow> 0 < n \<Longrightarrow> length (split_acc sep lim s acc) \<le> n"
proof (induction sep lim s acc arbitrary: n rule: split_acc.induct)
  case (2 sep lim c cs acc)
  show ?case
  proof (cases "sep \<noteq> [] \<and> lim \<noteq> Some 1 \<and> HasPrefix (c # cs) sep")
    case True
    with 2(1) [OF True, of "n - 1"] 2(3,4)
    have "length (split_acc sep (map_option (\<lambda>n. n - 1) lim) (drop (length sep - 1) cs) []) \<le> n - 1"
      by simp
    with True 2(3,4) show ?thesis by simp
  next
    case False
    with 2(2) [OF False, of n] 2(3,4) show ?thesis by (simp only: split_acc.simps if_False)
  qed
qed simp

lemma length_SplitN: "0 < n \<Longrightarrow> length (SplitN s sep n) \<le> n"
  by (simp add: SplitN_def length_split_acc)

text \<open>Splitting at a separator that does not occur.\<close>

lemma split_no_sep: "\<not> Contains s sep \<Longrightarrow> Split s sep = [s]"
proof -
  have "split_acc sep None s acc = [rev acc @ s]" if "\<not> Contains s sep" for acc
    using that
  proof (induction s arbitrary: acc)
    case (Cons c s)
    then show ?case by (cases "sep = []") (auto simp: Contains_def HasPrefix_def)
  qed simp
  from this [of "[]"] show "\<not> Contains s sep \<Longrightarrow> Split s sep = [s]" by (simp add: Split_def)
qed

lemma split_one: "sep \<noteq> [] \<Longrightarrow> length (Split s sep) < 2 \<longleftrightarrow> \<not> Contains s sep"
proof -
  assume sep: "sep \<noteq> []"
  have "length (split_acc sep None s acc) < 2 \<longleftrightarrow> \<not> Contains s sep" for acc
  proof (induction s arbitrary: acc)
    case Nil
    then show ?case using sep by (simp add: Contains_def)
  next
    case (Cons c s)
    have "split_acc sep None t acc \<noteq> []" for t acc by simp
    then have "length (split_acc sep None t acc) \<ge> 1" for t acc
      by (metis length_0_conv less_one not_less)
    with Cons sep show ?case by (auto simp: Contains_def not_less)
  qed
  then show ?thesis by (simp add: Split_def)
qed

definition is_space :: "char \<Rightarrow> bool" where
  "is_space c = (c \<in> {CHR 0x09, CHR 0x0A, CHR 0x0B, CHR 0x0C, CHR 0x0D, CHR 0x20})"

definition TrimSpace :: "string \<Rightarrow> string" where
  "TrimSpace s = rev (dropWhile is_space (rev (dropWhile is_space s)))"

definition upper_char :: "char \<Rightarrow> char" where
  "upper_char c = (let n = of_char c :: nat in if 97 \<le> n \<and> n \<le> 122 then char_of (n - 32) else c)"

definition ToUpper :: "string \<Rightarrow> string" where
  "ToUpper = map upper_char"

text \<open>\<open>bytes.TrimRight(b, cutset)\<close> for a cutset of one byte.\<close>

definition TrimRight :: "char \<Rightarrow> string \<Rightarrow> string" where
  "TrimRight z s = rev (dropWhile (\<lambda>c. c = z) (rev s))"

lemma dropWhile_replicate_append: "dropWhile (\<lambda>c. c = z) (replicate n z @ s) = dropWhile (\<lambda>c. c = z) s"
  by (induction n) auto

lemma TrimRight_replicate [simp]:
  assumes "s = [] \<or> last s \<noteq> z"
  shows "TrimRight z (s @ replicate n z) = s"
proof -
  have "dropWhile (\<lambda>c. c = z) (rev s) = rev s"
    using assms by (cases s rule: rev_cases) auto
  then show ?thesis by (simp add: TrimRight_def dropWhile_replicate_append)
qed

section \<open>strconv\<close>

definition digit_char :: "nat \<Rightarrow> char" where
  "digit_char d = ''0123456789'' ! d"

fun nat_digits :: "nat \<Rightarrow> string" where
  "nat_digits n = (if n < 10 then [digit_char n] else nat_digits (n div 10) @ [digit_char (n mod 10)])"

declare nat_digits.simps [simp del]

text \<open>\<open>strconv.Itoa\<close>, \<open>FormatInt(_, 10)\<close> and \<open>FormatUint(_, 10)\<close>; also what \<open>%d\<close> and \<open>%v\<close> print.\<close>

definition Itoa :: "int \<Rightarrow> string" where
  "Itoa i = (if i < 0 then CHR ''-'' # nat_digits (nat (- i)) else nat_digits (nat i))"

definition digit_val :: "char \<Rightarrow> nat option" where
  "digit_val c = (let n = of_char c :: nat in if 48 \<le> n \<and> n \<le> 57 then Some (n - 48) else None)"

fun digits_val :: "nat \<Rightarrow> string \<Rightarrow> nat option" where
  "digits_val a [] = Some a"
| "digits_val a (c # cs) = (case digit_val c of None \<Rightarrow> None | Some d \<Rightarrow> digits_val (10 * a + d) cs)"

definition min_int64 :: int where "min_int64 = - (2 ^ 63)"

definition max_int64 :: int where "max_int64 = 2 ^ 63 - 1"

text \<open>
  \<open>strconv.Atoi\<close>, and \<open>ParseInt(_, 10, 64)\<close>: the value and whether the error is nil. The value is 0
  on a syntax error and the nearest bound on a range error.
\<close>

definition Atoi :: "string \<Rightarrow> int \<times> bool" where
  "Atoi s =
     (let neg = (s \<noteq> [] \<and> hd s = CHR ''-'');
          body = (if s \<noteq> [] \<and> (hd s = CHR ''-'' \<or> hd s = CHR ''+'') then tl s else s)
      in case (if body = [] then None else digits_val 0 body) of
           None \<Rightarrow> (0, False)
         | Some n \<Rightarrow>
             (let v = (if neg then - int n else int n)
              in if v < min_int64 then (min_int64, False)
                 else if max_int64 < v then (max_int64, False)
                 else (v, True)))"

lemma digit_val_char: "d < 10 \<Longrightarrow> digit_val (digit_char d) = Some d"
proof -
  assume "d < 10"
  then have "d \<in> {0,1,2,3,4,5,6,7,8,9}" by auto
  then show ?thesis by (auto simp: digit_char_def digit_val_def)
qed

lemma digits_val_append:
  "digits_val a (xs @ ys) = (case digits_val a xs of None \<Rightarrow> None | Some b \<Rightarrow> digits_val b ys)"
  by (induction xs arbitrary: a) (auto split: option.splits)

lemma digits_val_nat_digits: "digits_val 0 (nat_digits n) = Some n"
proof (induction n rule: nat_digits.induct)
  case (1 n)
  show ?case
  proof (cases "n < 10")
    case True
    then show ?thesis by (simp add: nat_digits.simps [of n] digit_val_char)
  next
    case False
    with 1 show ?thesis
      by (simp add: nat_digits.simps [of n] digits_val_append digit_val_char)
  qed
qed

lemma nat_digits_not_Nil [simp]: "nat_digits n \<noteq> []"
  by (subst nat_digits.simps) simp

lemma nat_digits_zero: "hd (nat_digits n) = CHR ''0'' \<Longrightarrow> nat_digits n = ''0''"
proof (induction n rule: nat_digits.induct)
  case (1 n)
  have dig: "digit_char d = CHR ''0'' \<longleftrightarrow> d = 0" if "d < 10" for d
  proof -
    have "list_all (\<lambda>d. (digit_char d = CHR ''0'') = (d = 0)) [0..<10]" by code_simp
    with that show ?thesis unfolding list_all_iff by simp
  qed
  show ?case
  proof (cases "n < 10")
    case True
    with 1(2) dig [of n] show ?thesis by (simp add: nat_digits.simps [of n] nat_digits.simps [of 0] digit_char_def)
  next
    case False
    then have "hd (nat_digits (n div 10)) = CHR ''0''" using 1(2) by (simp add: nat_digits.simps [of n])
    with 1(1) False have "nat_digits (n div 10) = ''0''" by blast
    then have "Some (n div 10) = digits_val 0 ''0''" using digits_val_nat_digits [of "n div 10"] by simp
    also have "\<dots> = Some 0" by code_simp
    finally show ?thesis using False by simp
  qed
qed

lemma nat_digits_hd: "hd (nat_digits n) \<noteq> CHR ''-'' \<and> hd (nat_digits n) \<noteq> CHR ''+''"
proof -
  obtain c cs where nd: "nat_digits n = c # cs" by (cases "nat_digits n") auto
  then have "digit_val c \<noteq> None"
    using digits_val_nat_digits [of n] by (auto split: option.splits)
  then show ?thesis by (auto simp: nd digit_val_def)
qed

lemma Atoi_Itoa: "min_int64 \<le> i \<Longrightarrow> i \<le> max_int64 \<Longrightarrow> Atoi (Itoa i) = (i, True)"
  using nat_digits_hd [of "nat i"]
  by (auto simp: Atoi_def Itoa_def digits_val_nat_digits Let_def)

definition in_int64 :: "int \<Rightarrow> bool" where
  "in_int64 i = (min_int64 \<le> i \<and> i \<le> max_int64)"

interpretation num: exact_codec Itoa Atoi in_int64 "\<lambda>i. (i, True)"
  by unfold_locales (simp_all add: in_int64_def Atoi_Itoa)

section \<open>path/filepath\<close>

text \<open>
  \<open>filepath.Clean\<close> on a path of \<open>/\<close>-separated elements: empty and \<open>.\<close> elements go, an inner \<open>..\<close>
  takes the element before it along, a leading \<open>..\<close> of a rooted path goes.
\<close>

fun clean_step :: "bool \<Rightarrow> string list \<Rightarrow> string \<Rightarrow> string list" where
  "clean_step rooted stk x =
     (if x = [] \<or> x = ''.'' then stk
      else if x = ''..'' then
        (case stk of
           [] \<Rightarrow> if rooted then [] else [''..'']
         | y # ys \<Rightarrow> if y = ''..'' then x # stk else ys)
      else x # stk)"

definition Clean :: "string \<Rightarrow> string" where
  "Clean p =
     (let rooted = HasPrefix p ''/'';
          elems = rev (foldl (clean_step rooted) [] (Split p ''/''))
      in if rooted then ''/'' @ Join elems ''/''
         else if elems = [] then ''.'' else Join elems ''/'')"

definition after_slash :: "string \<Rightarrow> string" where
  "after_slash p = rev (takeWhile (\<lambda>c. c \<noteq> CHR ''/'') (rev p))"

definition upto_slash :: "string \<Rightarrow> string" where
  "upto_slash p = rev (dropWhile (\<lambda>c. c \<noteq> CHR ''/'') (rev p))"

text \<open>\<open>Dir\<close> cleans everything up to the last slash; \<open>Base\<close> is the last element.\<close>

definition Dir :: "string \<Rightarrow> string" where
  "Dir p = Clean (upto_slash p)"

definition Base :: "string \<Rightarrow> string" where
  "Base p =
     (if p = [] then ''.''
      else let q = TrimRight (CHR ''/'') p in if q = [] then ''/'' else after_slash q)"

definition PathJoin :: "string list \<Rightarrow> string" where
  "PathJoin xs =
     (let ys = filter (\<lambda>x. x \<noteq> []) xs in if ys = [] then [] else Clean (Join ys ''/''))"

lemma path_examples:
  "Dir ''/tmp/.niova/ab-cd/input'' = ''/tmp/.niova/ab-cd''"
  "Base ''/tmp/.niova/ab-cd'' = ''ab-cd''"
  "PathJoin [''/proc'', ''42'', ''fd''] = ''/proc/42/fd''"
  by code_simp+

section \<open>Bytes\<close>

text \<open>A little-endian 32-bit field at an index of the buffer.\<close>

definition get32 :: "string \<Rightarrow> nat \<Rightarrow> 32 word" where
  "get32 buf i =
     of_nat (of_char (buf ! i) + 256 * of_char (buf ! (i + 1)) + 65536 * of_char (buf ! (i + 2)) +
       16777216 * of_char (buf ! (i + 3)))"

definition put32 :: "32 word \<Rightarrow> string" where
  "put32 x = map char_of [unat x, unat x div 256, unat x div 65536, unat x div 16777216]"

lemma length_put32 [simp]: "length (put32 x) = 4"
  by (simp add: put32_def)

lemma get32_put32:
  assumes "i = length xs" and "buf = xs @ put32 x @ ys"
  shows "get32 buf i = x"
proof -
  have u: "unat x < 2 ^ 32" using unsigned_less [of x, where ?'a = nat] by simp
  have "n mod 256 + 256 * (n div 256 mod 256) + 65536 * (n div 65536 mod 256) +
      16777216 * (n div 16777216 mod 256) = n mod 2 ^ 32" for n :: nat
    using mod_mult2_eq [of n 256 256] mod_mult2_eq [of n 65536 256] mod_mult2_eq [of n 16777216 256] by simp
  from this [of "unat x"] have "unat x mod 256 + 256 * (unat x div 256 mod 256) +
      65536 * (unat x div 65536 mod 256) + 16777216 * (unat x div 16777216 mod 256) = unat x"
    using u by simp
  note sum = this
  have "buf ! (length xs + k) = put32 x ! k" if "k < 4" for k
    using that assms(2) by (simp add: nth_append)
  from this [of 0] this [of 1] this [of 2] this [of 3]
  have "map (\<lambda>k. of_char (buf ! (i + k)) :: nat) [0, 1, 2, 3] =
      [unat x mod 256, unat x div 256 mod 256, unat x div 65536 mod 256, unat x div 16777216 mod 256]"
    using assms(1) by (simp add: put32_def)
  then have b: "of_char (buf ! i) = unat x mod 256" "of_char (buf ! (i + 1)) = unat x div 256 mod 256"
    "of_char (buf ! (i + 2)) = unat x div 65536 mod 256" "of_char (buf ! (i + 3)) = unat x div 16777216 mod 256"
    by simp_all
  show ?thesis unfolding get32_def b sum by simp
qed



end
