(* ===== verification/AppTables.thy ===== *)
theory AppTables
  imports GoLib
begin

text \<open>
  The data structures the monitored applications report (\<open>pkg/monitor/applications\<close>). The exporter
  reads them by reflection, so a structure type is the list of its fields in order, each with its
  name, its kind and its \<open>json\<close>, \<open>type\<close> and \<open>metric\<close> tags, and a structure value is the list of its
  field values in the same order. \<open>CtlIfOut\<close> itself is read by field name only and is a record.
\<close>

section \<open>Fields and values\<close>

datatype kind = KInt | KUint | KString | KBool | KFloat | KHist | KTime | KUUID | KSlice

datatype sfield =
  Fld (f_name: string) (f_kind: kind) (f_json: string) (f_type: string) (f_metric: string)

type_synonym i64 = "64 word"
type_synonym u64 = "64 word"
type_synonym uuid = "128 word"

text \<open>
  \<open>int\<close> and \<open>int64\<close> are read with \<open>sint\<close>, \<open>uint64\<close> with \<open>uint\<close>; a \<open>float64\<close> is its bit pattern; a
  \<open>Histogram\<close> is the list of its buckets; \<open>GSlice\<close> is a slice of structures.
\<close>

datatype goval =
    GInt i64 | GUint u64 | GString string | GBool bool | GFloat "64 word"
  | GHist "i64 list" | GTime int | GUUID uuid | GSlice "goval list list"

type_synonym gostruct = "goval list"

fun kind_of :: "goval \<Rightarrow> kind" where
  "kind_of (GInt _) = KInt"
| "kind_of (GUint _) = KUint"
| "kind_of (GString _) = KString"
| "kind_of (GBool _) = KBool"
| "kind_of (GFloat _) = KFloat"
| "kind_of (GHist _) = KHist"
| "kind_of (GTime _) = KTime"
| "kind_of (GUUID _) = KUUID"
| "kind_of (GSlice _) = KSlice"

definition has_kind :: "nat \<Rightarrow> kind \<Rightarrow> goval \<Rightarrow> bool" where
  "has_kind nb k v = (kind_of v = k \<and> (case v of GHist bs \<Rightarrow> length bs = nb | _ \<Rightarrow> True))"

section \<open>The structure types\<close>

definition Histogram_fields :: "sfield list" where
  "Histogram_fields =
    [Fld ''Num1'' KInt ''1,omitempty'' '''' '''',
     Fld ''Num2'' KInt ''2,omitempty'' '''' '''',
     Fld ''Num4'' KInt ''4,omitempty'' '''' '''',
     Fld ''Num8'' KInt ''8,omitempty'' '''' '''',
     Fld ''Num16'' KInt ''16,omitempty'' '''' '''',
     Fld ''Num32'' KInt ''32,omitempty'' '''' '''',
     Fld ''Num64'' KInt ''64,omitempty'' '''' '''',
     Fld ''Num128'' KInt ''128,omitempty'' '''' '''',
     Fld ''Num256'' KInt ''256,omitempty'' '''' '''',
     Fld ''Num512'' KInt ''512,omitempty'' '''' '''',
     Fld ''Num1024'' KInt ''1024,omitempty'' '''' '''',
     Fld ''Num2048'' KInt ''2048,omitempty'' '''' '''',
     Fld ''Num4096'' KInt ''4096,omitempty'' '''' '''',
     Fld ''Num8192'' KInt ''8192,omitempty'' '''' '''',
     Fld ''Num16384'' KInt ''16384,omitempty'' '''' '''',
     Fld ''Num32768'' KInt ''32768,omitempty'' '''' '''',
     Fld ''Num65536'' KInt ''65536,omitempty'' '''' '''',
     Fld ''Num131072'' KInt ''131072,omitempty'' '''' '''',
     Fld ''Num262144'' KInt ''262144,omitempty'' '''' '''',
     Fld ''Num524288'' KInt ''524288,omitempty'' '''' '''',
     Fld ''Num1048576'' KInt ''1048576,omitempty'' '''' '''']"

definition SystemInfo_fields :: "sfield list" where
  "SystemInfo_fields =
    [Fld ''CurrentTime'' KTime ''current_time'' '''' '''',
     Fld ''StartTime'' KTime ''start_time'' '''' '''',
     Fld ''Pid'' KInt ''pid'' '''' '''',
     Fld ''UUID'' KUUID ''uuid'' '''' '''',
     Fld ''CtlInterfacePath'' KString ''ctl_interface_path'' '''' '''',
     Fld ''CommandLine'' KString ''command_line'' '''' '''',
     Fld ''UtsNodename'' KString ''uts.nodename'' '''' '''',
     Fld ''UtsSysname'' KString ''uts.sysname'' '''' '''',
     Fld ''UtsRelease'' KString ''uts.release'' '''' '''',
     Fld ''UtsVersion'' KString ''uts.version'' '''' '''',
     Fld ''UtsMachine'' KString ''uts.machine'' '''' '''',
     Fld ''RusageUserCPUTimeUsed'' KFloat ''rusage.user_cpu_time_used'' ''gauge'' ''SYSINFO_user_cpu_time'',
     Fld ''RusageSystemCPUTimeUsed'' KFloat ''rusage.system_cpu_time_used'' ''gauge'' ''SYSINFO_sys_cpu_time'',
     Fld ''RusageMaxRss'' KUint ''rusage.max_rss'' ''counter'' ''SYSINFO_max_rss'',
     Fld ''RusageMinFault'' KUint ''rusage.min_fault'' ''counter'' ''SYSINFO_min_fault'',
     Fld ''RusageMajFault'' KUint ''rusage.maj_fault'' ''counter'' ''SYSINFO_maj_fault'',
     Fld ''RusageInBlock'' KUint ''rusage.in_block'' ''counter'' ''SYSINFO_in_block_usage'',
     Fld ''RusageOutBlock'' KUint ''rusage.out_block'' ''counter'' ''SYSINFO_out_block_usage'',
     Fld ''RusageVolCtsw'' KUint ''rusage.vol_ctsw'' ''gauge'' ''SYSINFO_vol_ctsw'',
     Fld ''RusageInvolCtsw'' KUint ''rusage.invol_ctsw'' ''gauge'' ''SYSINFO_in_vol_ctsw'']"

definition RaftInfo_fields :: "sfield list" where
  "RaftInfo_fields =
    [Fld ''RaftUUID'' KString ''raft-uuid'' '''' '''',
     Fld ''PeerUUID'' KString ''peer-uuid'' '''' '''',
     Fld ''VotedForUUID'' KString ''voted-for-uuid'' '''' '''',
     Fld ''LeaderUUID'' KString ''leader-uuid'' '''' '''',
     Fld ''State'' KString ''state'' '''' '''',
     Fld ''FollowerReason'' KString ''follower-reason'' '''' '''',
     Fld ''ClientRequests'' KString ''client-requests'' '''' '''',
     Fld ''Term'' KInt ''term'' ''gauge'' ''PMDB_term'',
     Fld ''CommitIdx'' KInt ''commit-idx'' ''gauge'' ''PMDB_commitIdx'',
     Fld ''LastApplied'' KInt ''last-applied'' ''gauge'' ''PMDB_last_applied'',
     Fld ''LastAppliedCumulativeCrc'' KInt ''last-applied-cumulative-crc'' ''gauge'' ''PMDB_last_applied_cumulative_crc'',
     Fld ''NewestEntryIdx'' KInt ''newest-entry-idx'' ''gauge'' ''PMDB_newest_entry_idx'',
     Fld ''NewestEntryTerm'' KInt ''newest-entry-term'' ''gauge'' ''PMDB_newest_entry_term'',
     Fld ''NewestEntryDataSize'' KInt ''newest-entry-data-size'' ''gauge'' ''PMDB_newest_entry_data_size'',
     Fld ''NewestEntryCrc'' KUint ''newest-entry-crc'' ''gauge'' ''PMDB_newest_entry_crc'',
     Fld ''DevReadLatencyUsec'' KHist ''dev-read-latency-usec'' ''histogram'' ''dev_read_latency_usec'',
     Fld ''DevWriteLatencyUsec'' KHist ''dev-write-latency-usec'' ''histogram'' ''dev_write_latency_usec'',
     Fld ''FollowerStats'' KSlice ''follower-stats,omitempty'' '''' '''',
     Fld ''CommitLatencyMsec'' KHist ''commit-latency-msec'' '''' '''',
     Fld ''ReadLatencyMsec'' KHist ''read-latency-msec'' '''' '''']"

definition NiorqMgr_fields :: "sfield list" where
  "NiorqMgr_fields =
    [Fld ''UUID'' KString ''uuid'' '''' '''',
     Fld ''DevPath'' KString ''dev-path'' '''' '''',
     Fld ''ServerMode'' KBool ''server-mode'' '''' '''',
     Fld ''BuildId'' KString ''build-id'' '''' '''',
     Fld ''Status'' KString ''status'' '''' '''',
     Fld ''ReadBytes'' KUint ''dev-bytes-read'' ''counter'' ''nisd_dev_read_bytes'',
     Fld ''WriteBytes'' KUint ''dev-bytes-write'' ''counter'' ''nisd_dev_write_bytes'',
     Fld ''NetRecvBytes'' KUint ''net-bytes-recv'' ''counter'' ''nisd_net_bytes_recv'',
     Fld ''NetSendBytes'' KUint ''net-bytes-send'' ''counter'' ''nisd_net_bytes_send'',
     Fld ''DevRdSize'' KHist ''dev-rd-size'' ''histogram'' ''nisd_dev_rd_size'',
     Fld ''DevWrSize'' KHist ''dev-wr-size'' ''histogram'' ''nisd_dev_wr_size'',
     Fld ''NetRecvSize'' KHist ''net-recv-size'' ''histogram'' ''nisd_net_recv_size'',
     Fld ''NetSendSize'' KHist ''net-send-size'' ''histogram'' ''nisd_net_send_size'',
     Fld ''DevRdLatencyUsec'' KHist ''dev-rd-latency-usec'' ''histogram'' ''nisd_dev_rd_latency_usec'',
     Fld ''DevWrLatencyUsec'' KHist ''dev-wr-latency-usec'' ''histogram'' ''nisd_dev_wr_latency_usec'',
     Fld ''NetRecvLatencyUsec'' KHist ''net-recv-latency-usec'' ''histogram'' ''nisd_net_recv_latency_usec'',
     Fld ''NetSendLatencyUsec'' KHist ''net-send-latency-usec'' ''histogram'' ''nisd_net_send_latency_usec'',
     Fld ''IOReqLatencyUsec'' KHist ''io-req-latency-usec'' ''histogram'' ''nisd_io_req_latency_usec'',
     Fld ''NIOPWaitLatencyUsec'' KHist ''niop-wait-latency-usec'' ''histogram'' ''nisd_niop_wait_latency_usec'',
     Fld ''NIOPUringLatencyUsec'' KHist ''niop-uring-latency-usec'' ''histogram'' ''nisd_niop_uring_latency_usec'',
     Fld ''NumSubSQEs'' KHist ''num-sub-sqes'' ''histogram'' ''nisd_num_sub_sqes'',
     Fld ''NumWaitCQEs'' KHist ''num-wait-cqes'' ''histogram'' ''nisd_num_wait_cqes'',
     Fld ''UringNetResubmissions'' KHist ''uring-net-resubmissions'' ''histogram'' ''nisd_uring_net_resubmissions'',
     Fld ''UringDevResubmissions'' KHist ''uring-dev-resubmissions'' ''histogram'' ''nisd_uring_dev_resubmissions'',
     Fld ''UringFixedBuf'' KHist ''uring-fixed-buf'' ''histogram'' ''nisd_uring_fixed_buf'',
     Fld ''UringNumIOVs'' KHist ''uring-num-iovs'' ''histogram'' ''nisd_uring_num_iovs'']"

definition NISDRoot_fields :: "sfield list" where
  "NISDRoot_fields =
    [Fld ''UUID'' KString ''uuid'' '''' '''',
     Fld ''InstanceUUID'' KString ''instance-uuid'' '''' '''',
     Fld ''Status'' KString ''status'' '''' '''',
     Fld ''VBlockRead'' KUint ''vblks-read'' ''counter'' ''nisd_vblk_read'',
     Fld ''VBlockHoleRead'' KUint ''vblks-hole-read'' ''gauge'' ''nisd_vblk_hole_read'',
     Fld ''VBlockWritten'' KUint ''vblks-written'' ''counter'' ''nisd_vblk_write'',
     Fld ''VBlockTrim'' KUint ''vblks-trimmed'' ''counter'' ''nisd_vblk_trim'',
     Fld ''VBlockScrub'' KUint ''vblks-scrubbed'' ''counter'' ''nisd_vblk_scrubbed'',
     Fld ''S3SyncSendBytes'' KUint ''s3-sync-send-bytes'' ''gauge'' ''nisd_s3_sync_send_bytes'',
     Fld ''S3SyncVBlksRead'' KUint ''s3-sync-vblks-read'' ''gauge'' ''nisd_s3_sync_vblks_read'',
     Fld ''MetablockSectorsRead'' KUint ''metablock-sectors-read'' ''counter'' ''nisd_metablock_sectors_read'',
     Fld ''MetablockSectorsWritten'' KUint ''metablock-sectors-written'' ''counter'' ''nisd_metablock_sectors_written'',
     Fld ''MetablockCacheHits'' KUint ''metablock-cache-hits'' ''counter'' ''nisd_metablock_cache_hits'',
     Fld ''MetablockCacheMisses'' KUint ''metablock-cache-misses'' ''counter'' ''nisd_metablock_cache_misses'',
     Fld ''ChunkMergeQLen'' KUint ''chunk-mergeq-len'' ''gauge'' ''nisd_chunk_mergeq_len'',
     Fld ''NumReservedPblks'' KUint ''num-reserved-pblks'' ''counter'' ''nisd_num_reserved_pblks'',
     Fld ''NumReservedPblksUsed'' KUint ''num-reserved-pblks-used'' ''counter'' ''nisd_num_reserved_pblks_used'',
     Fld ''NumPblks'' KUint ''num-pblks'' ''counter'' ''nisd_num_pblks'',
     Fld ''NumPblksUsed'' KUint ''num-pblks-used'' ''counter'' ''nisd_num_pblks_used'',
     Fld ''NumPblksAssignWait'' KUint ''num-pblks-assign-wait'' ''counter'' ''nisd_num_pblks_assign_wait'',
     Fld ''NumPblksAssignYield'' KUint ''num-pblks-assign-yield'' ''counter'' ''nisd_num_pblks_assign_yield'',
     Fld ''NumPblksAssignYieldErr'' KUint ''num-pblks-assign-yielded-err'' ''counter'' ''nisd_num_pblks_assign_yield_err'',
     Fld ''ReleaseObjBusy'' KUint ''release-obj-busy'' ''gauge'' ''nisd_release_obj_busy'',
     Fld ''ReleaseXtraObjBusy'' KUint ''release-xtra-obj-busy'' ''gauge'' ''nisd_release_xtra_obj_busy'',
     Fld ''ReleaseObjTotal'' KUint ''release-obj-total'' ''counter'' ''nisd_release_obj_total'',
     Fld ''ReleaseXtraObjTotal'' KUint ''release-xtra-obj-total'' ''counter'' ''nisd_release_xtra_obj_total'',
     Fld ''ShallowMergeInProgress'' KUint ''shallow-merge-in-progress'' ''gauge'' ''nisd_shallow_merge_in_progress'',
     Fld ''AltName'' KString ''alt-name'' '''' '''',
     Fld ''VBlkMetaReadSectors'' KHist ''vblk-meta-read-sectors'' ''histogram'' ''nisd_vblk_meta_read_sectors'',
     Fld ''MCIBMetaReadSectors'' KHist ''mcib-meta-read-sectors'' ''histogram'' ''nisd_mcib_meta_read_sectors'',
     Fld ''MWCPoolFree'' KUint ''mwc-pool-free'' ''gauge'' ''nisd_mwc_pool_free'',
     Fld ''MWCPoolAlloc'' KUint ''mwc-pool-alloc'' ''gauge'' ''nisd_mwc_pool_alloc'',
     Fld ''MWCPoolMaxAlloc'' KUint ''mwc-pool-max-alloc'' ''gauge'' ''nisd_mwc_pool_max_alloc'',
     Fld ''MWCPoolBufWaiters'' KUint ''mwc-pool-buf-waiters'' ''gauge'' ''nisd_mwc_pool_buf_waiters'']"

definition NISDChunkInfo_fields :: "sfield list" where
  "NISDChunkInfo_fields =
    [Fld ''VdevUUID'' KString ''vdev-uuid'' '''' '''',
     Fld ''Number'' KUint ''number'' '''' '''',
     Fld ''Tier'' KUint ''tier'' ''gauge'' ''nisd_chunk_tier'',
     Fld ''Pos'' KUint ''pos'' ''gauge'' ''nisd_chunk_pos'',
     Fld ''Type'' KString ''type'' '''' '''',
     Fld ''NumDataPblks'' KUint ''num-data-pblks'' ''counter'' ''nisd_chunk_num_data_pblks'',
     Fld ''NumMetaPblks'' KUint ''num-meta-pblks'' ''counter'' ''nisd_chunk_num_meta_pblks'',
     Fld ''NumMcibPblks'' KUint ''num-mcib-pblks'' ''counter'' ''nisd_chunk_num_mcib_pblks'',
     Fld ''NumReservedMetaPblks'' KUint ''num-reserved-meta-pblks'' ''counter'' ''nisd_chunk_num_reserved_meta_pblks'',
     Fld ''NumTypical2ReservedMbLinks'' KUint ''num-typical-2-reserved-mb-links'' ''counter'' ''nisd_chunk_num_typical_2_reserved_mb_links'',
     Fld ''VblksRead'' KUint ''vblks-read'' ''counter'' ''nisd_chunk_vblks_read'',
     Fld ''VblksWritten'' KUint ''vblks-written'' ''counter'' ''nisd_chunk_vblks_written'',
     Fld ''VblksPeerSent'' KUint ''vblks-peer-sent'' ''counter'' ''nisd_chunk_vblks_peer_sent'',
     Fld ''VblksPeerRecvd'' KUint ''vblks-peer-recvd'' ''counter'' ''nisd_chunk_vblks_peer_recvd'',
     Fld ''MergeShallowCnt'' KUint ''merge-shallow-cnt'' ''counter'' ''nisd_chunk_merge_shallow_cnt'',
     Fld ''MergeShallowStatus'' KString ''merge-shallow-status'' '''' '''',
     Fld ''MergeFullCnt'' KUint ''merge-full-cnt'' ''counter'' ''nisd_chunk_merge_full_cnt'',
     Fld ''MergeFullCompletedCnt'' KUint ''merge-full-completed-cnt'' ''counter'' ''nisd_chunk_merge_full_completed_cnt'',
     Fld ''MergeFullStatus'' KString ''merge-full-status'' '''' '''',
     Fld ''MergeFence'' KInt ''merge-fence'' ''counter'' ''nisd_chunk_merge_fence'',
     Fld ''ClientRecoverySeqno'' KInt ''client-recovery-seqno'' ''counter'' ''nisd_chunk_client_recovery_seqno'',
     Fld ''MetablockSeqn'' KInt ''metablock-seqno'' ''counter'' ''nisd_chunk_metablock_seqno'',
     Fld ''S3SyncSeqno'' KInt ''s3-sync-seqno'' ''counter'' ''nisd_chunk_s3_sync_seqno'',
     Fld ''S3SyncState'' KString ''s3-sync-state'' '''' ''nisd_chunk_s3_state'',
     Fld ''NumCme'' KUint ''num-cme'' ''counter'' ''nisd_chunk_num_cme'',
     Fld ''RefCnt'' KUint ''ref-cnt'' ''counter'' ''nisd_chunk_ref_cnt'',
     Fld ''OooMbSyncCnt'' KUint ''ooo-mb-sync-cnt'' ''counter'' ''nisd_chunk_ooo_mb_sync_cnt'',
     Fld ''OooMbSyncNewMpblkCnt'' KUint ''ooo-mb-sync-new-mpblk-cnt'' ''counter'' ''nisd_chunk_ooo_mb_sync_new_mpblk_cnt'',
     Fld ''McibHits'' KUint ''mcib-hits'' ''counter'' ''nisd_chunk_mcib_hits'',
     Fld ''McibMisses'' KUint ''mcib-misses'' ''counter'' ''nisd_chunk_mcib_misses'',
     Fld ''McibSectorReads'' KUint ''mcib-sector-reads'' ''counter'' ''nisd_chunk_mcib_sector_reads'',
     Fld ''McibSectorWrites'' KUint ''mcib-sector-writes'' ''counter'' ''nisd_chunk_mcib_sector_writes'',
     Fld ''StashPblk'' KInt ''stash-pblk'' ''counter'' ''nisd_chunk_stash_pblk'',
     Fld ''StashPblkStates'' KString ''stash-pblk-states'' '''' '''',
     Fld ''MWCSize'' KUint ''mwc-size'' ''gauge'' ''nisd_chunk_mwc_size'',
     Fld ''MWCMaxSize'' KUint ''mwc-max-size'' ''gauge'' ''nisd_chunk_mwc_max_size'',
     Fld ''MWCWaiters'' KUint ''mwc-waiters'' ''gauge'' ''nisd_chunk_mwc_waiters'',
     Fld ''MWCMaxWaiters'' KUint ''mwc-max-waiters'' ''gauge'' ''nisd_chunk_mwc_max_waiters'',
     Fld ''MWCInsert'' KUint ''mwc-insert'' ''counter'' ''nisd_chunk_mwc_insert'',
     Fld ''MRCSize'' KUint ''mrc-size'' ''gauge'' ''nisd_chunk_mrc_size'',
     Fld ''MRCMaxSize'' KUint ''mrc-max-size'' ''gauge'' ''nisd_chunk_mrc_max_size'',
     Fld ''MRCVblksRead'' KUint ''mrc-vblks-read'' ''counter'' ''nisd_chunk_vblks_mrc_read'',
     Fld ''DefragStatus'' KString ''defrag-status'' '''' ''nisd_chunk_defrag_status'',
     Fld ''DefragPblksReclaimed'' KUint ''defrag-pblks-reclaimed'' ''counter'' ''nisd_chunk_pblks_reclaimed_defrag'',
     Fld ''MbMergePblksReclaimed'' KUint ''mb-merge-pblks-reclaimed'' ''counter'' ''nisd_chunk_pblks_reclaimed_mb_merge'']"

definition BufferSetNodes_fields :: "sfield list" where
  "BufferSetNodes_fields =
    [Fld ''Name'' KString ''name'' '''' '''',
     Fld ''BufSize'' KUint ''buf-size'' ''counter'' ''buf_set_node_size'',
     Fld ''NumBufs'' KUint ''num-bufs'' ''counter'' ''buf_set_node_num_bufs'',
     Fld ''InUse'' KUint ''in-use'' ''gauge'' ''buf_set_node_in_use'',
     Fld ''TotalUsed'' KUint ''total-used'' ''counter'' ''buf_set_node_total_used'',
     Fld ''MaxInUse'' KUint ''max-in-use'' ''counter'' ''buf_set_node_max_in_use'',
     Fld ''NumUserCached'' KUint ''num-user-cached'' ''gauge'' ''buf_set_node_num_user_cached'']"

definition TaskInfo_fields :: "sfield list" where
  "TaskInfo_fields =
    [Fld ''Type'' KString ''type'' '''' '''',
     Fld ''ExecCnt'' KUint ''exec-cnt'' ''counter'' ''task_exec_cnt'',
     Fld ''YieldCnt'' KUint ''yield-cnt'' ''counter'' ''task_yield_cnt'',
     Fld ''Running'' KUint ''running'' ''gauge'' ''task_num_running'',
     Fld ''MaxStack'' KUint ''max-save-stack-size'' ''gauge'' ''task_max_stack'',
     Fld ''WaitCoBuf'' KUint ''wait-co-buf'' ''gauge'' ''task_wait_co_buf'',
     Fld ''WaitBulkBuf'' KUint ''wait-bulk-buf'' ''gauge'' ''task_wait_bulk_buf'',
     Fld ''WaitPblk'' KUint ''wait-pblk'' ''gauge'' ''task_wait_pblk'',
     Fld ''WaitIO'' KUint ''wait-io'' ''gauge'' ''task_wait_io'',
     Fld ''WaitUser'' KUint ''wait-user-resource'' ''gauge'' ''task_wait_user'',
     Fld ''WaitUserNet'' KUint ''wait-user-net-resource'' ''gauge'' ''task_wait_user_net'',
     Fld ''WaitMergePre'' KUint ''wait-merge-preempted'' ''gauge'' ''task_wait_merge_pre'',
     Fld ''WaitMBCSync'' KUint ''wait-mbc-sync'' ''gauge'' ''task_wait_mbc_sync'',
     Fld ''WaitMBCBuf'' KUint ''wait-mbc-buf'' ''gauge'' ''task_wait_mbc_buf'',
     Fld ''WaitFaultInj'' KUint ''wait-fault-inject'' ''gauge'' ''task_wait_fault_inj'',
     Fld ''WaitSerialized'' KUint ''wait-serialized'' ''gauge'' ''task_wait_serial'',
     Fld ''WaitS3onDemand'' KUint ''wait-s3-on-demand'' ''gauge'' ''task_wait_s3'',
     Fld ''WaitWCBuf'' KUint ''wait-wc-buf'' ''gauge'' ''task_wait_wc_buf'',
     Fld ''WaitWCPresync'' KUint ''wait-wc-presync'' ''gauge'' ''task_wait_wc_presync'',
     Fld ''WaitOther'' KUint ''wait-other'' ''gauge'' ''task_wait_other'']"

definition MbMerge_fields :: "sfield list" where
  "MbMerge_fields =
    [Fld ''Mode'' KString ''mode'' '''' '''',
     Fld ''InProgressCnt'' KUint ''in-progress-cnt'' ''gauge'' ''merge_in_progress'',
     Fld ''DoneChainEnd'' KUint ''chain-end'' ''counter'' ''merge_done_chain_end'',
     Fld ''DoneFence'' KUint ''merge-fence'' ''counter'' ''merge_done_fence'',
     Fld ''DoneMbmrhNoSpc'' KUint ''mbmrh-enospc'' ''counter'' ''merge_done_mbmrh_nospc'',
     Fld ''DoneEncroachFull'' KUint ''encroach-full-merge'' ''counter'' ''merge_done_encroach_full'',
     Fld ''DoneShallow'' KUint ''shallow-done'' ''counter'' ''merge_done_shallow'',
     Fld ''CompleteMs'' KHist ''complete-merge-ms'' ''histogram'' ''nisd_merge_complete_ms'',
     Fld ''PartialMs'' KHist ''partial-merge-ms'' ''histogram'' ''nisd_merge_partial_ms'']"

definition ChunkDefrag_fields :: "sfield list" where
  "ChunkDefrag_fields =
    [Fld ''ReclaimedPblksPerChunk'' KHist ''reclaimed-pblks-per-chunk'' ''histogram'' ''nisd_defrag_reclaimed_pblks_chunk'',
     Fld ''CompletionMS'' KHist ''completion-ms'' ''histogram'' ''nisd_defrag_completion_ms'']"

definition NclientInfo_fields :: "sfield list" where
  "NclientInfo_fields =
    [Fld ''VdevUUID'' KString ''vdev-uuid'' '''' '''',
     Fld ''Status'' KString ''status'' '''' '''',
     Fld ''BuildId'' KString ''build-id'' '''' '''',
     Fld ''QueueDepth'' KUint ''queue-depth'' ''gauge'' ''nclient_queue_depth'',
     Fld ''VblksRpRead'' KUint ''vblks-rp-read'' ''counter'' ''nclient_vblks_rp_read'',
     Fld ''VblksRpWrite'' KUint ''vblks-rp-write'' ''counter'' ''nclient_vblks_rp_write'',
     Fld ''VblksEcRead'' KUint ''vblks-ec-read'' ''counter'' ''nclient_vblks_ec_read'',
     Fld ''VblksEcWrite'' KUint ''vblks-ec-write'' ''counter'' ''nclient_vblks_ec_write'',
     Fld ''VblksS3Read'' KUint ''vblks-s3-read'' ''counter'' ''nclient_vblks_s3_read'',
     Fld ''VblksHoleRead'' KUint ''vblks-hole-read'' ''counter'' ''nclient_vblks_hole_read'',
     Fld ''VblksRpRedirectRead'' KUint ''vblks-rp-redirect-read'' ''counter'' ''nclient_vblks_rp_redirect_read'',
     Fld ''RpReadSize'' KHist ''rp-read-size'' ''histogram'' ''nclient_rp_read_size'',
     Fld ''RpWriteSize'' KHist ''rp-write-size'' ''histogram'' ''nclient_rp_write_size'',
     Fld ''EcReadSize'' KHist ''ec-read-size'' ''histogram'' ''nclient_ec_read_size'',
     Fld ''EcWriteSize'' KHist ''ec-write-size'' ''histogram'' ''nclient_ec_write_size'',
     Fld ''RpReadLat'' KHist ''rp-read-lat'' ''histogram'' ''nclient_rp_read_lat'',
     Fld ''RpWriteLat'' KHist ''rp-write-lat'' ''histogram'' ''nclient_rp_write_lat'',
     Fld ''EcReadLat'' KHist ''ec-read-lat'' ''histogram'' ''nclient_ec_read_lat'',
     Fld ''EcWriteLat'' KHist ''ec-write-lat'' ''histogram'' ''nclient_ec_write_lat'']"

text \<open>A value of a structure type: one value of the right kind for each field.\<close>

definition of_type :: "sfield list \<Rightarrow> gostruct \<Rightarrow> bool" where
  "of_type fs vs = list_all2 (\<lambda>f v. has_kind (length Histogram_fields) (f_kind f) v) fs vs"

text \<open>A field access \<open>s.Name\<close>; the empty string when the field holds no string.\<close>

fun field_val :: "sfield list \<Rightarrow> gostruct \<Rightarrow> string \<Rightarrow> goval option" where
  "field_val (f # fs) (v # vs) n = (if f_name f = n then Some v else field_val fs vs n)"
| "field_val _ _ _ = None"

definition str_field :: "sfield list \<Rightarrow> gostruct \<Rightarrow> string \<Rightarrow> string" where
  "str_field fs vs n = (case field_val fs vs n of Some (GString s) \<Rightarrow> s | _ \<Rightarrow> [])"

definition uint_field :: "sfield list \<Rightarrow> gostruct \<Rightarrow> string \<Rightarrow> u64" where
  "uint_field fs vs n = (case field_val fs vs n of Some (GUint u) \<Rightarrow> u | _ \<Rightarrow> 0)"

definition slice_field :: "sfield list \<Rightarrow> gostruct \<Rightarrow> string \<Rightarrow> goval list list" where
  "slice_field fs vs n = (case field_val fs vs n of Some (GSlice xs) \<Rightarrow> xs | _ \<Rightarrow> [])"

text \<open>The element type of \<open>RaftInfo.FollowerStats\<close>.\<close>

definition FollowerStats_fields :: "sfield list" where
  "FollowerStats_fields =
    [Fld ''PeerUUID'' KString ''peer-uuid'' '''' '''',
     Fld ''LastAckMs'' KInt ''ms-since-last-ack'' '''' '''',
     Fld ''LastAck'' KTime ''last-ack'' '''' '''',
     Fld ''NextIdx'' KInt ''next-idx'' '''' '''',
     Fld ''PrevIdxTerm'' KInt ''prev-idx-term'' '''' '''']"

definition int_field :: "sfield list \<Rightarrow> gostruct \<Rightarrow> string \<Rightarrow> i64" where
  "int_field fs vs n = (case field_val fs vs n of Some (GInt i) \<Rightarrow> i | _ \<Rightarrow> 0)"

section \<open>CtlIfOut\<close>

record CtlIfOut =
  SysInfo :: "gostruct option"
  RaftRootEntry :: "gostruct list"
  NiorqMgr :: "gostruct list"
  NISDRootEntry :: "gostruct list"
  NISDChunk :: "gostruct list"
  MbMerge :: "gostruct list"
  Tasks :: "gostruct list"
  BufSetNodes :: "gostruct list"
  Defrag :: "i64 list \<times> i64 list"
  Nclient :: "gostruct option"

text \<open>The zero value \<open>CtlIfOut{}\<close>.\<close>

definition zero_ctl :: CtlIfOut where
  "zero_ctl = \<lparr>SysInfo = None, RaftRootEntry = [], NiorqMgr = [], NISDRootEntry = [], NISDChunk = [],
     MbMerge = [], Tasks = [], BufSetNodes = [],
     Defrag = (replicate (length Histogram_fields) 0, replicate (length Histogram_fields) 0),
     Nclient = None\<rparr>"

text \<open>The commands an endpoint can be sent (\<open>EPcmdType\<close>).\<close>

datatype EPcmdType = IdentifyOp | RaftInfoOp | SystemInfoOp | NISDInfoOp | NCLIENTInfoOp | CustomOp

section \<open>Facts about the tables\<close>

text \<open>The exported tag combinations of a field and the kinds the exporter can read for them.\<close>

definition exportable :: "sfield \<Rightarrow> bool" where
  "exportable f =
     (if f_type f = ''histogram'' then f_kind f = KHist
      else if f_type f = ''counter'' \<or> f_type f = ''gauge'' then f_kind f \<in> {KInt, KUint, KFloat}
      else f_type f = [])"

lemmas table_defs =
  Histogram_fields_def SystemInfo_fields_def RaftInfo_fields_def NiorqMgr_fields_def
  NISDRoot_fields_def NISDChunkInfo_fields_def BufferSetNodes_fields_def TaskInfo_fields_def
  MbMerge_fields_def ChunkDefrag_fields_def NclientInfo_fields_def FollowerStats_fields_def

definition metric_tables :: "sfield list list" where
  "metric_tables =
    [SystemInfo_fields, RaftInfo_fields, NiorqMgr_fields, NISDRoot_fields, NISDChunkInfo_fields,
     BufferSetNodes_fields, TaskInfo_fields, MbMerge_fields, NclientInfo_fields]"

lemma length_Histogram_fields [simp]: "length Histogram_fields = 21"
  by (simp add: Histogram_fields_def)

lemma tables_exportable: "list_all (list_all exportable) metric_tables"
  by code_simp

text \<open>Within one structure no two fields export the same metric.\<close>

lemma tables_metrics_distinct:
  "list_all (\<lambda>fs. distinct (map f_metric (filter (\<lambda>f. f_type f \<noteq> []) fs))) metric_tables"
  by code_simp

end
