(* ===== verification/JsonText.thy ===== *)
theory JsonText
  imports GoLib
begin

text \<open>
  The text of \<open>encoding/json\<close>: documents and their rendering by \<open>Marshal\<close> and \<open>MarshalIndent\<close>; the scanner
  and the grammar that \<open>Unmarshal\<close> checks first, as two machines that read one character and one token at
  a time; the strings behind the escapes; and the proof that what is rendered is read back.
\<close>

section \<open>Quoted strings\<close>

text \<open>The length of the UTF-8 sequence that bytes start with, 0 when there is none.\<close>

definition cont_byte :: "nat \<Rightarrow> nat \<Rightarrow> string \<Rightarrow> nat \<Rightarrow> bool" where
  "cont_byte lo hi s i = (i < length s \<and> lo \<le> (of_char (s ! i) :: nat) \<and> (of_char (s ! i) :: nat) \<le> hi)"

definition utf8_len :: "string \<Rightarrow> nat" where
  "utf8_len s =
     (if s = [] then 0
      else let b = of_char (hd s) :: nat; c = cont_byte 0x80 0xBF s in
        if b < 0x80 then 1
        else if 0xC2 \<le> b \<and> b \<le> 0xDF then (if c 1 then 2 else 0)
        else if 0xE0 \<le> b \<and> b \<le> 0xEF then
          (if cont_byte (if b = 0xE0 then 0xA0 else 0x80) (if b = 0xED then 0x9F else 0xBF) s 1 \<and> c 2 then 3 else 0)
        else if 0xF0 \<le> b \<and> b \<le> 0xF4 then
          (if cont_byte (if b = 0xF0 then 0x90 else 0x80) (if b = 0xF4 then 0x8F else 0xBF) s 1 \<and> c 2 \<and> c 3 then 4 else 0)
        else 0)"

text \<open>
  \<open>json.Marshal\<close> of a string: the quotes, the short escapes, \<open>\u00XX\<close> for the other control characters and
  for the three characters HTML gives a meaning; a byte that starts no UTF-8 sequence becomes the
  escape of the replacement character, and the two line separators of Unicode are escaped.
\<close>

definition json_char :: "char \<Rightarrow> string" where
  "json_char c =
     (let n = of_char c :: nat; hex = (\<lambda>d. ''0123456789abcdef'' ! d) in
      if c = CHR 0x22 then [CHR 0x5C, CHR 0x22]
      else if c = CHR 0x5C then [CHR 0x5C, CHR 0x5C]
      else if c = CHR 0x0A then [CHR 0x5C, CHR ''n'']
      else if c = CHR 0x0D then [CHR 0x5C, CHR ''r'']
      else if c = CHR 0x09 then [CHR 0x5C, CHR ''t'']
      else if c = CHR 0x08 then [CHR 0x5C, CHR ''b'']
      else if c = CHR 0x0C then [CHR 0x5C, CHR ''f'']
      else if n < 32 \<or> c \<in> {CHR ''<'', CHR ''>'', CHR ''&''}
      then [CHR 0x5C, CHR ''u'', CHR ''0'', CHR ''0'', hex (n div 16), hex (n mod 16)]
      else [c])"

definition line_sep :: string where "line_sep = [CHR 0xE2, CHR 0x80, CHR 0xA8]"

definition para_sep :: string where "para_sep = [CHR 0xE2, CHR 0x80, CHR 0xA9]"

text \<open>The first character of a text: how it is written and the bytes it takes.\<close>

definition quote_char :: "string \<Rightarrow> string \<times> nat" where
  "quote_char s =
     (let n = utf8_len s in
      if (of_char (hd s) :: nat) < 0x80 then (json_char (hd s), 1)
      else if n = 0 then (CHR 0x5C # ''ufffd'', 1)
      else if take n s = line_sep then (CHR 0x5C # ''u2028'', n)
      else if take n s = para_sep then (CHR 0x5C # ''u2029'', n)
      else (take n s, n))"

fun raw_string :: "string \<Rightarrow> string" where
  "raw_string [] = []"
| "raw_string (c # cs) = (let (out, n) = quote_char (c # cs) in out @ raw_string (drop (n - 1) cs))"

definition json_string :: "string \<Rightarrow> string" where
  "json_string s = dq @ raw_string s @ dq"

section \<open>Rendering\<close>

datatype json = JNull | JBool bool | JNum string | JStr string | JArr "json list" | JObj "(string \<times> json) list"

text \<open>\<open>brk n\<close> is the white space before an element at depth \<open>n\<close>, \<open>sp\<close> the one after a colon.\<close>

fun jprint :: "(nat \<Rightarrow> string) \<Rightarrow> string \<Rightarrow> nat \<Rightarrow> json \<Rightarrow> string"
and jprint_elems :: "(nat \<Rightarrow> string) \<Rightarrow> string \<Rightarrow> nat \<Rightarrow> json list \<Rightarrow> string list"
and jprint_members :: "(nat \<Rightarrow> string) \<Rightarrow> string \<Rightarrow> nat \<Rightarrow> (string \<times> json) list \<Rightarrow> string list" where
  "jprint brk sp n JNull = ''null''"
| "jprint brk sp n (JBool b) = (if b then ''true'' else ''false'')"
| "jprint brk sp n (JNum s) = s"
| "jprint brk sp n (JStr s) = json_string s"
| "jprint brk sp n (JArr xs) =
     (if xs = [] then ''[]''
      else ''['' @ brk (Suc n) @ Join (jprint_elems brk sp (Suc n) xs) ('','' @ brk (Suc n)) @ brk n @ '']'')"
| "jprint brk sp n (JObj ms) =
     (if ms = [] then ''{}''
      else ''{'' @ brk (Suc n) @ Join (jprint_members brk sp (Suc n) ms) ('','' @ brk (Suc n)) @ brk n @ ''}'')"
| "jprint_elems brk sp n [] = []"
| "jprint_elems brk sp n (x # xs) = jprint brk sp n x # jprint_elems brk sp n xs"
| "jprint_members brk sp n [] = []"
| "jprint_members brk sp n ((k, v) # ms) =
     (json_string k @ '':'' @ sp @ jprint brk sp n v) # jprint_members brk sp n ms"

abbreviation tabs :: "nat \<Rightarrow> string" where "tabs n \<equiv> replicate n (CHR 0x09)"

text \<open>\<open>json.Marshal\<close>, and \<open>json.MarshalIndent\<close> with tabs from a depth on.\<close>

definition compact :: "json \<Rightarrow> string" where
  "compact = jprint (\<lambda>_. []) [] 0"

definition indent :: "nat \<Rightarrow> json \<Rightarrow> string" where
  "indent = jprint (\<lambda>n. nl @ tabs n) '' ''"

section \<open>Tokens\<close>

text \<open>A string token holds the bytes between its quotes, the escapes not yet replaced.\<close>

datatype token = LBrack | RBrack | LBrace | RBrace | Colon | Comma | Lit string | Num string | Str string

datatype lstate = LNone | LStr string | LEsc string | LHex nat string | LNum string | LLit string

definition is_digit :: "char \<Rightarrow> bool" where
  "is_digit c = (digit_val c \<noteq> None)"

definition num_char :: "char \<Rightarrow> bool" where
  "num_char c = (is_digit c \<or> c \<in> {CHR ''-'', CHR ''+'', CHR ''.'', CHR ''e'', CHR ''E''})"

definition is_lower :: "char \<Rightarrow> bool" where
  "is_lower c = (let n = of_char c :: nat in 97 \<le> n \<and> n \<le> 122)"

definition hex_digit :: "char \<Rightarrow> nat option" where
  "hex_digit c =
     (let n = of_char c :: nat
      in if 48 \<le> n \<and> n \<le> 57 then Some (n - 48)
         else if 97 \<le> n \<and> n \<le> 102 then Some (n - 87)
         else if 65 \<le> n \<and> n \<le> 70 then Some (n - 55) else None)"

definition json_ws :: "char \<Rightarrow> bool" where
  "json_ws c = (c \<in> {CHR 0x20, CHR 0x09, CHR 0x0D, CHR 0x0A})"

definition lex_open :: "char \<Rightarrow> (token list \<times> lstate) option" where
  "lex_open c =
     (if json_ws c then Some ([], LNone)
      else if c = CHR ''['' then Some ([LBrack], LNone)
      else if c = CHR '']'' then Some ([RBrack], LNone)
      else if c = CHR ''{'' then Some ([LBrace], LNone)
      else if c = CHR ''}'' then Some ([RBrace], LNone)
      else if c = CHR '':'' then Some ([Colon], LNone)
      else if c = CHR '','' then Some ([Comma], LNone)
      else if c = CHR 0x22 then Some ([], LStr [])
      else if c = CHR ''-'' \<or> is_digit c then Some ([], LNum [c])
      else if is_lower c then Some ([], LLit [c])
      else None)"

text \<open>
  The machine collects the longest run of characters that may occur in a number, or of lower-case letters;
  what such a run holds is checked by the grammar. No valid text continues a number or a literal with
  another character of its run.
\<close>

fun lex_step :: "lstate \<Rightarrow> char \<Rightarrow> (token list \<times> lstate) option" where
  "lex_step LNone c = lex_open c"
| "lex_step (LStr acc) c =
     (if c = CHR 0x22 then Some ([Str (rev acc)], LNone)
      else if c = CHR 0x5C then Some ([], LEsc (c # acc))
      else if (of_char c :: nat) < 32 then None
      else Some ([], LStr (c # acc)))"
| "lex_step (LEsc acc) c =
     (if c \<in> set [CHR 0x22, CHR 0x5C, CHR ''/'', CHR ''b'', CHR ''f'', CHR ''n'', CHR ''r'', CHR ''t'']
      then Some ([], LStr (c # acc))
      else if c = CHR ''u'' then Some ([], LHex 3 (c # acc)) else None)"
| "lex_step (LHex k acc) c =
     (if hex_digit c = None then None
      else Some ([], case k of 0 \<Rightarrow> LStr (c # acc) | Suc k' \<Rightarrow> LHex k' (c # acc)))"
| "lex_step (LNum acc) c =
     (if num_char c then Some ([], LNum (c # acc))
      else map_option (apfst ((#) (Num (rev acc)))) (lex_open c))"
| "lex_step (LLit acc) c =
     (if is_lower c then Some ([], LLit (c # acc))
      else map_option (apfst ((#) (Lit (rev acc)))) (lex_open c))"

fun lex_end :: "lstate \<Rightarrow> token list option" where
  "lex_end LNone = Some []"
| "lex_end (LNum acc) = Some [Num (rev acc)]"
| "lex_end (LLit acc) = Some [Lit (rev acc)]"
| "lex_end _ = None"

fun tokens :: "lstate \<Rightarrow> string \<Rightarrow> token list option" where
  "tokens st [] = lex_end st"
| "tokens st (c # cs) =
     (case lex_step st c of None \<Rightarrow> None | Some (ts, st') \<Rightarrow> map_option ((@) ts) (tokens st' cs))"

section \<open>Values\<close>

text \<open>A value as it stands in the text: numbers and strings are not interpreted yet.\<close>

datatype jval = VNull | VBool bool | VNum string | VStr string | VArr "jval list" | VObj "(string \<times> jval) list"

definition valid_expo :: "string \<Rightarrow> bool" where
  "valid_expo s =
     (s = [] \<or>
      hd s \<in> {CHR ''e'', CHR ''E''} \<and>
      (let t = (if tl s \<noteq> [] \<and> hd (tl s) \<in> {CHR ''+'', CHR ''-''} then tl (tl s) else tl s)
       in t \<noteq> [] \<and> list_all is_digit t))"

definition valid_frac :: "string \<Rightarrow> bool" where
  "valid_frac s =
     (if s \<noteq> [] \<and> hd s = CHR ''.''
      then tl s \<noteq> [] \<and> is_digit (hd (tl s)) \<and> valid_expo (dropWhile is_digit (tl s))
      else valid_expo s)"

definition valid_number :: "string \<Rightarrow> bool" where
  "valid_number s =
     (let t = (if s \<noteq> [] \<and> hd s = CHR ''-'' then tl s else s)
      in t \<noteq> [] \<and> is_digit (hd t) \<and>
         (if hd t = CHR ''0'' then valid_frac (tl t) else valid_frac (dropWhile is_digit t)))"

definition scalar :: "token \<Rightarrow> jval option" where
  "scalar t =
     (case t of
        Lit s \<Rightarrow> (if s = ''null'' then Some VNull else if s = ''true'' then Some (VBool True)
                  else if s = ''false'' then Some (VBool False) else None)
      | Num s \<Rightarrow> (if valid_number s then Some (VNum s) else None)
      | Str s \<Rightarrow> Some (VStr s)
      | _ \<Rightarrow> None)"

text \<open>
  What is open around the next token: an array with its elements so far, an object that waits for a key,
  an object that waits for the value of a key; the latest first.
\<close>

datatype frame =
  InArr "jval list" | InObj "(string \<times> jval) list" | InMem "(string \<times> jval) list" string

datatype mode = MVal | MFirst | MKeyFirst | MKey | MColon | MAfter jval

definition max_depth :: nat where "max_depth = 10000"

definition begin_value :: "token \<Rightarrow> frame list \<Rightarrow> (mode \<times> frame list) option" where
  "begin_value t st =
     (if t = LBrack \<or> t = LBrace then
        if length st < max_depth
        then Some (if t = LBrack then (MFirst, InArr [] # st) else (MKeyFirst, InObj [] # st))
        else None
      else map_option (\<lambda>v. (MAfter v, st)) (scalar t))"

definition begin_key :: "token \<Rightarrow> frame list \<Rightarrow> (mode \<times> frame list) option" where
  "begin_key t st =
     (case (t, st) of (Str k, InObj ms # st') \<Rightarrow> Some (MColon, InMem ms k # st') | _ \<Rightarrow> None)"

definition end_value :: "jval \<Rightarrow> token \<Rightarrow> frame list \<Rightarrow> (mode \<times> frame list) option" where
  "end_value v t st =
     (case st of
        InArr xs # st' \<Rightarrow>
          if t = Comma then Some (MVal, InArr (v # xs) # st')
          else if t = RBrack then Some (MAfter (VArr (rev (v # xs))), st') else None
      | InMem ms k # st' \<Rightarrow>
          if t = Comma then Some (MKey, InObj ((k, v) # ms) # st')
          else if t = RBrace then Some (MAfter (VObj (rev ((k, v) # ms))), st') else None
      | _ \<Rightarrow> None)"

fun parse_step :: "mode \<Rightarrow> frame list \<Rightarrow> token \<Rightarrow> (mode \<times> frame list) option" where
  "parse_step MVal st t = begin_value t st"
| "parse_step MFirst st t = (if t = RBrack then Some (MAfter (VArr []), tl st) else begin_value t st)"
| "parse_step MKeyFirst st t = (if t = RBrace then Some (MAfter (VObj []), tl st) else begin_key t st)"
| "parse_step MKey st t = begin_key t st"
| "parse_step MColon st t = (if t = Colon then Some (MVal, st) else None)"
| "parse_step (MAfter v) st t = end_value v t st"

fun parse_run :: "mode \<Rightarrow> frame list \<Rightarrow> token list \<Rightarrow> jval option" where
  "parse_run m st [] = (case (m, st) of (MAfter v, []) \<Rightarrow> Some v | _ \<Rightarrow> None)"
| "parse_run m st (t # ts) =
     (case parse_step m st t of None \<Rightarrow> None | Some (m', st') \<Rightarrow> parse_run m' st' ts)"

text \<open>What \<open>Unmarshal\<close> checks before it decodes anything; \<open>None\<close> is a syntax error.\<close>

definition json_parse :: "string \<Rightarrow> jval option" where
  "json_parse s = Option.bind (tokens LNone s) (parse_run MVal [])"

section \<open>Strings\<close>

definition utf8_encode :: "nat \<Rightarrow> string" where
  "utf8_encode r =
     (if r < 0x80 then [char_of r]
      else if r < 0x800 then [char_of (0xC0 + r div 64), char_of (0x80 + r mod 64)]
      else if r < 0x10000 then
        [char_of (0xE0 + r div 4096), char_of (0x80 + r div 64 mod 64), char_of (0x80 + r mod 64)]
      else [char_of (0xF0 + r div 262144), char_of (0x80 + r div 4096 mod 64), char_of (0x80 + r div 64 mod 64),
            char_of (0x80 + r mod 64)])"

definition replacement :: string where "replacement = [CHR 0xEF, CHR 0xBF, CHR 0xBD]"

text \<open>The code unit of an escape \<open>\uXXXX\<close> at the start of a text.\<close>

definition get_u4 :: "string \<Rightarrow> nat option" where
  "get_u4 s =
     (if length s < 6 \<or> take 2 s \<noteq> [CHR 0x5C, CHR ''u''] then None
      else case (hex_digit (s ! 2), hex_digit (s ! 3), hex_digit (s ! 4), hex_digit (s ! 5)) of
             (Some a, Some b, Some c, Some d) \<Rightarrow> Some (4096 * a + 256 * b + 16 * c + d)
           | _ \<Rightarrow> None)"

definition short_escape :: "char \<Rightarrow> char" where
  "short_escape c =
     (if c = CHR ''b'' then CHR 0x08 else if c = CHR ''f'' then CHR 0x0C else if c = CHR ''n'' then CHR 0x0A
      else if c = CHR ''r'' then CHR 0x0D else if c = CHR ''t'' then CHR 0x09 else c)"

text \<open>
  The next character of the text: what it stands for and the bytes it takes. An unpaired surrogate and a
  byte that starts no UTF-8 sequence stand for the replacement character.
\<close>

definition unquote_char :: "string \<Rightarrow> string \<times> nat" where
  "unquote_char s =
     (if hd s = CHR 0x5C then
        (case get_u4 s of
           Some r \<Rightarrow>
             if 0xD800 \<le> r \<and> r < 0xE000 then
               (case get_u4 (drop 6 s) of
                  Some r1 \<Rightarrow>
                    if r < 0xDC00 \<and> 0xDC00 \<le> r1 \<and> r1 < 0xE000
                    then (utf8_encode (0x10000 + (r - 0xD800) * 1024 + (r1 - 0xDC00)), 12)
                    else (replacement, 6)
                | None \<Rightarrow> (replacement, 6))
             else (utf8_encode r, 6)
         | None \<Rightarrow> ([short_escape (hd (tl s))], 2))
      else if utf8_len s = 0 then (replacement, 1)
      else (take (utf8_len s) s, utf8_len s))"

fun unquote :: "string \<Rightarrow> string" where
  "unquote [] = []"
| "unquote (c # cs) = (let (out, n) = unquote_char (c # cs) in out @ unquote (drop (n - 1) cs))"

section \<open>Reading back: characters to tokens\<close>

fun toks :: "json \<Rightarrow> token list"
and toks_elems :: "json list \<Rightarrow> token list"
and toks_members :: "(string \<times> json) list \<Rightarrow> token list" where
  "toks JNull = [Lit ''null'']"
| "toks (JBool b) = [Lit (if b then ''true'' else ''false'')]"
| "toks (JNum s) = [Num s]"
| "toks (JStr s) = [Str (raw_string s)]"
| "toks (JArr xs) = LBrack # toks_elems xs @ [RBrack]"
| "toks (JObj ms) = LBrace # toks_members ms @ [RBrace]"
| "toks_elems [] = []"
| "toks_elems (x # xs) = toks x @ (if xs = [] then [] else Comma # toks_elems xs)"
| "toks_members [] = []"
| "toks_members ((k, v) # ms) =
     Str (raw_string k) # Colon # toks v @ (if ms = [] then [] else Comma # toks_members ms)"

text \<open>The numbers of a document are numbers of the grammar.\<close>

fun jwf :: "json \<Rightarrow> bool" where
  "jwf (JNum s) = valid_number s"
| "jwf (JArr xs) = (\<forall>x \<in> set xs. jwf x)"
| "jwf (JObj ms) = (\<forall>m \<in> set ms. jwf (snd m))"
| "jwf _ = True"

text \<open>The characters that may follow a value.\<close>

definition delim :: "string \<Rightarrow> bool" where
  "delim s = (s = [] \<or> json_ws (hd s) \<or> hd s \<in> {CHR '','', CHR '']'', CHR ''}'', CHR '':''})"

lemma map_option_Cons [simp]: "map_option ((@) (x # xs)) r = map_option ((#) x) (map_option ((@) xs) r)"
  by (cases r) simp_all

lemma map_option_Nil [simp]: "map_option ((@) []) r = r"
  by (cases r) simp_all

lemma map_option_append [simp]: "map_option ((@) (xs @ ys)) r = map_option ((@) xs) (map_option ((@) ys) r)"
  by (cases r) simp_all

lemma delim_no_run: "delim (c # cs) \<Longrightarrow> \<not> num_char c \<and> \<not> is_lower c"
  by (auto simp: delim_def json_ws_def num_char_def is_lower_def is_digit_def digit_val_def)

lemma lex_num_end:
  assumes "delim s"
  shows "tokens (LNum acc) s = map_option ((#) (Num (rev acc))) (tokens LNone s)"
proof (cases s)
  case (Cons c cs)
  with assms delim_no_run have "\<not> num_char c" by blast
  then show ?thesis
    by (auto simp: Cons option.map_comp comp_def split: option.splits)
qed simp

lemma lex_lit_end:
  assumes "delim s"
  shows "tokens (LLit acc) s = map_option ((#) (Lit (rev acc))) (tokens LNone s)"
proof (cases s)
  case (Cons c cs)
  with assms delim_no_run have "\<not> is_lower c" by blast
  then show ?thesis
    by (auto simp: Cons option.map_comp comp_def split: option.splits)
qed simp

lemma lex_lits:
  assumes "list_all is_lower xs" and "delim s"
  shows "tokens (LLit acc) (xs @ s) = map_option ((#) (Lit (rev acc @ xs))) (tokens LNone s)"
  using assms(1)
proof (induction xs arbitrary: acc)
  case Nil
  then show ?case using lex_lit_end [OF assms(2)] by simp
next
  case (Cons x xs)
  then show ?case by simp
qed

lemma lex_nums:
  assumes "list_all num_char xs" and "delim s"
  shows "tokens (LNum acc) (xs @ s) = map_option ((#) (Num (rev acc @ xs))) (tokens LNone s)"
  using assms(1)
  by (induction xs arbitrary: acc) (simp_all add: lex_num_end [OF assms(2)])

lemma valid_expo_chars: "valid_expo s \<Longrightarrow> list_all num_char s"
proof (cases s)
  case (Cons c t)
  assume v: "valid_expo s"
  then have c: "num_char c" by (auto simp: Cons valid_expo_def num_char_def)
  have dig: "list_all is_digit u \<Longrightarrow> list_all num_char u" for u
    by (auto simp: list_all_iff num_char_def)
  show ?thesis
  proof (cases "t \<noteq> [] \<and> hd t \<in> {CHR ''+'', CHR ''-''}")
    case True
    then have "num_char (hd t)" "t = hd t # tl t" by (auto simp: num_char_def)
    moreover have "list_all num_char (tl t)" using v True by (intro dig) (simp add: Cons valid_expo_def Let_def)
    ultimately show ?thesis using c Cons by (metis list.pred_inject(2))
  next
    case False
    then have "list_all is_digit t" using v by (auto simp: Cons valid_expo_def)
    with dig c show ?thesis by (simp add: Cons)
  qed
qed simp

lemma digits_then: "list_all num_char (dropWhile is_digit s) \<Longrightarrow> list_all num_char s"
  by (induction s) (auto simp: num_char_def split: if_splits)

lemma valid_frac_chars:
  assumes "valid_frac s"
  shows "list_all num_char s"
proof (cases "s \<noteq> [] \<and> hd s = CHR ''.''")
  case True
  define t where "t = tl s"
  have s: "s = CHR ''.'' # t" using True unfolding t_def by (metis list.collapse)
  have "list_all num_char t"
    using assms by (intro digits_then [OF valid_expo_chars]) (simp add: s valid_frac_def)
  then show ?thesis by (simp add: s num_char_def)
next
  case False
  then show ?thesis using assms by (intro valid_expo_chars) (auto simp: valid_frac_def)
qed

lemma valid_number_chars:
  assumes "valid_number s"
  obtains c t where "s = c # t" "c = CHR ''-'' \<or> is_digit c" "list_all num_char t"
proof -
  have digits: "\<exists>c u. t = c # u \<and> is_digit c \<and> list_all num_char u"
    if ne: "t \<noteq> []" and d: "is_digit (hd t)"
      and r: "if hd t = CHR ''0'' then valid_frac (tl t) else valid_frac (dropWhile is_digit t)" for t
  proof -
    obtain c u where t: "t = c # u" using ne by (cases t) auto
    have "list_all num_char u"
    proof (cases "c = CHR ''0''")
      case True
      with r t show ?thesis by (intro valid_frac_chars) simp
    next
      case False
      with d r t show ?thesis by (intro digits_then [OF valid_frac_chars]) simp
    qed
    with d t show ?thesis by simp
  qed
  show ?thesis
  proof (cases "s \<noteq> [] \<and> hd s = CHR ''-''")
    case True
    define t where "t = tl s"
    have s: "s = CHR ''-'' # t" using True unfolding t_def by (metis list.collapse)
    have "t \<noteq> []" "is_digit (hd t)" "if hd t = CHR ''0'' then valid_frac (tl t) else valid_frac (dropWhile is_digit t)"
      using assms by (simp_all add: s valid_number_def Let_def)
    from digits [OF this] obtain c u where "t = c # u" "is_digit c" "list_all num_char u" by blast
    with s that show ?thesis by (simp add: num_char_def)
  next
    case False
    then have "s \<noteq> []" "is_digit (hd s)" "if hd s = CHR ''0'' then valid_frac (tl s) else valid_frac (dropWhile is_digit s)"
      using assms by (auto simp: valid_number_def Let_def)
    from digits [OF this] that show ?thesis by blast
  qed
qed

lemma digit_cases: "is_digit c \<Longrightarrow> c \<in> set ''0123456789''"
proof -
  assume "is_digit c"
  then have "of_char c \<in> {48..<58 :: nat}" by (auto simp: is_digit_def digit_val_def Let_def split: if_splits)
  then have "of_char c \<in> set [48..<58 :: nat]" unfolding set_upt .
  then have "char_of (of_char c :: nat) \<in> char_of ` set [48..<58 :: nat]" by (rule imageI)
  moreover have "map char_of [48..<58 :: nat] = ''0123456789''" by code_simp
  ultimately show ?thesis by (metis char_of_char set_map)
qed

lemma lex_open_number: "c = CHR ''-'' \<or> is_digit c \<Longrightarrow> lex_open c = Some ([], LNum [c])"
proof -
  have "list_all (\<lambda>c. lex_open c = Some ([], LNum [c])) ''-0123456789''" by code_simp
  then have "c \<in> set ''-0123456789'' \<Longrightarrow> lex_open c = Some ([], LNum [c])" unfolding list_all_iff by blast
  then show "c = CHR ''-'' \<or> is_digit c \<Longrightarrow> lex_open c = Some ([], LNum [c])"
    using digit_cases by (metis list.set_intros(1,2))
qed

lemma lex_number:
  assumes "valid_number s" and "delim rest"
  shows "tokens LNone (s @ rest) = map_option ((#) (Num s)) (tokens LNone rest)"
proof -
  obtain c t where s: "s = c # t" "c = CHR ''-'' \<or> is_digit c" "list_all num_char t"
    using valid_number_chars [OF assms(1)] .
  have "lex_open c = Some ([], LNum [c])" using lex_open_number [OF s(2)] .
  with lex_nums [OF s(3) assms(2), of "[c]"] show ?thesis by (simp add: s)
qed

text \<open>Every rendered character is read inside the string it is in, and the closing quote ends it.\<close>

lemma hex_digit_nth: "d < 16 \<Longrightarrow> hex_digit (''0123456789abcdef'' ! d) = Some d"
proof -
  assume "d < 16"
  then have "d \<in> set [0..<16]" by simp
  moreover have "list_all (\<lambda>d. hex_digit (''0123456789abcdef'' ! d) = Some d) [0..<16]"
    by (simp add: hex_digit_def upt_conv_Cons)
  ultimately show ?thesis unfolding list_all_iff by blast
qed

lemma lex_char: "tokens (LStr acc) (json_char c @ s) = tokens (LStr (rev (json_char c) @ acc)) s"
proof -
  have "(of_char c :: nat) < 256" by (metis char_of_char mod_less_divisor of_char_of zero_less_numeral)
  then have h: "hex_digit (''0123456789abcdef'' ! (of_char c div 16)) \<noteq> None"
    "hex_digit (''0123456789abcdef'' ! (of_char c mod 16)) \<noteq> None"
    using hex_digit_nth [of "of_char c div 16"] hex_digit_nth [of "of_char c mod 16"]
    by (simp_all add: less_mult_imp_div_less)
  have u: "tokens (LStr acc) ([CHR 0x5C, CHR ''u'', CHR ''0'', CHR ''0'', a, b] @ s) =
      tokens (LStr (rev [CHR 0x5C, CHR ''u'', CHR ''0'', CHR ''0'', a, b] @ acc)) s"
    if "hex_digit a \<noteq> None" "hex_digit b \<noteq> None" for a b
  proof -
    have "hex_digit (CHR ''0'') = Some 0" by (simp add: hex_digit_def)
    with that show ?thesis by (auto simp: numeral_3_eq_3)
  qed
  have e: "tokens (LStr acc) ([CHR 0x5C, x] @ s) = tokens (LStr (rev [CHR 0x5C, x] @ acc)) s"
    if "x \<in> set [CHR 0x22, CHR 0x5C, CHR ''/'', CHR ''b'', CHR ''f'', CHR ''n'', CHR ''r'', CHR ''t'']" for x
    using that by simp
  have p: "tokens (LStr acc) ([c] @ s) = tokens (LStr (rev [c] @ acc)) s"
    if "c \<noteq> CHR 0x22" "c \<noteq> CHR 0x5C" "\<not> (of_char c :: nat) < 32"
    using that by simp
  show ?thesis
    unfolding json_char_def Let_def
    by (split if_split, intro conjI impI, (rule e u p, simp_all add: h)[1])+
       (rule u [OF h] p, simp_all)
qed

lemma lex_high: "\<forall>c \<in> set bs. 128 \<le> (of_char c :: nat) \<Longrightarrow> tokens (LStr acc) (bs @ s) = tokens (LStr (rev bs @ acc)) s"
  by (induction bs arbitrary: acc) (auto simp: of_char_eq_iff)

lemma lex_hex4:
  assumes "list_all (\<lambda>c. hex_digit c \<noteq> None) [a, b, c, d]"
  shows "tokens (LStr acc) (CHR 0x5C # CHR ''u'' # a # b # c # d # s) =
    tokens (LStr (rev (CHR 0x5C # CHR ''u'' # [a, b, c, d]) @ acc)) s"
  using assms by (auto simp: numeral_3_eq_3)

lemma utf8_len_less: "i < utf8_len s \<Longrightarrow> 128 \<le> (of_char (hd s) :: nat) \<Longrightarrow> 128 \<le> (of_char (s ! i) :: nat)"
proof -
  assume i: "i < utf8_len s" and h: "128 \<le> (of_char (hd s) :: nat)"
  then have "i = 0 \<or> i = 1 \<or> i = 2 \<or> i = 3" by (auto simp: utf8_len_def Let_def split: if_splits)
  moreover have "s \<noteq> []" using i by (auto simp: utf8_len_def)
  then have "s ! 0 = hd s" by (simp add: hd_conv_nth)
  ultimately show ?thesis using i h
    by (elim disjE) (auto simp: utf8_len_def Let_def cont_byte_def split: if_splits)
qed

lemma utf8_len_le: "utf8_len s \<le> length s"
  by (cases s) (auto simp: utf8_len_def Let_def cont_byte_def simp flip: length_greater_0_conv)

lemma utf8_bytes:
  "128 \<le> (of_char (hd s) :: nat) \<Longrightarrow> \<forall>c \<in> set (take (utf8_len s) s). 128 \<le> (of_char c :: nat)"
  by (auto simp: in_set_conv_nth utf8_len_less)

lemma lex_quote_char:
  "s \<noteq> [] \<Longrightarrow> tokens (LStr acc) (fst (quote_char s) @ t) = tokens (LStr (rev (fst (quote_char s)) @ acc)) t"
proof (cases "(of_char (hd s) :: nat) < 128 \<or> utf8_len s = 0")
  case True
  have "list_all (\<lambda>c. hex_digit c \<noteq> None) ''fffd''" by code_simp
  from lex_hex4 [OF this] True show ?thesis
    by (auto simp: quote_char_def Let_def lex_char)
next
  case False
  have "list_all (\<lambda>c. hex_digit c \<noteq> None) ''2028''" "list_all (\<lambda>c. hex_digit c \<noteq> None) ''2029''" by code_simp+
  note sep = this [THEN lex_hex4]
  have "\<forall>c \<in> set (take (utf8_len s) s). 128 \<le> (of_char c :: nat)" using False by (intro utf8_bytes) auto
  note lex_high [OF this]
  with False sep show ?thesis by (auto simp: quote_char_def Let_def)
qed

lemma lex_string: "tokens LNone (json_string k @ s) = map_option ((#) (Str (raw_string k))) (tokens LNone s)"
proof -
  have "tokens (LStr acc) (raw_string k @ dq @ s) = map_option ((#) (Str (rev acc @ raw_string k))) (tokens LNone s)" for acc
  proof (induction k arbitrary: acc rule: raw_string.induct)
    case (2 c cs)
    then show ?case using lex_quote_char [of "c # cs"] by (cases "quote_char (c # cs)") simp
  qed simp
  from this [of "[]"] show ?thesis by (simp add: json_string_def lex_open_def json_ws_def is_digit_def digit_val_def)
qed

text \<open>White space between the tokens is skipped.\<close>

definition blank :: "string \<Rightarrow> bool" where
  "blank s = list_all json_ws s"

lemma lex_blank: "blank w \<Longrightarrow> tokens LNone (w @ s) = tokens LNone s"
  by (induction w) (auto simp: blank_def lex_open_def)

lemma delim_blank: "blank w \<Longrightarrow> delim s \<Longrightarrow> delim (w @ s)"
  by (cases w) (auto simp: blank_def delim_def)

lemma delim_simps [simp]:
  "delim []" "delim (CHR '','' # s)" "delim (CHR '']'' # s)" "delim (CHR ''}'' # s)"
  by (simp_all add: delim_def)

lemma lex_punct [simp]:
  "tokens LNone (CHR ''['' # s) = map_option ((#) LBrack) (tokens LNone s)"
  "tokens LNone (CHR '']'' # s) = map_option ((#) RBrack) (tokens LNone s)"
  "tokens LNone (CHR ''{'' # s) = map_option ((#) LBrace) (tokens LNone s)"
  "tokens LNone (CHR ''}'' # s) = map_option ((#) RBrace) (tokens LNone s)"
  "tokens LNone (CHR '':'' # s) = map_option ((#) Colon) (tokens LNone s)"
  "tokens LNone (CHR '','' # s) = map_option ((#) Comma) (tokens LNone s)"
  by (simp_all add: lex_open_def json_ws_def)

lemma lex_literal:
  assumes "w \<in> {''null'', ''true'', ''false''}" and "delim s"
  shows "tokens LNone (w @ s) = map_option ((#) (Lit w)) (tokens LNone s)"
proof -
  have l: "list_all is_lower w" using assms(1) by (auto simp: is_lower_def)
  obtain c u where w: "w = c # u" "c \<in> set ''ntf''" using assms(1) by auto
  have "list_all (\<lambda>c. lex_open c = Some ([], LLit [c])) ''ntf''" by code_simp
  then have "lex_open c = Some ([], LLit [c])" using w(2) unfolding list_all_iff by blast
  with lex_lits [OF _ assms(2), of u "[c]"] l show ?thesis by (simp add: w)
qed

declare tokens.simps(2) [simp del]

lemma lex_print:
  "(\<And>k. blank (brk k)) \<Longrightarrow> blank sp \<Longrightarrow> jwf j \<Longrightarrow> delim s \<Longrightarrow>
     tokens LNone (jprint brk sp n j @ s) = map_option ((@) (toks j)) (tokens LNone s)"
  "(\<And>k. blank (brk k)) \<Longrightarrow> blank sp \<Longrightarrow> \<forall>x \<in> set xs. jwf x \<Longrightarrow> delim s \<Longrightarrow>
     tokens LNone (Join (jprint_elems brk sp n xs) ('','' @ brk k) @ s) =
       map_option ((@) (toks_elems xs)) (tokens LNone s)"
  "(\<And>k. blank (brk k)) \<Longrightarrow> blank sp \<Longrightarrow> \<forall>m \<in> set ms. jwf (snd m) \<Longrightarrow> delim s \<Longrightarrow>
     tokens LNone (Join (jprint_members brk sp n ms) ('','' @ brk k) @ s) =
       map_option ((@) (toks_members ms)) (tokens LNone s)"
proof (induction brk sp n j and brk sp n xs and brk sp n ms arbitrary: s and s k and s k
    rule: jprint_jprint_elems_jprint_members.induct)
  case (1 brk sp n)
  then show ?case using lex_literal [of "''null''" s] by simp
next
  case (2 brk sp n b)
  then show ?case using lex_literal [of "''true''" s] lex_literal [of "''false''" s] by simp
next
  case (3 brk sp n w)
  then show ?case using lex_number [of w s] by simp
next
  case (4 brk sp n w)
  then show ?case by (simp add: lex_string)
next
  case (5 brk sp n xs)
  show ?case
  proof (cases "xs = []")
    case False
    have "delim (brk n @ CHR '']'' # s)" using 5(2) by (intro delim_blank) simp_all
    with False 5 show ?thesis by (simp add: lex_blank option.map_comp comp_def)
  qed (simp add: option.map_comp comp_def)
next
  case (6 brk sp n ms)
  show ?case
  proof (cases "ms = []")
    case False
    have "delim (brk n @ CHR ''}'' # s)" using 6(2) by (intro delim_blank) simp_all
    with False 6 show ?thesis by (simp add: lex_blank option.map_comp comp_def)
  qed (simp add: option.map_comp comp_def)
next
  case (7 brk sp n)
  then show ?case by (simp add: option.map_ident)
next
  case (8 brk sp n x xs)
  show ?case
  proof (cases "xs = []")
    case False
    then have "jprint_elems brk sp n xs \<noteq> []" by (cases xs) simp_all
    with 8 False show ?thesis by (simp add: Join_Cons lex_blank option.map_comp comp_def)
  qed (use 8 in simp)
next
  case (9 brk sp n)
  then show ?case by (simp add: option.map_ident)
next
  case (10 brk sp n k v ms)
  show ?case
  proof (cases "ms = []")
    case True
    with 10 show ?thesis by (simp add: lex_string lex_blank option.map_comp comp_def)
  next
    case False
    then have "jprint_members brk sp n ms \<noteq> []" by (cases ms) auto
    with 10 False show ?thesis by (simp add: Join_Cons lex_string lex_blank option.map_comp comp_def)
  qed
qed

section \<open>Reading back: tokens to values\<close>

text \<open>The value a document is read back as, and its nesting.\<close>

fun to_raw :: "json \<Rightarrow> jval" where
  "to_raw JNull = VNull"
| "to_raw (JBool b) = VBool b"
| "to_raw (JNum s) = VNum s"
| "to_raw (JStr s) = VStr (raw_string s)"
| "to_raw (JArr xs) = VArr (map to_raw xs)"
| "to_raw (JObj ms) = VObj (map (\<lambda>m. (raw_string (fst m), to_raw (snd m))) ms)"

fun nested :: "nat \<Rightarrow> json \<Rightarrow> bool" where
  "nested n (JArr xs) = (0 < n \<and> (\<forall>x \<in> set xs. nested (n - 1) x))"
| "nested n (JObj ms) = (0 < n \<and> (\<forall>m \<in> set ms. nested (n - 1) (snd m)))"
| "nested n _ = True"

lemma toks_first: "\<exists>t ts. toks j = t # ts \<and> t \<noteq> RBrack"
  by (cases j) auto

lemma parse_first: "parse_run MFirst st (toks j @ ts) = parse_run MVal st (toks j @ ts)"
  using toks_first [of j] by auto

lemma parse_key_first: "ms \<noteq> [] \<Longrightarrow> parse_run MKeyFirst st (toks_members ms @ ts) = parse_run MKey st (toks_members ms @ ts)"
  by (cases ms) auto

lemma parse_open:
  assumes "length st < max_depth"
  shows "parse_run MVal st (LBrack # ts) = parse_run MFirst (InArr [] # st) ts"
    and "parse_run MVal st (LBrace # ts) = parse_run MKeyFirst (InObj [] # st) ts"
  using assms by (simp_all add: begin_value_def)

lemma parse_elem:
  "parse_run (MAfter v) (InArr acc # st) (RBrack # ts) = parse_run (MAfter (VArr (rev acc @ [v]))) st ts"
  "parse_run (MAfter v) (InArr acc # st) (Comma # ts) = parse_run MVal (InArr (v # acc) # st) ts"
  by (simp_all add: end_value_def)

lemma parse_member:
  "parse_run MKey (InObj ms # st) (Str k # Colon # ts) = parse_run MVal (InMem ms k # st) ts"
  "parse_run (MAfter v) (InMem ms k # st) (RBrace # ts) = parse_run (MAfter (VObj (rev ms @ [(k, v)]))) st ts"
  "parse_run (MAfter v) (InMem ms k # st) (Comma # ts) = parse_run MKey (InObj ((k, v) # ms) # st) ts"
  by (simp_all add: begin_key_def end_value_def)

lemma parse_toks:
  "jwf j \<Longrightarrow> nested (max_depth - length st) j \<Longrightarrow>
     parse_run MVal st (toks j @ ts) = parse_run (MAfter (to_raw j)) st ts"
  "xs \<noteq> [] \<Longrightarrow> \<forall>x \<in> set xs. jwf x \<and> nested (max_depth - length st - 1) x \<Longrightarrow>
     parse_run MVal (InArr acc # st) (toks_elems xs @ RBrack # ts) =
       parse_run (MAfter (VArr (rev acc @ map to_raw xs))) st ts"
  "ms \<noteq> [] \<Longrightarrow> \<forall>m \<in> set ms. jwf (snd m) \<and> nested (max_depth - length st - 1) (snd m) \<Longrightarrow>
     parse_run MKey (InObj macc # st) (toks_members ms @ RBrace # ts) =
       parse_run (MAfter (VObj (rev macc @ map (\<lambda>m. (raw_string (fst m), to_raw (snd m))) ms))) st ts"
proof (induction j and xs and ms arbitrary: st ts and st acc ts and st macc ts
    rule: toks_toks_elems_toks_members.induct)
  case (5 xs)
  show ?case
  proof (cases "xs = []")
    case False
    then obtain y ys where xs: "xs = y # ys" by (cases xs) auto
    have "parse_run MFirst (InArr [] # st) (toks_elems xs @ RBrack # ts) =
        parse_run MVal (InArr [] # st) (toks_elems xs @ RBrack # ts)"
      by (simp add: xs parse_first)
    also have "\<dots> = parse_run (MAfter (VArr (map to_raw xs))) st ts"
      using 5 False by (subst "5.IH") auto
    finally show ?thesis using 5 False by (simp add: parse_open del: parse_run.simps)
  qed (use 5 in \<open>simp add: begin_value_def\<close>)
next
  case (6 ms)
  show ?case
  proof (cases "ms = []")
    case False
    then have "parse_run MKey (InObj [] # st) (toks_members ms @ RBrace # ts) =
        parse_run (MAfter (to_raw (JObj ms))) st ts"
      using 6 by (subst "6.IH") auto
    with False 6 show ?thesis by (simp add: parse_open parse_key_first del: parse_run.simps)
  qed (use 6 in \<open>simp add: begin_value_def\<close>)
next
  case (8 x xs)
  have x: "parse_run MVal (InArr acc # st) (toks x @ us) = parse_run (MAfter (to_raw x)) (InArr acc # st) us" for us
    using 8 by simp
  show ?case
  proof (cases "xs = []")
    case False
    then have "parse_run MVal (InArr (to_raw x # acc) # st) (toks_elems xs @ RBrack # ts) =
        parse_run (MAfter (VArr (rev acc @ to_raw x # map to_raw xs))) st ts"
      using 8 by (subst "8.IH") auto
    with False x show ?thesis by (simp add: parse_elem del: parse_run.simps)
  qed (simp add: x parse_elem del: parse_run.simps)
next
  case (10 k v ms)
  have v: "parse_run MVal (InMem macc (raw_string k) # st) (toks v @ us) =
      parse_run (MAfter (to_raw v)) (InMem macc (raw_string k) # st) us" for us
    using 10 by simp
  show ?case
  proof (cases "ms = []")
    case False
    then have "parse_run MKey (InObj ((raw_string k, to_raw v) # macc) # st) (toks_members ms @ RBrace # ts) =
        parse_run (MAfter (VObj (rev macc @ (raw_string k, to_raw v) #
          map (\<lambda>m. (raw_string (fst m), to_raw (snd m))) ms))) st ts"
      using 10 by (subst "10.IH") auto
    with False v show ?thesis by (simp add: parse_member del: parse_run.simps)
  qed (simp add: v parse_member del: parse_run.simps)
qed (simp_all add: begin_value_def scalar_def)

text \<open>What \<open>Marshal\<close> or \<open>MarshalIndent\<close> writes, the decoder's parser reads back.\<close>

lemma json_parse_print:
  assumes "\<And>k. blank (brk k)" and "blank sp" and "jwf j" and "nested max_depth j"
  shows "json_parse (jprint brk sp n j) = Some (to_raw j)"
  using lex_print(1) [OF assms(1-3), where s = "[]" and n = n] parse_toks(1) [OF assms(3), where st = "[]" and ts = "[]"]
    assms(4) by (simp add: json_parse_def)

definition printable :: "json \<Rightarrow> bool" where
  "printable j = (jwf j \<and> nested max_depth j)"

interpretation ctext: codec compact json_parse printable "\<lambda>j. Some (to_raw j)"
  by unfold_locales (simp add: printable_def compact_def json_parse_print blank_def)

interpretation itext: codec "indent n" json_parse printable "\<lambda>j. Some (to_raw j)" for n
  by unfold_locales
    (simp add: printable_def indent_def json_parse_print blank_def json_ws_def list_all_iff)

section \<open>Reading back: strings\<close>

text \<open>A text with every byte that starts no UTF-8 sequence replaced, and the texts that have none.\<close>

fun to_valid :: "string \<Rightarrow> string" where
  "to_valid [] = []"
| "to_valid (c # cs) =
     (let n = utf8_len (c # cs)
      in if n = 0 then replacement @ to_valid cs else take n (c # cs) @ to_valid (drop (n - 1) cs))"

fun utf8_valid :: "string \<Rightarrow> bool" where
  "utf8_valid [] = True"
| "utf8_valid (c # cs) = (let n = utf8_len (c # cs) in 0 < n \<and> utf8_valid (drop (n - 1) cs))"

lemma utf8_len_ascii: "s \<noteq> [] \<Longrightarrow> (of_char (hd s) :: nat) < 128 \<Longrightarrow> utf8_len s = 1"
  by (simp add: utf8_len_def)

lemma to_valid_id: "utf8_valid s \<Longrightarrow> to_valid s = s"
proof (induction s rule: utf8_valid.induct)
  case (2 c cs)
  then have "0 < utf8_len (c # cs)" by (simp add: Let_def)
  then obtain k where k: "utf8_len (c # cs) = Suc k" by (cases "utf8_len (c # cs)") auto
  with 2 show ?case by (simp add: Let_def)
qed simp

lemma ascii_valid: "\<forall>c \<in> set s. (of_char c :: nat) < 128 \<Longrightarrow> utf8_valid s"
  by (induction s) (simp_all add: utf8_len_ascii)

lemma utf8_len_cong:
  assumes "s \<noteq> []" "s' \<noteq> []" "hd s' = hd s" "0 < utf8_len s"
    and c: "\<And>i lo hi. i < utf8_len s \<Longrightarrow> cont_byte lo hi s' i = cont_byte lo hi s i"
  shows "utf8_len s' = utf8_len s"
proof -
  consider "utf8_len s = 1" | "utf8_len s = 2" | "utf8_len s = 3" | "utf8_len s = 4"
    using assms(4) by (auto simp: utf8_len_def Let_def split: if_splits)
  then show ?thesis
  proof cases
    case 1
    with assms show ?thesis by (auto simp: utf8_len_def Let_def split: if_splits)
  next
    case 2
    with assms c [of 1] show ?thesis by (auto simp: utf8_len_def Let_def split: if_splits)
  next
    case 3
    with assms c [of 1] c [of 2] show ?thesis by (auto simp: utf8_len_def Let_def split: if_splits)
  next
    case 4
    with assms c [of 1] c [of 2] c [of 3] show ?thesis by (auto simp: utf8_len_def Let_def split: if_splits)
  qed
qed

lemma utf8_len_take:
  assumes n: "0 < utf8_len s"
  shows "utf8_len (take (utf8_len s) s @ t) = utf8_len s"
proof (rule utf8_len_cong)
  show ne: "s \<noteq> []" using n by (auto simp: utf8_len_def)
  have le: "utf8_len s \<le> length s" by (rule utf8_len_le)
  show "take (utf8_len s) s @ t \<noteq> []" "hd (take (utf8_len s) s @ t) = hd s"
    using n ne by (auto simp: hd_append)
  show "cont_byte lo hi (take (utf8_len s) s @ t) i = cont_byte lo hi s i" if "i < utf8_len s" for i lo hi
    using that le by (simp add: cont_byte_def nth_append)
qed (rule n)

lemma get_u4_hex:
  assumes "hex_digit a = Some i" "hex_digit b = Some j" "hex_digit c = Some k" "hex_digit d = Some l"
  shows "get_u4 (CHR 0x5C # CHR ''u'' # a # b # c # d # t) = Some (4096 * i + 256 * j + 16 * k + l)"
  using assms by (simp add: get_u4_def)

lemma unquote_u4:
  assumes "get_u4 (CHR 0x5C # CHR ''u'' # a # b # c # d # t) = Some r" and "r < 0xD800 \<or> 0xE000 \<le> r"
  shows "unquote (CHR 0x5C # CHR ''u'' # a # b # c # d # t) = utf8_encode r @ unquote t"
  using assms by (auto simp: unquote_char_def)

lemma unquote_short:
  assumes "x \<noteq> CHR ''u''"
  shows "unquote (CHR 0x5C # x # t) = short_escape x # unquote t"
proof -
  have "get_u4 (CHR 0x5C # x # t) = None" using assms by (simp add: get_u4_def)
  then show ?thesis by (simp add: unquote_char_def)
qed

lemma unquote_plain:
  assumes "hd s \<noteq> CHR 0x5C" and "0 < utf8_len s"
  shows "unquote (take (utf8_len s) s @ t) = take (utf8_len s) s @ unquote t"
proof -
  obtain k where k: "utf8_len s = Suc k" using assms(2) by (cases "utf8_len s") auto
  obtain c cs where s: "s = c # cs" using assms(2) by (cases s) (auto simp: utf8_len_def)
  have len: "length (take k cs) = k" using utf8_len_le [of s] k s by simp
  have "utf8_len (c # take k cs @ t) = Suc k" using utf8_len_take [OF assms(2), of t] k s by simp
  then have "unquote_char (c # take k cs @ t) = (c # take k cs, Suc k)"
    using assms(1) s len by (simp add: unquote_char_def)
  with len have "unquote (c # take k cs @ t) = (c # take k cs) @ unquote t" by simp
  then show ?thesis using k s by simp
qed

lemma json_char_cases:
  obtains (short) x where "json_char c = [CHR 0x5C, x]" "x \<noteq> CHR ''u''" "short_escape x = c"
  | (hex) "json_char c = [CHR 0x5C, CHR ''u'', CHR ''0'', CHR ''0'',
      ''0123456789abcdef'' ! (of_char c div 16), ''0123456789abcdef'' ! (of_char c mod 16)]"
  | (plain) "json_char c = [c]" "c \<noteq> CHR 0x5C"
proof (cases "c \<in> {CHR 0x22, CHR 0x5C, CHR 0x0A, CHR 0x0D, CHR 0x09, CHR 0x08, CHR 0x0C}")
  case True
  then have "\<exists>x. json_char c = [CHR 0x5C, x] \<and> x \<noteq> CHR ''u'' \<and> short_escape x = c"
    by (elim insertE emptyE) (simp_all add: json_char_def short_escape_def)
  then show ?thesis using short by blast
next
  case False
  show ?thesis
  proof (cases "(of_char c :: nat) < 32 \<or> c \<in> {CHR ''<'', CHR ''>'', CHR ''&''}")
    case True
    with False show ?thesis by (intro hex) (auto simp: json_char_def Let_def)
  next
    case c: False
    with False show ?thesis by (intro plain) (simp_all add: json_char_def)
  qed
qed

lemma unquote_json_char:
  assumes "(of_char c :: nat) < 128"
  shows "unquote (json_char c @ t) = c # unquote t"
proof (cases c rule: json_char_cases)
  case (short x)
  then show ?thesis using unquote_short [of x t] by simp
next
  case hex
  have "hex_digit (CHR ''0'') = Some 0" by (simp add: hex_digit_def)
  from get_u4_hex [OF this this hex_digit_nth hex_digit_nth, of "of_char c div 16" "of_char c mod 16" t] assms
  have "get_u4 (CHR 0x5C # CHR ''u'' # CHR ''0'' # CHR ''0'' # ''0123456789abcdef'' ! (of_char c div 16) #
      ''0123456789abcdef'' ! (of_char c mod 16) # t) = Some (of_char c)" by simp
  from unquote_u4 [OF this] assms show ?thesis by (simp add: hex utf8_encode_def)
next
  case plain
  then show ?thesis using unquote_plain [of "[c]" t] utf8_len_ascii [of "[c]"] assms by simp
qed

lemma unquote_quote_char:
  assumes "s \<noteq> []"
  shows "unquote (fst (quote_char s) @ t) =
    (if utf8_len s = 0 then replacement else take (utf8_len s) s) @ unquote t"
proof (cases "(of_char (hd s) :: nat) < 128")
  case True
  with assms show ?thesis
    using utf8_len_ascii [OF assms True] unquote_json_char [OF True] by (cases s) (simp_all add: quote_char_def)
next
  case False
  have enc: "utf8_encode 65533 = replacement" "utf8_encode 8232 = line_sep" "utf8_encode 8233 = para_sep"
    by (simp_all add: utf8_encode_def replacement_def line_sep_def para_sep_def char_of_eq_iff)
  have "get_u4 (CHR 0x5C # CHR ''u'' # CHR ''f'' # CHR ''f'' # CHR ''f'' # CHR ''d'' # t) = Some 65533"
    "get_u4 (CHR 0x5C # CHR ''u'' # CHR ''2'' # CHR ''0'' # CHR ''2'' # CHR ''8'' # t) = Some 8232"
    "get_u4 (CHR 0x5C # CHR ''u'' # CHR ''2'' # CHR ''0'' # CHR ''2'' # CHR ''9'' # t) = Some 8233"
    by (simp_all add: get_u4_def hex_digit_def)
  note u4 = this [THEN unquote_u4, unfolded enc]
  have u: "unquote (CHR 0x5C # ''ufffd'' @ t) = replacement @ unquote t"
    "unquote (CHR 0x5C # ''u2028'' @ t) = line_sep @ unquote t"
    "unquote (CHR 0x5C # ''u2029'' @ t) = para_sep @ unquote t"
    using u4 by (simp_all only: append_Cons append_Nil) simp_all
  have h: "hd s \<noteq> CHR 0x5C" using False by auto
  show ?thesis
  proof (cases "utf8_len s = 0")
    case True
    with u(1) False show ?thesis by (simp add: quote_char_def del: unquote.simps)
  next
    case n: False
    with unquote_plain [OF h, of t] u(2,3) False show ?thesis
      by (simp add: quote_char_def Let_def del: unquote.simps)
  qed
qed

lemma unquote_raw_string: "unquote (raw_string s) = to_valid s"
proof (induction s rule: raw_string.induct)
  case (2 c cs)
  have n: "snd (quote_char (c # cs)) = (if utf8_len (c # cs) = 0 then 1 else utf8_len (c # cs))"
    using utf8_len_ascii [of "c # cs"] by (simp add: quote_char_def Let_def)
  obtain out m where q: "quote_char (c # cs) = (out, m)" by (cases "quote_char (c # cs)")
  from 2 [OF q [symmetric] refl] unquote_quote_char [of "c # cs"] q n show ?case by (auto simp: Let_def)
qed simp

lemma unquote_raw_valid: "utf8_valid s \<Longrightarrow> unquote (raw_string s) = s"
  by (simp add: unquote_raw_string to_valid_id)

declare to_valid.simps(2) [simp del] utf8_valid.simps(2) [simp del] raw_string.simps(2) [simp del]
  unquote.simps(2) [simp del]

lemma unquote_raw_ascii: "\<forall>c \<in> set s. (of_char c :: nat) < 128 \<Longrightarrow> unquote (raw_string s) = s"
  by (simp add: unquote_raw_valid ascii_valid)

end
