(* ===== verification/Env.thy ===== *)
theory Env
  imports AppTables JsonText
begin

text \<open>
  The world outside the modelled code, as the answers it gives to one run of a handler: the kernel,
  the file system and the clock, the uuid package, the parsers of floating-point numbers and times,
  and the order in which the Go runtime visits maps. A handler takes an \<open>env\<close> as an argument, so
  different runs see different answers.
\<close>

datatype goerr =
    ENOENT | EBUSY | EEXIST | EINVAL | ENOMEM | E2BIG
  | OsErr nat | ErrorString string

text \<open>Times and durations are nanoseconds.\<close>

type_synonym gotime = int

definition second :: gotime where "second = 1000000000"

definition minute :: gotime where "minute = 60 * second"

text \<open>\<open>time.Time{}\<close>, the first of January of year 1.\<close>

definition zero_time :: gotime where "zero_time = - 62135596800 * second"

record fstat =
  st_Size :: int
  st_ModTime :: gotime

text \<open>
  \<^item> \<open>e_now\<close>: \<open>time.Now()\<close> while the handler runs;
  \<^item> \<open>e_uuid_New n\<close>: the \<open>n\<close>-th value \<open>uuid.New()\<close> produces; \<open>e_uuid_Parse\<close>, \<open>e_uuid_String\<close>: the
    package's \<open>uuid.Parse\<close> and \<open>UUID.String\<close>;
  \<^item> \<open>e_inotify_init\<close>: \<open>unix.InotifyInit\<close>; \<open>e_add_watch p\<close>: what \<open>unix.InotifyAddWatch\<close> answers for the path \<open>p\<close>;
  \<^item> \<open>e_write\<close>, \<open>e_open_append\<close>, \<open>e_append\<close>, \<open>e_close\<close>, \<open>e_stat\<close>, \<open>e_read\<close>, \<open>e_readdir\<close>, \<open>e_readlink\<close>, \<open>e_remove\<close>: the file system calls;
  \<^item> \<open>e_float\<close>: \<open>strconv.ParseFloat\<close> with 64 bits; \<open>e_rfc3339\<close>: the strict parser of \<open>time.Time.UnmarshalJSON\<close>;
    \<open>e_time_Parse\<close>: \<open>time.Parse\<close> with the layout of \<open>Time.UnmarshalJSON\<close>;
  \<^item> \<open>e_fmtv\<close>: \<open>%v\<close> for the kinds \<open>fmt_v\<close> does not print; \<open>e_ord\<close>, \<open>e_bord\<close>: visiting orders.
\<close>

record env =
  e_now :: gotime
  e_uuid_New :: "nat \<Rightarrow> uuid"
  e_uuid_Parse :: "string \<Rightarrow> goerr + uuid"
  e_uuid_String :: "uuid \<Rightarrow> string"
  e_inotify_init :: "goerr + int"
  e_add_watch :: "string \<Rightarrow> goerr + int"
  e_write :: "string \<Rightarrow> string \<Rightarrow> goerr option"
  e_open_append :: "string \<Rightarrow> goerr option"
  e_append :: "string \<Rightarrow> string \<Rightarrow> goerr option"
  e_close :: "string \<Rightarrow> goerr option"
  e_stat :: "string \<Rightarrow> goerr + fstat"
  e_read :: "string \<Rightarrow> goerr + string"
  e_readdir :: "string \<Rightarrow> goerr + (string \<times> bool) list"
  e_readlink :: "string \<Rightarrow> goerr + string"
  e_remove :: "string \<Rightarrow> goerr option"
  e_float :: "string \<Rightarrow> goerr + 64 word"
  e_rfc3339 :: "string \<Rightarrow> goerr + gotime"
  e_time_Parse :: "string \<Rightarrow> goerr + gotime"
  e_fmtv :: "goval \<Rightarrow> string"
  e_ord :: "(string, string) gomap \<Rightarrow> string list"
  e_bord :: "(string, bool) gomap \<Rightarrow> string list"

text \<open>The documented behaviour of the uuid package that some properties rely on.\<close>

definition uuid_pkg :: "env \<Rightarrow> bool" where
  "uuid_pkg e =
     ((\<forall>u. e_uuid_Parse e (e_uuid_String e u) = Inr u) \<and> (\<forall>u. length (e_uuid_String e u) = 36))"

section \<open>A concrete world for examples\<close>

text \<open>
  Uuids in the usual form of 32 hexadecimal digits in five groups; every system call succeeds.
\<close>

fun hex_digits :: "nat \<Rightarrow> nat \<Rightarrow> string" where
  "hex_digits 0 n = []"
| "hex_digits (Suc k) n = hex_digits k (n div 16) @ [''0123456789abcdef'' ! (n mod 16)]"

definition hex_val :: "char \<Rightarrow> nat option" where
  "hex_val c =
     (let n = of_char c :: nat
      in if 48 \<le> n \<and> n \<le> 57 then Some (n - 48)
         else if 97 \<le> n \<and> n \<le> 102 then Some (n - 87) else None)"

fun hex_parse :: "nat \<Rightarrow> string \<Rightarrow> nat option" where
  "hex_parse a [] = Some a"
| "hex_parse a (c # cs) = (case hex_val c of None \<Rightarrow> None | Some d \<Rightarrow> hex_parse (16 * a + d) cs)"

definition demo_String :: "uuid \<Rightarrow> string" where
  "demo_String u =
     (if u = 0 then ''00000000-0000-0000-0000-000000000000''
      else let s = hex_digits 32 (unat u)
      in take 8 s @ ''-'' @ take 4 (drop 8 s) @ ''-'' @ take 4 (drop 12 s) @ ''-'' @
         take 4 (drop 16 s) @ ''-'' @ drop 20 s)"

definition demo_Parse :: "string \<Rightarrow> goerr + uuid" where
  "demo_Parse s =
     (case (if length s = 36 then hex_parse 0 (filter (\<lambda>c. c \<noteq> CHR ''-'') s) else None) of
        Some n \<Rightarrow> Inr (of_nat n)
      | None \<Rightarrow> Inl (ErrorString ''invalid UUID''))"

definition demo_text :: string where "demo_text = ''{\"nisd_root_entry\":[]}''"

definition demo_env :: env where
  "demo_env = \<lparr>e_now = 1000 * second, e_uuid_New = (\<lambda>n. of_nat (1000 + n)),
     e_uuid_Parse = demo_Parse, e_uuid_String = demo_String,
     e_inotify_init = Inr 3, e_add_watch = (\<lambda>p. Inr 5), e_write = (\<lambda>_ _. None),
     e_open_append = (\<lambda>_. None), e_append = (\<lambda>_ _. None), e_close = (\<lambda>_. None),
     e_stat = (\<lambda>_. Inr \<lparr>st_Size = 22, st_ModTime = 900 * second\<rparr>), e_read = (\<lambda>_. Inr demo_text),
     e_readdir = (\<lambda>_. Inr []), e_readlink = (\<lambda>_. Inl ENOENT), e_remove = (\<lambda>_. None),
     e_float = (\<lambda>_. Inr 0), e_rfc3339 = (\<lambda>_. Inl (ErrorString ''invalid'')),
     e_time_Parse = (\<lambda>_. Inl (ErrorString ''invalid'')), e_fmtv = (\<lambda>_. ''''),
     e_ord = map fst, e_bord = map fst\<rparr>"

lemma demo_String_eq:
  "demo_String u =
     (let s = hex_digits 32 (unat u)
      in take 8 s @ ''-'' @ take 4 (drop 8 s) @ ''-'' @ take 4 (drop 12 s) @ ''-'' @
         take 4 (drop 16 s) @ ''-'' @ drop 20 s)"
proof (cases "u = 0")
  case True
  have "hex_digits 32 0 = ''00000000000000000000000000000000''" by code_simp
  then show ?thesis unfolding demo_String_def True by (simp add: Let_def)
qed (simp add: demo_String_def)

lemma length_hex_digits [simp]: "length (hex_digits k n) = k"
  by (induction k arbitrary: n) auto

lemma hex_val_digit:
  assumes "d < 16"
  shows "hex_val (''0123456789abcdef'' ! d) = Some d \<and> ''0123456789abcdef'' ! d \<noteq> CHR ''-''"
proof -
  from assms have "d \<in> set [0..<16]" by simp
  moreover have "list_all (\<lambda>d. hex_val (''0123456789abcdef'' ! d) = Some d \<and>
      ''0123456789abcdef'' ! d \<noteq> CHR ''-'') [0..<16]"
    by (simp add: hex_val_def upt_conv_Cons)
  ultimately show ?thesis unfolding list_all_iff by blast
qed

lemma hex_parse_append:
  "hex_parse a (xs @ ys) = (case hex_parse a xs of None \<Rightarrow> None | Some b \<Rightarrow> hex_parse b ys)"
  by (induction xs arbitrary: a) (auto split: option.splits)

lemma hex_parse_digits: "hex_parse a (hex_digits k n) = Some (16 ^ k * a + n mod 16 ^ k)"
proof (induction k arbitrary: n)
  case (Suc k)
  have "n mod 16 ^ Suc k = 16 * (n div 16 mod 16 ^ k) + n mod 16"
    by (simp add: mod_mult2_eq)
  with Suc show ?case by (simp add: hex_parse_append hex_val_digit)
qed simp

lemma hex_digits_no_dash: "filter (\<lambda>c. c \<noteq> CHR ''-'') (hex_digits k n) = hex_digits k n"
  by (induction k arbitrary: n) (auto simp: hex_val_digit)

lemma regroup: "take 8 s @ take 4 (drop 8 s) @ take 4 (drop 12 s) @ take 4 (drop 16 s) @ drop 20 s = s"
proof -
  have "take 4 (drop n s) @ drop (n + 4) s = drop n s" for n
    by (metis add.commute append_take_drop_id drop_drop)
  from this [of 8] this [of 12] this [of 16] show ?thesis by simp
qed

lemma demo_filter: "filter (\<lambda>c. c \<noteq> CHR ''-'') (demo_String u) = hex_digits 32 (unat u)"
proof -
  let ?s = "hex_digits 32 (unat u)"
  have nd: "\<forall>c \<in> set ?s. c \<noteq> CHR ''-''"
    using hex_digits_no_dash [of 32 "unat u"] by (simp add: filter_id_conv)
  then have id: "filter (\<lambda>c. c \<noteq> CHR ''-'') (take n ?s) = take n ?s"
    "filter (\<lambda>c. c \<noteq> CHR ''-'') (drop m ?s) = drop m ?s"
    "filter (\<lambda>c. c \<noteq> CHR ''-'') (take n (drop m ?s)) = take n (drop m ?s)" for n m
    by (auto simp: filter_id_conv dest!: in_set_takeD in_set_dropD)
  have "filter (\<lambda>c. c \<noteq> CHR ''-'') (demo_String u) =
      take 8 ?s @ take 4 (drop 8 ?s) @ take 4 (drop 12 ?s) @ take 4 (drop 16 ?s) @ drop 20 ?s"
    by (simp add: demo_String_eq Let_def id del: hex_digits.simps)
  also have "\<dots> = ?s" by (rule regroup)
  finally show ?thesis .
qed

lemma demo_uuid_pkg: "uuid_pkg demo_env"
proof -
  have len: "length (demo_String u) = 36" for u
    by (simp add: demo_String_eq Let_def del: hex_digits.simps)
  have "demo_Parse (demo_String u) = Inr u" for u :: uuid
  proof -
    have "unat u < 16 ^ 32" using unsigned_less [of u, where ?'a = nat] by simp
    then show ?thesis
      by (simp add: len demo_Parse_def demo_filter hex_parse_digits del: hex_digits.simps)
  qed
  with len show ?thesis by (simp add: uuid_pkg_def demo_env_def)
qed

end
