(* ===== verification/JsonDecode.thy ===== *)
theory JsonDecode
  imports Env
begin

text \<open>
  \<open>json.Unmarshal\<close> at the types the program decodes into. A member goes to the field its name is the tag
  of, else to the first field whose tag differs from it in case only; unknown members are skipped,
  \<open>null\<close> leaves anything but pointers and slices as it is, structures and what a pointer leads to keep
  the fields that no member sets, and a slice is emptied before its elements are appended. Any value of
  another type makes the whole decoding fail; which error is returned is not modelled, as the program
  only tests it.
\<close>

section \<open>Names\<close>

definition tag_name :: "string \<Rightarrow> string" where
  "tag_name t = hd (Split t '','')"

definition json_name :: "sfield \<Rightarrow> string" where
  "json_name f = tag_name (f_json f)"

text \<open>
  Case folding as far as it can meet a name of ASCII letters: beside the letters themselves the long s
  and the Kelvin sign fold to ASCII.
\<close>

fun fold_name :: "string \<Rightarrow> string" where
  "fold_name [] = []"
| "fold_name (c # cs) =
     (if c = CHR 0xC5 \<and> take 1 cs = [CHR 0xBF] then CHR ''S'' # fold_name (drop 1 cs)
      else if c = CHR 0xE2 \<and> take 2 cs = [CHR 0x84, CHR 0xAA] then CHR ''K'' # fold_name (drop 2 cs)
      else upper_char c # fold_name cs)"

definition resolve :: "string list \<Rightarrow> string \<Rightarrow> string option" where
  "resolve names k = (if k \<in> set names then Some k else find (\<lambda>n. fold_name n = fold_name k) names)"

section \<open>Timestamps\<close>

definition json_err :: goerr where "json_err = ErrorString ''json: cannot unmarshal''"

definition chompQuotes :: "string \<Rightarrow> string res" where
  "chompQuotes s =
     (if s = [] then Inr s
      else let s1 = (if hd s = CHR 0x22 then tl s else s)
           in if s1 = [] then Inl index_panic
              else Inr (if last s1 = CHR 0x22 then butlast s1 else s1))"

text \<open>\<open>json.Unmarshal\<close> into a \<open>time.Time\<close> that holds \<open>cur\<close>; the escapes of the string are not replaced.\<close>

definition unmarshal_time :: "env \<Rightarrow> string \<Rightarrow> gotime \<Rightarrow> goerr + gotime" where
  "unmarshal_time e data cur =
     (case json_parse data of
        Some VNull \<Rightarrow> Inr cur
      | Some (VStr r) \<Rightarrow> e_rfc3339 e r
      | _ \<Rightarrow> Inl json_err)"

definition Time_UnmarshalJSON :: "env \<Rightarrow> string \<Rightarrow> gotime \<Rightarrow> (goerr + gotime) res" where
  "Time_UnmarshalJSON e data cur =
     bindr (chompQuotes data) (\<lambda>data.
       case unmarshal_time e data cur of
         Inr t \<Rightarrow> Inr (Inr t)
       | Inl _ \<Rightarrow> Inr (e_time_Parse e data))"

section \<open>Values\<close>

text \<open>
  The text of a value, as far as its method can see: white space inside an array or object is not kept.
\<close>

fun jtext :: "jval \<Rightarrow> string" where
  "jtext VNull = ''null''"
| "jtext (VBool b) = (if b then ''true'' else ''false'')"
| "jtext (VNum s) = s"
| "jtext (VStr s) = dq @ s @ dq"
| "jtext (VArr vs) = ''['' @ Join (map jtext vs) '','' @ '']''"
| "jtext (VObj ms) = ''{'' @ Join (map (\<lambda>m. dq @ fst m @ dq @ '':'' @ jtext (snd m)) ms) '','' @ ''}''"

text \<open>A time is decoded by its own method, which is handed the text of any value, arrays and objects included.\<close>

definition dec_time :: "env \<Rightarrow> jval \<Rightarrow> gotime \<Rightarrow> gotime option" where
  "dec_time e v cur = (case Time_UnmarshalJSON e (jtext v) cur of Inr (Inr t) \<Rightarrow> Some t | _ \<Rightarrow> None)"

definition dec_int :: "jval \<Rightarrow> i64 option" where
  "dec_int v = (case v of VNum s \<Rightarrow> (case Atoi s of (i, True) \<Rightarrow> Some (word_of_int i) | _ \<Rightarrow> None) | _ \<Rightarrow> None)"

definition dec_uint :: "jval \<Rightarrow> u64 option" where
  "dec_uint v =
     (case v of
        VNum s \<Rightarrow> (case digits_val 0 s of Some n \<Rightarrow> if n < 2 ^ 64 then Some (of_nat n) else None | None \<Rightarrow> None)
      | _ \<Rightarrow> None)"

definition dec_float :: "env \<Rightarrow> jval \<Rightarrow> 64 word option" where
  "dec_float e v = (case v of VNum s \<Rightarrow> (case e_float e s of Inr f \<Rightarrow> Some f | Inl _ \<Rightarrow> None) | _ \<Rightarrow> None)"

definition dec_string :: "jval \<Rightarrow> string option" where
  "dec_string v = (case v of VStr s \<Rightarrow> Some (unquote s) | _ \<Rightarrow> None)"

definition dec_bool :: "jval \<Rightarrow> bool option" where
  "dec_bool v = (case v of VBool b \<Rightarrow> Some b | _ \<Rightarrow> None)"

definition dec_uuid :: "env \<Rightarrow> jval \<Rightarrow> uuid option" where
  "dec_uuid e v =
     (case v of VStr s \<Rightarrow> (case e_uuid_Parse e (unquote s) of Inr u \<Rightarrow> Some u | Inl _ \<Rightarrow> None) | _ \<Rightarrow> None)"

text \<open>The fields without fields of their own; \<open>cur\<close> is what the field holds.\<close>

definition dec_scalar :: "env \<Rightarrow> kind \<Rightarrow> jval \<Rightarrow> goval \<Rightarrow> goval option" where
  "dec_scalar e k v cur =
     (case k of
        KTime \<Rightarrow> map_option GTime (dec_time e v (case cur of GTime t \<Rightarrow> t | _ \<Rightarrow> zero_time))
      | _ \<Rightarrow>
        if v = VNull then Some cur
        else case k of
          KInt \<Rightarrow> map_option GInt (dec_int v)
        | KUint \<Rightarrow> map_option GUint (dec_uint v)
        | KString \<Rightarrow> map_option GString (dec_string v)
        | KBool \<Rightarrow> map_option GBool (dec_bool v)
        | KFloat \<Rightarrow> map_option GFloat (dec_float e v)
        | KUUID \<Rightarrow> map_option GUUID (dec_uuid e v)
        | _ \<Rightarrow> None)"

section \<open>Structures and slices\<close>

definition zero_value :: "kind \<Rightarrow> goval" where
  "zero_value k =
     (case k of
        KInt \<Rightarrow> GInt 0 | KUint \<Rightarrow> GUint 0 | KString \<Rightarrow> GString [] | KBool \<Rightarrow> GBool False
      | KFloat \<Rightarrow> GFloat 0 | KHist \<Rightarrow> GHist (replicate (length Histogram_fields) 0)
      | KTime \<Rightarrow> GTime zero_time | KUUID \<Rightarrow> GUUID 0 | KSlice \<Rightarrow> GSlice [])"

definition zero_struct :: "sfield list \<Rightarrow> gostruct" where
  "zero_struct fs = map (\<lambda>f. zero_value (f_kind f)) fs"

type_synonym decoder = "kind \<Rightarrow> jval \<Rightarrow> goval \<Rightarrow> goval option"

definition dec_field :: "decoder \<Rightarrow> sfield list \<Rightarrow> string \<Rightarrow> jval \<Rightarrow> gostruct \<Rightarrow> gostruct option" where
  "dec_field dec fs n v vs =
     those (map2 (\<lambda>f x. if json_name f = n then dec (f_kind f) v x else Some x) fs vs)"

fun dec_members :: "decoder \<Rightarrow> sfield list \<Rightarrow> (string \<times> jval) list \<Rightarrow> gostruct \<Rightarrow> gostruct option" where
  "dec_members dec fs [] vs = Some vs"
| "dec_members dec fs ((k, v) # ms) vs =
     (case resolve (map json_name fs) (unquote k) of
        None \<Rightarrow> dec_members dec fs ms vs
      | Some n \<Rightarrow> Option.bind (dec_field dec fs n v vs) (dec_members dec fs ms))"

definition dec_struct :: "decoder \<Rightarrow> sfield list \<Rightarrow> jval \<Rightarrow> gostruct \<Rightarrow> gostruct option" where
  "dec_struct dec fs v vs =
     (case v of VNull \<Rightarrow> Some vs | VObj ms \<Rightarrow> dec_members dec fs ms vs | _ \<Rightarrow> None)"

definition dec_slice :: "decoder \<Rightarrow> sfield list \<Rightarrow> jval \<Rightarrow> gostruct list option" where
  "dec_slice dec fs v =
     (case v of
        VNull \<Rightarrow> Some []
      | VArr vs \<Rightarrow> those (map (\<lambda>x. dec_struct dec fs x (zero_struct fs)) vs)
      | _ \<Rightarrow> None)"

definition dec_ptr :: "decoder \<Rightarrow> sfield list \<Rightarrow> jval \<Rightarrow> gostruct option \<Rightarrow> gostruct option option" where
  "dec_ptr dec fs v cur =
     (if v = VNull then Some None
      else map_option Some (dec_struct dec fs v (case cur of None \<Rightarrow> zero_struct fs | Some s \<Rightarrow> s)))"

definition dec_hist :: "env \<Rightarrow> jval \<Rightarrow> i64 list \<Rightarrow> i64 list option" where
  "dec_hist e v bs =
     map_option (map (\<lambda>x. case x of GInt i \<Rightarrow> i | _ \<Rightarrow> 0)) (dec_struct (dec_scalar e) Histogram_fields v (map GInt bs))"

text \<open>A leaf is a scalar or a histogram; \<open>RaftInfo.FollowerStats\<close> is the only slice inside a structure.\<close>

definition dec_leaf :: "env \<Rightarrow> decoder" where
  "dec_leaf e k v cur =
     (if k = KHist then (case cur of GHist bs \<Rightarrow> map_option GHist (dec_hist e v bs) | _ \<Rightarrow> None)
      else dec_scalar e k v cur)"

definition dec_value :: "env \<Rightarrow> decoder" where
  "dec_value e k v cur =
     (if k = KSlice then map_option GSlice (dec_slice (dec_leaf e) FollowerStats_fields v)
      else dec_leaf e k v cur)"

section \<open>Documents\<close>

definition ctl_names :: "string list" where
  "ctl_names =
     [''system_info'', ''raft_root_entry'', ''niorq_mgr_root_entry'', ''nisd_root_entry'', ''nisd_chunks'',
      ''mb_merge_root_entry'', ''tasks'', ''buffer_set_nodes'', ''chunk_defrag'', ''nclient_root_entry'']"

definition dec_defrag :: "env \<Rightarrow> jval \<Rightarrow> i64 list \<times> i64 list \<Rightarrow> (i64 list \<times> i64 list) option" where
  "dec_defrag e v d =
     Option.bind (dec_struct (dec_leaf e) ChunkDefrag_fields v [GHist (fst d), GHist (snd d)])
       (\<lambda>vs. case vs of [GHist a, GHist b] \<Rightarrow> Some (a, b) | _ \<Rightarrow> None)"

definition dec_ctl_field :: "env \<Rightarrow> string \<Rightarrow> jval \<Rightarrow> CtlIfOut \<Rightarrow> CtlIfOut option" where
  "dec_ctl_field e n v c =
     (let slice = dec_slice (dec_value e); ptr = dec_ptr (dec_value e) in
      if n = ''system_info'' then map_option (\<lambda>x. c\<lparr>SysInfo := x\<rparr>) (ptr SystemInfo_fields v (SysInfo c))
      else if n = ''raft_root_entry'' then map_option (\<lambda>x. c\<lparr>RaftRootEntry := x\<rparr>) (slice RaftInfo_fields v)
      else if n = ''niorq_mgr_root_entry'' then map_option (\<lambda>x. c\<lparr>NiorqMgr := x\<rparr>) (slice NiorqMgr_fields v)
      else if n = ''nisd_root_entry'' then map_option (\<lambda>x. c\<lparr>NISDRootEntry := x\<rparr>) (slice NISDRoot_fields v)
      else if n = ''nisd_chunks'' then map_option (\<lambda>x. c\<lparr>NISDChunk := x\<rparr>) (slice NISDChunkInfo_fields v)
      else if n = ''mb_merge_root_entry'' then map_option (\<lambda>x. c\<lparr>MbMerge := x\<rparr>) (slice MbMerge_fields v)
      else if n = ''tasks'' then map_option (\<lambda>x. c\<lparr>Tasks := x\<rparr>) (slice TaskInfo_fields v)
      else if n = ''buffer_set_nodes'' then map_option (\<lambda>x. c\<lparr>BufSetNodes := x\<rparr>) (slice BufferSetNodes_fields v)
      else if n = ''chunk_defrag'' then map_option (\<lambda>x. c\<lparr>Defrag := x\<rparr>) (dec_defrag e v (Defrag c))
      else map_option (\<lambda>x. c\<lparr>Nclient := x\<rparr>) (ptr NclientInfo_fields v (Nclient c)))"

fun dec_ctl :: "env \<Rightarrow> (string \<times> jval) list \<Rightarrow> CtlIfOut \<Rightarrow> CtlIfOut option" where
  "dec_ctl e [] c = Some c"
| "dec_ctl e ((k, v) # ms) c =
     (case resolve ctl_names (unquote k) of
        None \<Rightarrow> dec_ctl e ms c
      | Some n \<Rightarrow> Option.bind (dec_ctl_field e n v c) (dec_ctl e ms))"

definition or_err :: "'a option \<Rightarrow> goerr + 'a" where
  "or_err r = (case r of None \<Rightarrow> Inl json_err | Some x \<Rightarrow> Inr x)"

text \<open>\<open>json.Unmarshal(text, &ctl)\<close> for a zero \<open>CtlIfOut\<close>.\<close>

definition Unmarshal_ctl :: "env \<Rightarrow> string \<Rightarrow> goerr + CtlIfOut" where
  "Unmarshal_ctl e s =
     or_err (Option.bind (json_parse s) (\<lambda>v.
       case v of VNull \<Rightarrow> Some zero_ctl | VObj ms \<Rightarrow> dec_ctl e ms zero_ctl | _ \<Rightarrow> None))"

text \<open>
  \<open>json.Unmarshal\<close> into a \<open>map[string]interface{}\<close>: the keys of the map. A number that is no \<open>float64\<close>
  is an error.
\<close>

fun floats_ok :: "env \<Rightarrow> jval \<Rightarrow> bool" where
  "floats_ok e (VNum s) = (case e_float e s of Inl _ \<Rightarrow> False | Inr _ \<Rightarrow> True)"
| "floats_ok e (VArr vs) = list_all (floats_ok e) vs"
| "floats_ok e (VObj ms) = list_all (\<lambda>m. floats_ok e (snd m)) ms"
| "floats_ok e _ = True"

definition Unmarshal_obj :: "env \<Rightarrow> string \<Rightarrow> goerr + string list" where
  "Unmarshal_obj e s =
     or_err (Option.bind (json_parse s) (\<lambda>v.
       case v of
         VNull \<Rightarrow> Some []
       | VObj ms \<Rightarrow> if floats_ok e v then Some (map (\<lambda>m. unquote (fst m)) ms) else None
       | _ \<Rightarrow> None))"

text \<open>Into a string and into a slice of strings, both zero before; a nil slice is \<open>None\<close>.\<close>

definition dec_new_string :: "jval \<Rightarrow> string option" where
  "dec_new_string v = (if v = VNull then Some [] else dec_string v)"

definition Unmarshal_str :: "string \<Rightarrow> goerr + string" where
  "Unmarshal_str s = or_err (Option.bind (json_parse s) dec_new_string)"

definition Unmarshal_strs :: "string \<Rightarrow> goerr + string list option" where
  "Unmarshal_strs s =
     or_err (Option.bind (json_parse s) (\<lambda>v.
       case v of VNull \<Rightarrow> Some None | VArr vs \<Rightarrow> map_option Some (those (map dec_new_string vs)) | _ \<Rightarrow> None))"

section \<open>Strings that were encoded\<close>

lemma json_parse_string: "json_parse (json_string s) = Some (VStr (raw_string s))"
proof -
  have "jprint brk sp n (JStr s) = json_string s" for brk sp n by simp
  then have "json_string s = compact (JStr s)" by (simp add: compact_def)
  then show ?thesis using ctext.dec_enc [of "JStr s"] by (simp add: printable_def)
qed

lemma Unmarshal_str_string: "Unmarshal_str (json_string s) = Inr (to_valid s)"
  by (simp add: Unmarshal_str_def json_parse_string dec_new_string_def dec_string_def unquote_raw_string or_err_def)

lemma Unmarshal_strs_strings: "Unmarshal_strs (compact (JArr (map JStr xs))) = Inr (Some (map to_valid xs))"
proof -
  have "json_parse (compact (JArr (map JStr xs))) = Some (VArr (map (\<lambda>s. VStr (raw_string s)) xs))"
    using ctext.dec_enc [of "JArr (map JStr xs)"] by (simp add: printable_def max_depth_def comp_def)
  moreover have "those (map dec_new_string (map (\<lambda>s. VStr (raw_string s)) xs)) = Some (map to_valid xs)"
    by (induction xs) (simp_all add: dec_new_string_def dec_string_def unquote_raw_string)
  ultimately show ?thesis by (simp add: Unmarshal_strs_def or_err_def)
qed

lemma digit_char_ascii: "d < 10 \<Longrightarrow> (of_char (digit_char d) :: nat) < 128"
proof -
  assume "d < 10"
  then have "d \<in> set [0..<10]" by simp
  moreover have "list_all (\<lambda>d. (of_char (digit_char d) :: nat) < 128) [0..<10]" by code_simp
  ultimately show ?thesis unfolding list_all_iff by blast
qed

lemma nat_digits_ascii: "\<forall>c \<in> set (nat_digits n). (of_char c :: nat) < 128"
proof (induction n rule: nat_digits.induct)
  case (1 n)
  then show ?case by (subst nat_digits.simps) (auto simp: digit_char_ascii)
qed

lemma Itoa_ascii: "\<forall>c \<in> set (Itoa i). (of_char c :: nat) < 128"
  using nat_digits_ascii by (simp add: Itoa_def)

section \<open>What is decoded is of its type\<close>

lemma those_list_all2:
  assumes "those xs = Some ys"
  shows "list_all2 (\<lambda>x y. x = Some y) xs ys"
  using assms by (induction xs arbitrary: ys) (auto split: option.splits)

lemma those_Some_map: "those (map Some xs) = Some xs"
  by (induction xs) simp_all

definition keeps_kind :: "decoder \<Rightarrow> bool" where
  "keeps_kind dec =
     (\<forall>k v x y. has_kind (length Histogram_fields) k x \<longrightarrow> dec k v x = Some y \<longrightarrow>
        has_kind (length Histogram_fields) k y)"

lemma dec_field_type:
  assumes "keeps_kind dec" and "of_type fs vs" and "dec_field dec fs n v vs = Some ws"
  shows "of_type fs ws"
  using assms(2,3) unfolding of_type_def dec_field_def
proof (induction fs vs arbitrary: ws rule: list_all2_induct)
  case (Cons f fs x vs)
  with assms(1) show ?case
    by (auto simp: keeps_kind_def split: if_splits option.splits)
qed simp

lemma dec_members_type:
  "keeps_kind dec \<Longrightarrow> of_type fs vs \<Longrightarrow> dec_members dec fs ms vs = Some ws \<Longrightarrow> of_type fs ws"
  by (induction dec fs ms vs rule: dec_members.induct)
    (auto split: option.splits simp: bind_eq_Some_conv intro: dec_field_type)

lemma dec_struct_type:
  "keeps_kind dec \<Longrightarrow> of_type fs vs \<Longrightarrow> dec_struct dec fs v vs = Some ws \<Longrightarrow> of_type fs ws"
  by (auto simp: dec_struct_def split: jval.splits intro: dec_members_type)

lemma has_kind_zero [simp]: "has_kind (length Histogram_fields) k (zero_value k)"
  by (cases k) (simp_all add: has_kind_def zero_value_def)

lemma zero_struct_type [simp]: "of_type fs (zero_struct fs)"
  by (simp add: of_type_def zero_struct_def list_all2_conv_all_nth del: length_Histogram_fields)

lemma dec_slice_type:
  assumes "keeps_kind dec" and "dec_slice dec fs v = Some xs"
  shows "list_all (of_type fs) xs"
proof (cases v)
  case (VArr vs)
  with assms(2) have "list_all2 (\<lambda>x y. x = Some y) (map (\<lambda>x. dec_struct dec fs x (zero_struct fs)) vs) xs"
    by (intro those_list_all2) (simp add: dec_slice_def)
  then show ?thesis
    using dec_struct_type [OF assms(1) zero_struct_type]
    by (auto simp: list_all2_conv_all_nth list_all_length)
qed (use assms(2) in \<open>auto simp: dec_slice_def\<close>)

lemma dec_ptr_type:
  assumes "keeps_kind dec" and "pred_option (of_type fs) cur" and "dec_ptr dec fs v cur = Some p"
  shows "pred_option (of_type fs) p"
  using assms zero_struct_type [of fs]
  by (auto simp: dec_ptr_def split: if_splits option.splits intro: dec_struct_type simp del: zero_struct_type)

lemma dec_scalar_kind:
  "has_kind n k x \<Longrightarrow> k \<noteq> KHist \<Longrightarrow> dec_scalar e k v x = Some y \<Longrightarrow> has_kind n k y"
  by (cases k) (auto simp: dec_scalar_def has_kind_def split: if_splits)

lemma keeps_dec_scalar: "keeps_kind (dec_scalar e)"
proof -
  have "dec_scalar e KHist v x = Some y \<Longrightarrow> y = x" for v x y
    by (auto simp: dec_scalar_def split: if_splits)
  then show ?thesis unfolding keeps_kind_def using dec_scalar_kind by (metis kind.exhaust)
qed

lemma Histogram_kinds: "f \<in> set Histogram_fields \<Longrightarrow> f_kind f = KInt"
proof -
  have "list_all (\<lambda>f. f_kind f = KInt) Histogram_fields" by code_simp
  then show "f \<in> set Histogram_fields \<Longrightarrow> f_kind f = KInt" by (simp add: list_all_iff)
qed

lemma ints_of_type: "length bs = length Histogram_fields \<Longrightarrow> of_type Histogram_fields (map GInt bs)"
  by (auto simp: of_type_def list_all2_conv_all_nth has_kind_def Histogram_kinds)

lemma dec_hist_length:
  assumes "dec_hist e v bs = Some bs'" and "length bs = length Histogram_fields"
  shows "length bs' = length Histogram_fields"
proof -
  obtain vs where "dec_struct (dec_scalar e) Histogram_fields v (map GInt bs) = Some vs" "length bs' = length vs"
    using assms(1) by (auto simp: dec_hist_def)
  with dec_struct_type [OF keeps_dec_scalar ints_of_type [OF assms(2)]] show ?thesis
    by (fastforce simp: of_type_def dest: list_all2_lengthD)
qed

lemma keeps_dec_leaf: "keeps_kind (dec_leaf e)"
  unfolding keeps_kind_def
proof (intro allI impI)
  fix k v x y
  assume x: "has_kind (length Histogram_fields) k x" and y: "dec_leaf e k v x = Some y"
  show "has_kind (length Histogram_fields) k y"
  proof (cases "k = KHist")
    case True
    with x obtain bs where "x = GHist bs" "length bs = length Histogram_fields"
      by (cases x) (auto simp: has_kind_def)
    with y True show ?thesis by (auto simp: dec_leaf_def has_kind_def dest: dec_hist_length)
  next
    case False
    with x y show ?thesis by (auto simp: dec_leaf_def intro: dec_scalar_kind)
  qed
qed

lemma keeps_dec_value: "keeps_kind (dec_value e)"
  unfolding keeps_kind_def
proof (intro allI impI)
  fix k v x y
  assume x: "has_kind (length Histogram_fields) k x" and y: "dec_value e k v x = Some y"
  show "has_kind (length Histogram_fields) k y"
  proof (cases "k = KSlice")
    case True
    with y show ?thesis by (auto simp: dec_value_def has_kind_def)
  next
    case False
    with x y keeps_dec_leaf [of e] show ?thesis by (auto simp: dec_value_def keeps_kind_def)
  qed
qed

text \<open>The data of an endpoint as the decoder produces it: every structure is of its type.\<close>

definition typed_ctl :: "CtlIfOut \<Rightarrow> bool" where
  "typed_ctl c =
     (pred_option (of_type SystemInfo_fields) (SysInfo c) \<and>
      list_all (of_type RaftInfo_fields) (RaftRootEntry c) \<and>
      list_all (of_type NiorqMgr_fields) (NiorqMgr c) \<and>
      list_all (of_type NISDRoot_fields) (NISDRootEntry c) \<and>
      list_all (of_type NISDChunkInfo_fields) (NISDChunk c) \<and>
      list_all (of_type BufferSetNodes_fields) (BufSetNodes c) \<and>
      list_all (of_type TaskInfo_fields) (Tasks c) \<and>
      list_all (of_type MbMerge_fields) (MbMerge c) \<and>
      pred_option (of_type NclientInfo_fields) (Nclient c))"

lemma typed_zero_ctl [simp]: "typed_ctl zero_ctl"
  by (simp add: typed_ctl_def zero_ctl_def)

lemma dec_ctl_field_typed:
  assumes "typed_ctl c" and "dec_ctl_field e n v c = Some c'"
  shows "typed_ctl c'"
  using assms dec_slice_type [OF keeps_dec_value] dec_ptr_type [OF keeps_dec_value]
  by (auto simp: dec_ctl_field_def Let_def typed_ctl_def split: if_splits)

lemma dec_ctl_typed: "typed_ctl c \<Longrightarrow> dec_ctl e ms c = Some c' \<Longrightarrow> typed_ctl c'"
  by (induction e ms c rule: dec_ctl.induct)
    (auto split: option.splits simp: bind_eq_Some_conv intro: dec_ctl_field_typed)

lemma Unmarshal_ctl_typed:
  assumes "Unmarshal_ctl e s = Inr c"
  shows "typed_ctl c"
proof -
  obtain v where "json_parse s = Some v" "(case v of VNull \<Rightarrow> Some zero_ctl | VObj ms \<Rightarrow> dec_ctl e ms zero_ctl | _ \<Rightarrow> None) = Some c"
    using assms by (auto simp: Unmarshal_ctl_def or_err_def bind_eq_Some_conv split: option.splits)
  then show ?thesis by (cases v) (auto intro: dec_ctl_typed [OF typed_zero_ctl])
qed

end
