(* ===== verification/Prometheus.thy ===== *)
theory Prometheus
  imports AppTables
begin

text \<open>
  \<open>pkg/prometheusHandler/prometheus_handler.go\<close>: rendering a structure as Prometheus text by reflection
  over its field tags. \<open>ord\<close> is the order in which the Go runtime visits a map, and \<open>fmtv\<close> is what
  \<open>%v\<close> prints for the kinds whose formatting is not modelled here (floats, times, uuids, slices).
\<close>

section \<open>The code\<close>

definition fmt_v :: "(goval \<Rightarrow> string) \<Rightarrow> goval \<Rightarrow> string" where
  "fmt_v fmtv v =
     (case v of GInt i \<Rightarrow> Itoa (sint i) | GUint u \<Rightarrow> Itoa (uint u) | GString s \<Rightarrow> s
      | GBool b \<Rightarrow> (if b then ''true'' else ''false'') | _ \<Rightarrow> fmtv v)"

definition parseCounter :: "(goval \<Rightarrow> string) \<Rightarrow> goval \<Rightarrow> string" where
  "parseCounter fmtv count = fmt_v fmtv count"

definition parseGauge :: "(goval \<Rightarrow> string) \<Rightarrow> goval \<Rightarrow> string" where
  "parseGauge fmtv gauge = fmt_v fmtv gauge"

record prometheusHistInfo =
  histoMap :: "(string, string) gomap"
  totalObservation :: i64

fun hist_step :: "prometheusHistInfo \<Rightarrow> sfield \<times> i64 \<Rightarrow> prometheusHistInfo" where
  "hist_step info (bucketBound, bucketValue) =
     (if bucketValue \<noteq> 0
      then info\<lparr>histoMap := mput (Split (f_json bucketBound) '','' ! 0) (Itoa (sint bucketValue)) (histoMap info),
                totalObservation := totalObservation info + bucketValue\<rparr>
      else info)"

definition parseHistogram :: "i64 list \<Rightarrow> prometheusHistInfo" where
  "parseHistogram histogram =
     foldl hist_step \<lparr>histoMap = [], totalObservation = 0\<rparr> (zip Histogram_fields histogram)"

definition makePromUntype :: "(goval \<Rightarrow> string) \<Rightarrow> string \<Rightarrow> string \<Rightarrow> goval \<Rightarrow> string" where
  "makePromUntype fmtv metric label v =
     nl @ ''# UNtype output'' @ nl @ metric @ ''{'' @ label @ ''} '' @ fmt_v fmtv v"

definition makePromCounter :: "string \<Rightarrow> string \<Rightarrow> string \<Rightarrow> string" where
  "makePromCounter metric label count =
     nl @ ''# HELP '' @ metric @ '' output'' @ nl @ ''# TYPE '' @ metric @ '' counter'' @ nl @
     metric @ ''{'' @ label @ ''} '' @ count @ nl"

definition makePromGauge :: "string \<Rightarrow> string \<Rightarrow> string \<Rightarrow> string" where
  "makePromGauge metric label v =
     nl @ ''# HELP '' @ metric @ '' gauge output'' @ nl @ ''# TYPE '' @ metric @ '' gauge'' @ nl @
     metric @ ''{'' @ label @ ''} '' @ v @ nl"

definition bucket_entry :: "string \<Rightarrow> string \<Rightarrow> int \<Rightarrow> string \<Rightarrow> string" where
  "bucket_entry metric label bound v =
     metric @ ''_bucket{'' @ label @ '',ge='' @ dq @ Itoa bound @ dq @ ''} '' @ v"

definition get_str :: "(string, string) gomap \<Rightarrow> string \<Rightarrow> string" where
  "get_str m k = (case map_of m k of None \<Rightarrow> [] | Some v \<Rightarrow> v)"

definition makePromHistogram ::
  "((string, string) gomap \<Rightarrow> string list) \<Rightarrow> string \<Rightarrow> string \<Rightarrow> prometheusHistInfo \<Rightarrow> string" where
  "makePromHistogram ord metric label histogramInfo =
     (let output = nl @ ''# HELP '' @ metric @ '' histogram output'' @ nl @
                   ''# TYPE '' @ metric @ '' histogram'';
          histogram = histoMap histogramInfo;
          totalObservations = totalObservation histogramInfo;
          bounds = sort (map (\<lambda>boundStr. fst (Atoi boundStr)) (ord histogram));
          output = output @ concat (map (\<lambda>bound. nl @ bucket_entry metric label bound
                     (get_str histogram (Itoa bound))) bounds)
      in output @ nl @ nl @ metric @ ''_count '' @ Itoa (sint totalObservations) @ nl)"

definition makeLabelString ::
  "((string, string) gomap \<Rightarrow> string list) \<Rightarrow> (string, string) gomap \<Rightarrow> string" where
  "makeLabelString ord label =
     Join (map (\<lambda>key. key @ ''='' @ dq @ get_str label key @ dq) (ord label)) '',''"

definition prom_field ::
  "(goval \<Rightarrow> string) \<Rightarrow> ((string, string) gomap \<Rightarrow> string list) \<Rightarrow> string \<Rightarrow> sfield \<Rightarrow> goval \<Rightarrow> string res" where
  "prom_field fmtv ord labelString fieldType fieldValue =
     (let promType = f_type fieldType; promMetric = f_metric fieldType
      in if promType = ''histogram'' then
           (case fieldValue of
              GHist bs \<Rightarrow> Inr (makePromHistogram ord promMetric labelString (parseHistogram bs))
            | _ \<Rightarrow> Inl (Panic ''reflect: call of NumField on a non-struct value''))
         else if promType = ''counter'' then
           Inr (makePromCounter promMetric labelString (parseCounter fmtv fieldValue))
         else if promType = ''gauge'' then
           Inr (makePromGauge promMetric labelString (parseGauge fmtv fieldValue))
         else if promType = ''untype'' then
           Inr (makePromUntype fmtv promMetric labelString fieldValue)
         else Inr [])"

definition GenericPromDataParser ::
  "(goval \<Rightarrow> string) \<Rightarrow> ((string, string) gomap \<Rightarrow> string list) \<Rightarrow> sfield list \<Rightarrow> gostruct \<Rightarrow>
   (string, string) gomap \<Rightarrow> string res" where
  "GenericPromDataParser fmtv ord fs vs labels =
     (let labelString = makeLabelString ord labels
      in for_each (\<lambda>(f, v) op. bindr (prom_field fmtv ord labelString f v) (\<lambda>s. Inr (op @ s)))
           (zip fs vs) [])"

text \<open>Any order the runtime may choose for the maps it is asked to visit.\<close>

definition visits :: "(('k, 'v) gomap \<Rightarrow> 'k list) \<Rightarrow> bool" where
  "visits ord = (\<forall>m. mwf m \<longrightarrow> range_order (ord m) m)"

lemma visits_keys: "visits (map fst)"
  by (simp add: visits_def range_order_keys)

lemma visits_rev_keys: "visits (\<lambda>m. rev (map fst m))"
  by (auto simp: visits_def range_order_def mwf_def)

section \<open>Histograms\<close>

definition bucket_bounds :: "int list" where
  "bucket_bounds = map (\<lambda>k. 2 ^ k) [0..<21]"

definition nonzero_buckets :: "i64 list \<Rightarrow> (int \<times> i64) list" where
  "nonzero_buckets bs = filter (\<lambda>(b, v). v \<noteq> 0) (zip bucket_bounds bs)"

lemma bound_strings:
  "map (\<lambda>f. Split (f_json f) '','' ! 0) Histogram_fields = map Itoa bucket_bounds"
  by (simp add: Histogram_fields_def bucket_bounds_def upt_conv_Cons Split_def HasPrefix_def
        Itoa_def nat_digits.simps digit_char_def)

lemma bucket_bounds_sorted: "sorted_wrt (<) bucket_bounds"
  and bucket_bounds_int64: "list_all in_int64 bucket_bounds"
  by (simp_all add: in_int64_def bucket_bounds_def upt_conv_Cons min_int64_def max_int64_def)

lemma length_bucket_bounds [simp]: "length bucket_bounds = 21"
  by (simp add: bucket_bounds_def)

lemma update_new: "map_of m k = None \<Longrightarrow> mput k v m = m @ [(k, v)]"
  by (induction m) (auto split: if_splits)

text \<open>The loop over the buckets collects the non-zero ones in field order and adds them up.\<close>

lemma parseHistogram_aux:
  assumes "distinct (map (\<lambda>f. Split (f_json f) '','' ! 0) fs)"
    and "\<forall>f \<in> set fs. map_of (histoMap info) (Split (f_json f) '','' ! 0) = None"
  shows "foldl hist_step info (zip fs bs) =
     info\<lparr>histoMap := histoMap info @
            map (\<lambda>(f, v). (Split (f_json f) '','' ! 0, Itoa (sint v))) (filter (\<lambda>(f, v). v \<noteq> 0) (zip fs bs)),
          totalObservation := totalObservation info + sum_list (map snd (zip fs bs))\<rparr>"
  using assms
proof (induction fs arbitrary: bs info)
  case (Cons f fs)
  show ?case
  proof (cases bs)
    case (Cons b bs')
    have "\<forall>g \<in> set fs. map_of (histoMap (hist_step info (f, b))) (Split (f_json g) '','' ! 0) = None"
      using Cons.prems by (auto simp: image_iff)
    then show ?thesis
      using Cons.IH [of "hist_step info (f, b)" bs'] Cons.prems Cons
      by (auto simp: update_new add.assoc)
  qed simp
qed simp

lemma map_filter_zip_map:
  "map (\<lambda>(f, v). (g f, h v)) (filter (\<lambda>(f, v). P v) (zip fs bs)) =
   map (\<lambda>(k, v). (k, h v)) (filter (\<lambda>(k, v). P v) (zip (map g fs) bs))"
proof (induction fs arbitrary: bs)
  case (Cons f fs)
  then show ?case by (cases bs) auto
qed simp

lemma distinct_bound_strings: "distinct (map Itoa bucket_bounds)"
  using bucket_bounds_sorted bucket_bounds_int64
  by (intro num.distinct_enc) (simp_all add: strict_sorted_iff)

lemma parseHistogram_eq:
  "parseHistogram bs =
     \<lparr>histoMap = map (\<lambda>(b, v). (Itoa b, Itoa (sint v))) (nonzero_buckets bs),
      totalObservation = sum_list (map snd (zip Histogram_fields bs))\<rparr>"
proof -
  have "map (\<lambda>(k, v). (k, Itoa (sint v))) (filter (\<lambda>(k, v). v \<noteq> 0) (zip (map Itoa bucket_bounds) bs)) =
        map (\<lambda>(b, v). (Itoa b, Itoa (sint v))) (nonzero_buckets bs)"
    by (simp add: nonzero_buckets_def map_filter_zip_map [symmetric])
  then show ?thesis
    using parseHistogram_aux [of Histogram_fields "\<lparr>histoMap = [], totalObservation = 0\<rparr>" bs]
      distinct_bound_strings
    by (simp add: parseHistogram_def bound_strings map_filter_zip_map [where g = "\<lambda>f. Split (f_json f) '','' ! 0"])
qed

lemma map_fst_filter_zip_sorted:
  "sorted_wrt (<) xs \<Longrightarrow> sorted_wrt (<) (map fst (filter P (zip xs ys)))"
proof (induction xs arbitrary: ys)
  case (Cons x xs)
  show ?case
  proof (cases ys)
    case (Cons y ys')
    have "\<forall>z \<in> set (map fst (filter P (zip xs ys'))). x < z"
      using Cons.prems by (auto dest: set_zip_leftD)
    with Cons Cons.IH [of ys'] Cons.prems show ?thesis by auto
  qed simp
qed simp

lemma nonzero_buckets_sorted: "sorted_wrt (<) (map fst (nonzero_buckets bs))"
  unfolding nonzero_buckets_def by (rule map_fst_filter_zip_sorted) (rule bucket_bounds_sorted)

lemma nonzero_buckets_bound: "(b, v) \<in> set (nonzero_buckets bs) \<Longrightarrow> b \<in> set bucket_bounds \<and> v \<noteq> 0"
  by (auto simp: nonzero_buckets_def dest: set_zip_leftD)

lemma Atoi_bound: "(b, v) \<in> set (nonzero_buckets bs) \<Longrightarrow> Atoi (Itoa b) = (b, True)"
  using bucket_bounds_int64 by (auto simp: list_all_iff dest!: nonzero_buckets_bound intro: num.dec_enc)

lemma histo_keys:
  "map fst (histoMap (parseHistogram bs)) = map Itoa (map fst (nonzero_buckets bs))"
  by (simp add: parseHistogram_eq case_prod_unfold)

lemma histo_mwf: "mwf (histoMap (parseHistogram bs))"
proof -
  have "distinct (map Itoa (map fst (nonzero_buckets bs)))"
    using nonzero_buckets_sorted [of bs] bucket_bounds_int64 nonzero_buckets_bound [of _ _ bs]
    by (intro num.distinct_enc) (auto simp: strict_sorted_iff list_all_iff)
  then show ?thesis by (simp add: mwf_def histo_keys)
qed

lemma histo_get:
  assumes "(b, v) \<in> set (nonzero_buckets bs)"
  shows "get_str (histoMap (parseHistogram bs)) (Itoa b) = Itoa (sint v)"
proof -
  have "(Itoa b, Itoa (sint v)) \<in> set (histoMap (parseHistogram bs))"
    using assms by (force simp: parseHistogram_eq)
  then have "map_of (histoMap (parseHistogram bs)) (Itoa b) = Some (Itoa (sint v))"
    using histo_mwf by (simp add: mwf_def)
  then show ?thesis by (simp add: get_str_def)
qed

text \<open>Whatever order the runtime visits the map in, the sorted bounds are the non-zero buckets in order.\<close>

lemma sorted_bounds:
  assumes "visits ord"
  shows "sort (map (\<lambda>s. fst (Atoi s)) (ord (histoMap (parseHistogram bs)))) = map fst (nonzero_buckets bs)"
proof (rule sorted_distinct_set_unique)
  let ?m = "histoMap (parseHistogram bs)"
  define S where "S = set (map fst (nonzero_buckets bs))"
  have ord: "distinct (ord ?m)" "set (ord ?m) = Itoa ` S"
    using assms histo_mwf [of bs] arg_cong [OF histo_keys [of bs], of set]
    by (auto simp: visits_def range_order_def S_def)
  have at: "fst (Atoi (Itoa b)) = b" if "b \<in> S" for b
    using that by (auto simp: Atoi_bound S_def)
  show "sorted (sort (map (\<lambda>s. fst (Atoi s)) (ord ?m)))" by simp
  show "distinct (sort (map (\<lambda>s. fst (Atoi s)) (ord ?m)))"
    using ord by (auto simp: distinct_map at intro!: inj_onI)
  show "sorted (map fst (nonzero_buckets bs))" "distinct (map fst (nonzero_buckets bs))"
    using nonzero_buckets_sorted [of bs] by (simp_all add: strict_sorted_iff)
  show "set (sort (map (\<lambda>s. fst (Atoi s)) (ord ?m))) = set (map fst (nonzero_buckets bs))"
    using ord by (simp add: image_image at) (simp add: S_def)
qed

text \<open>
  A rendering that needs no map and no sorting: the buckets in the order of the structure's fields,
  zero buckets left out.
\<close>

definition histogram_text :: "string \<Rightarrow> string \<Rightarrow> i64 list \<Rightarrow> string" where
  "histogram_text metric label bs =
     nl @ ''# HELP '' @ metric @ '' histogram output'' @ nl @ ''# TYPE '' @ metric @ '' histogram'' @
     concat (map (\<lambda>(b, v). nl @ bucket_entry metric label b (Itoa (sint v))) (nonzero_buckets bs)) @
     nl @ nl @ metric @ ''_count '' @ Itoa (sint (sum_list (map snd (zip Histogram_fields bs)))) @ nl"

lemma makePromHistogram_text:
  assumes "visits ord"
  shows "makePromHistogram ord metric label (parseHistogram bs) = histogram_text metric label bs"
proof -
  have "map (\<lambda>b. nl @ bucket_entry metric label b (get_str (histoMap (parseHistogram bs)) (Itoa b)))
            (map fst (nonzero_buckets bs)) =
        map (\<lambda>(b, v). nl @ bucket_entry metric label b (Itoa (sint v))) (nonzero_buckets bs)"
    by (auto simp: histo_get)
  note entries = this
  show ?thesis
    unfolding makePromHistogram_def histogram_text_def Let_def sorted_bounds [OF assms] entries
    by (simp add: parseHistogram_eq)
qed

section \<open>Whole structures\<close>

text \<open>What one exported field contributes.\<close>

definition prom_block :: "(goval \<Rightarrow> string) \<Rightarrow> string \<Rightarrow> sfield \<Rightarrow> goval \<Rightarrow> string" where
  "prom_block fmtv label f v =
     (if f_type f = ''histogram'' then
        (case v of GHist bs \<Rightarrow> histogram_text (f_metric f) label bs | _ \<Rightarrow> [])
      else if f_type f = ''counter'' then makePromCounter (f_metric f) label (fmt_v fmtv v)
      else if f_type f = ''gauge'' then makePromGauge (f_metric f) label (fmt_v fmtv v)
      else [])"

lemma prom_field_block:
  assumes "visits ord" and "exportable f" and "has_kind n (f_kind f) v"
  shows "prom_field fmtv ord label f v = Inr (prom_block fmtv label f v)"
  using assms
  by (cases v) (auto simp: exportable_def prom_field_def prom_block_def has_kind_def parseCounter_def parseGauge_def
      makePromHistogram_text split: if_splits)

lemma Generic_aux:
  assumes "visits ord" and "list_all exportable fs"
    and "list_all2 (\<lambda>f v. has_kind n (f_kind f) v) fs vs"
  shows "for_each (\<lambda>(f, v) op. bindr (prom_field fmtv ord label f v) (\<lambda>s. Inr (op @ s))) (zip fs vs) acc =
     Inr (acc @ concat (map (\<lambda>(f, v). prom_block fmtv label f v) (zip fs vs)))"
  using assms(3,2)
proof (induction arbitrary: acc rule: list_all2_induct)
  case (Cons f fs v vs)
  with assms(1) show ?case by (simp add: prom_field_block)
qed simp

lemma GenericPromDataParser_blocks:
  assumes "visits ord" and "list_all exportable fs" and "of_type fs vs"
  shows "GenericPromDataParser fmtv ord fs vs labels =
     Inr (concat (map (\<lambda>(f, v). prom_block fmtv (makeLabelString ord labels) f v) (zip fs vs)))"
  using Generic_aux [OF assms(1,2), of "length Histogram_fields" vs] assms(3)
  by (simp add: GenericPromDataParser_def of_type_def)

lemma table_exportable: "fs \<in> set metric_tables \<Longrightarrow> list_all exportable fs"
  using tables_exportable by (auto simp: list_all_iff)

lemma Generic_returns:
  assumes "visits ord" and "fs \<in> set metric_tables" and "of_type fs vs"
  shows "\<exists>out. GenericPromDataParser fmtv ord fs vs labels = Inr out"
  using GenericPromDataParser_blocks [OF assms(1) table_exportable [OF assms(2)] assms(3)] by simp

end
