(* ===== verification/Applications.thy ===== *)
theory Applications
  imports JsonDecode Prometheus
begin

text \<open>
  \<open>pkg/monitor/applications\<close>: the application types behind the interface \<open>AppIF\<close>. An application is
  only ever held by its endpoint, so it is a value; a method with a pointer receiver returns the
  changed value. A nil map is the empty map, as the code only reads it.
\<close>

section \<open>The application types\<close>

record Pmdb =
  pm_uuid :: uuid
  pm_EPInfo :: CtlIfOut
  pm_RaftRootEntry :: "gostruct list"
  pm_membership :: "(string, bool) gomap"

record Nisd =
  ni_uuid :: uuid
  ni_EPInfo :: CtlIfOut
  ni_membership :: "(string, bool) gomap"
  ni_fromGossip :: bool
  ni_address :: string

record NclientApp =
  nc_Uuid :: uuid
  nc_EPInfo :: CtlIfOut

record Unrecognized =
  un_Uuid :: uuid
  un_EPInfo :: CtlIfOut

record Syst =
  sy_EPInfo :: CtlIfOut
  sy_fromGossip :: bool

datatype App = AUnrecognized Unrecognized | APmdb Pmdb | ANisd Nisd | ANclient NclientApp

definition new_Pmdb :: Pmdb where
  "new_Pmdb = \<lparr>pm_uuid = 0, pm_EPInfo = zero_ctl, pm_RaftRootEntry = [], pm_membership = []\<rparr>"

definition new_Nisd :: Nisd where
  "new_Nisd = \<lparr>ni_uuid = 0, ni_EPInfo = zero_ctl, ni_membership = [], ni_fromGossip = False, ni_address = []\<rparr>"

definition new_Nclient :: NclientApp where
  "new_Nclient = \<lparr>nc_Uuid = 0, nc_EPInfo = zero_ctl\<rparr>"

definition new_Unrecognized :: Unrecognized where
  "new_Unrecognized = \<lparr>un_Uuid = 0, un_EPInfo = zero_ctl\<rparr>"

definition new_Syst :: Syst where
  "new_Syst = \<lparr>sy_EPInfo = zero_ctl, sy_fromGossip = False\<rparr>"

section \<open>The methods of each type\<close>

text \<open>
  A method of the interface is the one of the type; these short ones are unfolded by the simplifier.
  First what no application has been recognised for yet.
\<close>

definition Unrecognized_GetAppName :: "Unrecognized \<Rightarrow> string" where [simp]:
  "Unrecognized_GetAppName u = ''unrecognized''"

definition Unrecognized_GetAltName :: "Unrecognized \<Rightarrow> string" where [simp]:
  "Unrecognized_GetAltName u = []"

definition Unrecognized_SetUUID :: "uuid \<Rightarrow> Unrecognized \<Rightarrow> Unrecognized" where [simp]:
  "Unrecognized_SetUUID uuid u = u\<lparr>un_Uuid := uuid\<rparr>"

definition Unrecognized_GetUUID :: "Unrecognized \<Rightarrow> uuid" where [simp]:
  "Unrecognized_GetUUID u = un_Uuid u"

definition Unrecognized_GetAppDetectInfo :: "Unrecognized \<Rightarrow> bool \<Rightarrow> string \<times> EPcmdType" where [simp]:
  "Unrecognized_GetAppDetectInfo u b = (''GET /.*/.*/.*'', CustomOp)"

definition Unrecognized_SetCtlIfOut :: "CtlIfOut \<Rightarrow> Unrecognized \<Rightarrow> Unrecognized" where [simp]:
  "Unrecognized_SetCtlIfOut c u = u"

definition Unrecognized_GetCtlIfOut :: "Unrecognized \<Rightarrow> CtlIfOut" where [simp]:
  "Unrecognized_GetCtlIfOut u = un_EPInfo u"

definition Unrecognized_SetMembership :: "(string, bool) gomap \<Rightarrow> Unrecognized \<Rightarrow> Unrecognized" where [simp]:
  "Unrecognized_SetMembership membership u = u"

definition Unrecognized_GetMembership :: "Unrecognized \<Rightarrow> (string, bool) gomap" where [simp]:
  "Unrecognized_GetMembership u = []"

definition Unrecognized_IsMonitoringEnabled :: "Unrecognized \<Rightarrow> bool" where [simp]:
  "Unrecognized_IsMonitoringEnabled u = True"

text \<open>PMDB.\<close>

definition Pmdb_GetAppName :: "Pmdb \<Rightarrow> string" where [simp]:
  "Pmdb_GetAppName p = ''PMDB''"

definition Pmdb_GetAltName :: "Pmdb \<Rightarrow> string" where [simp]:
  "Pmdb_GetAltName p = []"

definition Pmdb_SetUUID :: "uuid \<Rightarrow> Pmdb \<Rightarrow> Pmdb" where [simp]:
  "Pmdb_SetUUID uuid p = p\<lparr>pm_uuid := uuid\<rparr>"

definition Pmdb_GetUUID :: "Pmdb \<Rightarrow> uuid" where [simp]:
  "Pmdb_GetUUID p = pm_uuid p"

definition Pmdb_GetCtlIfOut :: "Pmdb \<Rightarrow> CtlIfOut" where [simp]:
  "Pmdb_GetCtlIfOut p = pm_EPInfo p"

definition Pmdb_SetMembership :: "(string, bool) gomap \<Rightarrow> Pmdb \<Rightarrow> Pmdb" where [simp]:
  "Pmdb_SetMembership membership p = p\<lparr>pm_membership := membership\<rparr>"

definition Pmdb_GetMembership :: "Pmdb \<Rightarrow> (string, bool) gomap" where [simp]:
  "Pmdb_GetMembership p = pm_membership p"

definition Pmdb_IsMonitoringEnabled :: "Pmdb \<Rightarrow> bool" where [simp]:
  "Pmdb_IsMonitoringEnabled p = True"

text \<open>NISD.\<close>

definition Nisd_GetAppName :: "Nisd \<Rightarrow> string" where [simp]:
  "Nisd_GetAppName n = ''NISD''"

definition Nisd_SetUUID :: "uuid \<Rightarrow> Nisd \<Rightarrow> Nisd" where [simp]:
  "Nisd_SetUUID uuid n = n\<lparr>ni_uuid := uuid\<rparr>"

definition Nisd_GetUUID :: "Nisd \<Rightarrow> uuid" where [simp]:
  "Nisd_GetUUID n = ni_uuid n"

definition Nisd_GetAppDetectInfo :: "Nisd \<Rightarrow> bool \<Rightarrow> string \<times> EPcmdType" where [simp]:
  "Nisd_GetAppDetectInfo n b = (''GET /.*/.*/.*'', NISDInfoOp)"

definition Nisd_GetCtlIfOut :: "Nisd \<Rightarrow> CtlIfOut" where [simp]:
  "Nisd_GetCtlIfOut n = ni_EPInfo n"

definition Nisd_SetMembership :: "(string, bool) gomap \<Rightarrow> Nisd \<Rightarrow> Nisd" where [simp]:
  "Nisd_SetMembership membership n = n\<lparr>ni_membership := membership\<rparr>"

definition Nisd_GetMembership :: "Nisd \<Rightarrow> (string, bool) gomap" where [simp]:
  "Nisd_GetMembership n = ni_membership n"

definition Nisd_IsMonitoringEnabled :: "Nisd \<Rightarrow> bool" where [simp]:
  "Nisd_IsMonitoringEnabled n = True"

text \<open>The client.\<close>

definition Nclient_GetAppName :: "NclientApp \<Rightarrow> string" where [simp]:
  "Nclient_GetAppName n = ''NCLIENT''"

definition Nclient_GetAltName :: "NclientApp \<Rightarrow> string" where [simp]:
  "Nclient_GetAltName n = []"

definition Nclient_SetUUID :: "uuid \<Rightarrow> NclientApp \<Rightarrow> NclientApp" where [simp]:
  "Nclient_SetUUID uuid n = n\<lparr>nc_Uuid := uuid\<rparr>"

definition Nclient_GetUUID :: "NclientApp \<Rightarrow> uuid" where [simp]:
  "Nclient_GetUUID n = nc_Uuid n"

definition Nclient_GetAppDetectInfo :: "NclientApp \<Rightarrow> bool \<Rightarrow> string \<times> EPcmdType" where [simp]:
  "Nclient_GetAppDetectInfo n b = (''GET /.*/.*/.*'', NCLIENTInfoOp)"

definition Nclient_GetCtlIfOut :: "NclientApp \<Rightarrow> CtlIfOut" where [simp]:
  "Nclient_GetCtlIfOut n = nc_EPInfo n"

definition Nclient_SetMembership :: "(string, bool) gomap \<Rightarrow> NclientApp \<Rightarrow> NclientApp" where [simp]:
  "Nclient_SetMembership membership n = n"

definition Nclient_GetMembership :: "NclientApp \<Rightarrow> (string, bool) gomap" where [simp]:
  "Nclient_GetMembership n = []"

definition Nclient_IsMonitoringEnabled :: "NclientApp \<Rightarrow> bool" where [simp]:
  "Nclient_IsMonitoringEnabled n = True"

text \<open>The helper \<open>Syst\<close> of \<open>system.go\<close>: not an application, it lends its query to those without one.\<close>

definition Syst_GetAppType :: "Syst \<Rightarrow> string" where [simp]:
  "Syst_GetAppType s = ''SYST''"

definition Syst_GetAltName :: "Syst \<Rightarrow> string" where [simp]:
  "Syst_GetAltName s = []"

definition Syst_SetUUID :: "uuid \<Rightarrow> Syst \<Rightarrow> Syst" where [simp]:
  "Syst_SetUUID uuid s = s"

definition Syst_GetUUID :: "Syst \<Rightarrow> uuid" where [simp]:
  "Syst_GetUUID s = 0"

definition Syst_GetCtlIfOut :: "Syst \<Rightarrow> CtlIfOut" where [simp]:
  "Syst_GetCtlIfOut s = sy_EPInfo s"

definition Syst_SetMembership :: "(string, bool) gomap \<Rightarrow> Syst \<Rightarrow> Syst" where [simp]:
  "Syst_SetMembership membership s = s"

definition Syst_GetMembership :: "Syst \<Rightarrow> (string, bool) gomap" where [simp]:
  "Syst_GetMembership s = []"

definition Syst_IsMonitoringEnabled :: "Syst \<Rightarrow> bool" where [simp]:
  "Syst_IsMonitoringEnabled s = True"

definition Syst_FromGossip :: "Syst \<Rightarrow> bool" where [simp]:
  "Syst_FromGossip s = sy_fromGossip s"

section \<open>Names, uuids and queries\<close>

fun GetAppName :: "App \<Rightarrow> string" where
  "GetAppName (AUnrecognized u) = Unrecognized_GetAppName u"
| "GetAppName (APmdb p) = Pmdb_GetAppName p"
| "GetAppName (ANisd n) = Nisd_GetAppName n"
| "GetAppName (ANclient n) = Nclient_GetAppName n"

definition Nisd_GetAltName :: "Nisd \<Rightarrow> string" where
  "Nisd_GetAltName n =
     (case NISDRootEntry (ni_EPInfo n) of
        [] \<Rightarrow> []
      | r # _ \<Rightarrow> str_field NISDRoot_fields r ''AltName'')"

fun GetAltName :: "App \<Rightarrow> string" where
  "GetAltName (AUnrecognized u) = Unrecognized_GetAltName u"
| "GetAltName (APmdb p) = Pmdb_GetAltName p"
| "GetAltName (ANisd n) = Nisd_GetAltName n"
| "GetAltName (ANclient n) = Nclient_GetAltName n"

fun SetUUID :: "uuid \<Rightarrow> App \<Rightarrow> App" where
  "SetUUID uuid (AUnrecognized u) = AUnrecognized (Unrecognized_SetUUID uuid u)"
| "SetUUID uuid (APmdb p) = APmdb (Pmdb_SetUUID uuid p)"
| "SetUUID uuid (ANisd n) = ANisd (Nisd_SetUUID uuid n)"
| "SetUUID uuid (ANclient n) = ANclient (Nclient_SetUUID uuid n)"

fun GetUUID :: "App \<Rightarrow> uuid" where
  "GetUUID (AUnrecognized u) = Unrecognized_GetUUID u"
| "GetUUID (APmdb p) = Pmdb_GetUUID p"
| "GetUUID (ANisd n) = Nisd_GetUUID n"
| "GetUUID (ANclient n) = Nclient_GetUUID n"

text \<open>The query an endpoint is sent and the kind of its answer.\<close>

definition Syst_GetAppDetectInfo :: "Syst \<Rightarrow> bool \<Rightarrow> string \<times> EPcmdType" where
  "Syst_GetAppDetectInfo s b = (''GET /system_info/.*'', SystemInfoOp)"

definition Pmdb_GetAppDetectInfo :: "Pmdb \<Rightarrow> bool \<Rightarrow> string \<times> EPcmdType" where
  "Pmdb_GetAppDetectInfo p b =
     (if b then (''GET /raft_root_entry/.*/.*'', RaftInfoOp) else Syst_GetAppDetectInfo new_Syst b)"

fun GetAppDetectInfo :: "App \<Rightarrow> bool \<Rightarrow> string \<times> EPcmdType" where
  "GetAppDetectInfo (AUnrecognized u) b = Unrecognized_GetAppDetectInfo u b"
| "GetAppDetectInfo (APmdb p) b = Pmdb_GetAppDetectInfo p b"
| "GetAppDetectInfo (ANisd n) b = Nisd_GetAppDetectInfo n b"
| "GetAppDetectInfo (ANclient n) b = Nclient_GetAppDetectInfo n b"

fun IsMonitoringEnabled :: "App \<Rightarrow> bool" where
  "IsMonitoringEnabled (AUnrecognized u) = Unrecognized_IsMonitoringEnabled u"
| "IsMonitoringEnabled (APmdb p) = Pmdb_IsMonitoringEnabled p"
| "IsMonitoringEnabled (ANisd n) = Nisd_IsMonitoringEnabled n"
| "IsMonitoringEnabled (ANclient n) = Nclient_IsMonitoringEnabled n"

text \<open>Every application is monitored.\<close>

lemma IsMonitoringEnabled_all [simp]: "IsMonitoringEnabled a"
  by (cases a) simp_all

section \<open>Control-interface data\<close>

definition Pmdb_SetCtlIfOut :: "CtlIfOut \<Rightarrow> Pmdb \<Rightarrow> Pmdb" where
  "Pmdb_SetCtlIfOut c p = p\<lparr>pm_EPInfo := (pm_EPInfo p)\<lparr>RaftRootEntry := RaftRootEntry c\<rparr>\<rparr>"

definition Nisd_SetCtlIfOut :: "CtlIfOut \<Rightarrow> Nisd \<Rightarrow> Nisd" where
  "Nisd_SetCtlIfOut c n = n\<lparr>ni_EPInfo := (ni_EPInfo n)
     \<lparr>NiorqMgr := NiorqMgr c, NISDRootEntry := NISDRootEntry c, SysInfo := SysInfo c,
      NISDChunk := NISDChunk c, BufSetNodes := BufSetNodes c, MbMerge := MbMerge c,
      Tasks := Tasks c\<rparr>\<rparr>"

definition Nclient_SetCtlIfOut :: "CtlIfOut \<Rightarrow> NclientApp \<Rightarrow> NclientApp" where
  "Nclient_SetCtlIfOut c n = n\<lparr>nc_EPInfo := (nc_EPInfo n)
     \<lparr>Nclient := Nclient c, SysInfo := SysInfo c, NiorqMgr := NiorqMgr c, Tasks := Tasks c\<rparr>\<rparr>"

fun SetCtlIfOut :: "CtlIfOut \<Rightarrow> App \<Rightarrow> App" where
  "SetCtlIfOut c (AUnrecognized u) = AUnrecognized (Unrecognized_SetCtlIfOut c u)"
| "SetCtlIfOut c (APmdb p) = APmdb (Pmdb_SetCtlIfOut c p)"
| "SetCtlIfOut c (ANisd n) = ANisd (Nisd_SetCtlIfOut c n)"
| "SetCtlIfOut c (ANclient n) = ANclient (Nclient_SetCtlIfOut c n)"

fun GetCtlIfOut :: "App \<Rightarrow> CtlIfOut" where
  "GetCtlIfOut (AUnrecognized u) = Unrecognized_GetCtlIfOut u"
| "GetCtlIfOut (APmdb p) = Pmdb_GetCtlIfOut p"
| "GetCtlIfOut (ANisd n) = Nisd_GetCtlIfOut n"
| "GetCtlIfOut (ANclient n) = Nclient_GetCtlIfOut n"

fun SetMembership :: "(string, bool) gomap \<Rightarrow> App \<Rightarrow> App" where
  "SetMembership membership (AUnrecognized u) = AUnrecognized (Unrecognized_SetMembership membership u)"
| "SetMembership membership (APmdb p) = APmdb (Pmdb_SetMembership membership p)"
| "SetMembership membership (ANisd n) = ANisd (Nisd_SetMembership membership n)"
| "SetMembership membership (ANclient n) = ANclient (Nclient_SetMembership membership n)"

fun GetMembership :: "App \<Rightarrow> (string, bool) gomap" where
  "GetMembership (AUnrecognized u) = Unrecognized_GetMembership u"
| "GetMembership (APmdb p) = Pmdb_GetMembership p"
| "GetMembership (ANisd n) = Nisd_GetMembership n"
| "GetMembership (ANclient n) = Nclient_GetMembership n"

section \<open>Recognising an application\<close>

definition DetermineApp :: "env \<Rightarrow> string \<Rightarrow> App \<times> goerr option" where
  "DetermineApp e jsonData =
     (case Unmarshal_obj e jsonData of
        Inl err \<Rightarrow> (AUnrecognized new_Unrecognized, Some err)
      | Inr data \<Rightarrow>
          if ''raft_root_entry'' \<in> set data then (APmdb new_Pmdb, None)
          else if ''nisd_root_entry'' \<in> set data then (ANisd new_Nisd, None)
          else if ''nclient_root_entry'' \<in> set data then (ANclient new_Nclient, None)
          else (AUnrecognized new_Unrecognized, Some (ErrorString ''Unrecognized application'')))"

definition GetAppByName :: "string \<Rightarrow> App option \<times> goerr option" where
  "GetAppByName name =
     (if name = ''NCLIENT'' then (Some (ANclient new_Nclient), None)
      else if name = ''PMDB'' then (Some (APmdb new_Pmdb), None)
      else if name = ''NISD'' then (Some (ANisd new_Nisd), None)
      else if name = ''unrecognized'' then (Some (AUnrecognized new_Unrecognized), None)
      else (None, Some (ErrorString (''unknown application type: '' @ name))))"

fun recognized :: "App \<Rightarrow> bool" where
  "recognized (AUnrecognized _) = False"
| "recognized _ = True"

lemma DetermineApp_recognized: "DetermineApp e d = (a, err) \<Longrightarrow> recognized a \<longleftrightarrow> err = None"
  by (auto simp: DetermineApp_def split: sum.splits if_splits)

section \<open>Typed data\<close>

text \<open>The data an application holds is of its declared types; decoding and the setters keep it so.\<close>

fun typed_app :: "App \<Rightarrow> bool" where
  "typed_app (AUnrecognized a) = typed_ctl (un_EPInfo a)"
| "typed_app (APmdb p) = (typed_ctl (pm_EPInfo p) \<and> list_all (of_type RaftInfo_fields) (pm_RaftRootEntry p))"
| "typed_app (ANisd n) = typed_ctl (ni_EPInfo n)"
| "typed_app (ANclient n) = typed_ctl (nc_EPInfo n)"

lemma typed_SetUUID [simp]: "typed_app (SetUUID u a) = typed_app a"
  by (cases a) simp_all

lemma typed_SetCtlIfOut: "typed_app a \<Longrightarrow> typed_ctl c \<Longrightarrow> typed_app (SetCtlIfOut c a)"
  by (cases a) (auto simp: Pmdb_SetCtlIfOut_def Nisd_SetCtlIfOut_def Nclient_SetCtlIfOut_def typed_ctl_def)

lemma typed_DetermineApp: "DetermineApp e d = (a, err) \<Longrightarrow> typed_app a"
  by (auto simp: DetermineApp_def new_Pmdb_def new_Nisd_def new_Nclient_def new_Unrecognized_def
      split: sum.splits if_splits)

section \<open>The interface\<close>

text \<open>
  What the endpoint code relies on: setting the uuid or new data changes neither the application's
  name nor its recognition, the two setters do not disturb each other, and only the last data counts.
\<close>

locale app_if =
  fixes name :: "'a \<Rightarrow> string"
    and setu :: "uuid \<Rightarrow> 'a \<Rightarrow> 'a" and getu :: "'a \<Rightarrow> uuid"
    and setc :: "CtlIfOut \<Rightarrow> 'a \<Rightarrow> 'a" and getc :: "'a \<Rightarrow> CtlIfOut"
  assumes getu_setu: "getu (setu u a) = u"
    and getu_setc: "getu (setc c a) = getu a"
    and getc_setu: "getc (setu u a) = getc a"
    and setc_setc: "setc c' (setc c a) = setc c' a"
    and name_setu: "name (setu u a) = name a"
    and name_setc: "name (setc c a) = name a"
begin

lemma getu_fold: "getu (fold setc cs (setu u a)) = u"
  by (induction cs rule: rev_induct) (simp_all add: getu_setu getu_setc)

lemma name_fold: "name (fold setc cs a) = name a"
  by (induction cs rule: rev_induct) (simp_all add: name_setc)

lemma last_data: "cs \<noteq> [] \<Longrightarrow> fold setc cs a = setc (last cs) a"
proof (induction cs rule: rev_induct)
  case (snoc c cs)
  then show ?case by (cases "cs = []") (simp_all add: setc_setc)
qed simp

end

interpretation app: app_if GetAppName SetUUID GetUUID SetCtlIfOut GetCtlIfOut
proof
  fix u c c' and a :: App
  show "GetUUID (SetUUID u a) = u" "GetUUID (SetCtlIfOut c a) = GetUUID a"
    "GetCtlIfOut (SetUUID u a) = GetCtlIfOut a" "GetAppName (SetUUID u a) = GetAppName a"
    "GetAppName (SetCtlIfOut c a) = GetAppName a"
    "SetCtlIfOut c' (SetCtlIfOut c a) = SetCtlIfOut c' a"
    by (cases a; simp add: Pmdb_SetCtlIfOut_def Nisd_SetCtlIfOut_def Nclient_SetCtlIfOut_def)+
qed

lemma recognized_SetUUID [simp]: "recognized (SetUUID u a) = recognized a"
  and recognized_SetCtlIfOut [simp]: "recognized (SetCtlIfOut c a) = recognized a"
  by (cases a; simp)+

text \<open>
  A PMDB application never holds system information nor a \<open>RaftRootEntry\<close> of its own: no method
  writes them.
\<close>

definition pmdb_bare :: "App \<Rightarrow> bool" where
  "pmdb_bare a = (case a of APmdb p \<Rightarrow> SysInfo (pm_EPInfo p) = None \<and> pm_RaftRootEntry p = [] | _ \<Rightarrow> True)"

lemma pmdb_bare_SetUUID [simp]: "pmdb_bare (SetUUID u a) = pmdb_bare a"
  and pmdb_bare_SetCtlIfOut [simp]: "pmdb_bare (SetCtlIfOut c a) = pmdb_bare a"
  by (cases a; simp add: pmdb_bare_def Pmdb_SetCtlIfOut_def)+

lemma pmdb_bare_DetermineApp: "DetermineApp e d = (a, err) \<Longrightarrow> pmdb_bare a"
  by (auto simp: DetermineApp_def pmdb_bare_def new_Pmdb_def zero_ctl_def split: sum.splits if_splits)

text \<open>What holds of every application an endpoint has.\<close>

definition app_data_ok :: "App \<Rightarrow> bool" where
  "app_data_ok a = (pmdb_bare a \<and> typed_app a)"

lemma app_data_ok_SetUUID [simp]: "app_data_ok (SetUUID u a) = app_data_ok a"
  by (simp add: app_data_ok_def)

lemma app_data_ok_SetCtlIfOut: "app_data_ok a \<Longrightarrow> typed_ctl c \<Longrightarrow> app_data_ok (SetCtlIfOut c a)"
  by (simp add: app_data_ok_def typed_SetCtlIfOut)

lemma app_data_ok_DetermineApp: "DetermineApp e d = (a, err) \<Longrightarrow> app_data_ok a"
  using pmdb_bare_DetermineApp typed_DetermineApp by (simp add: app_data_ok_def)

lemma app_data_ok_new [simp]: "app_data_ok (AUnrecognized new_Unrecognized)"
  by (simp add: app_data_ok_def pmdb_bare_def new_Unrecognized_def)

end
