(* ===== verification/LookoutState.thy ===== *)
theory LookoutState
  imports Applications
begin

text \<open>
  The state of a running lookout: the structures of \<open>ctl_interface.go\<close>, \<open>lookout.go\<close> and
  \<open>endpointContainer.go\<close>. Endpoints and commands are shared through pointers (an endpoint is reached
  from \<open>epMap\<close> and from the watch map, a command from \<open>pendingCmds\<close> and from the local variable that
  built it), so both live in a store indexed by references; a reference below the allocation counter
  is an allocated object. Every system call with an effect is appended to \<open>w_sys\<close>.
\<close>

section \<open>Endpoint states\<close>

datatype Epstate =
    EPstateUnknown | EPstateInit | EPstateHasIdentity | EPstateRunning | EPstateDown
  | EPstateRemoving | EPstateAny

fun Epstate_String :: "Epstate \<Rightarrow> string" where
  "Epstate_String EPstateInit = ''init''"
| "Epstate_String EPstateHasIdentity = ''identified''"
| "Epstate_String EPstateRunning = ''running''"
| "Epstate_String EPstateDown = ''down''"
| "Epstate_String EPstateRemoving = ''removing''"
| "Epstate_String EPstateAny = ''any''"
| "Epstate_String EPstateUnknown = ''unknown''"

definition isWatchedState :: "Epstate \<Rightarrow> bool" where
  "isWatchedState s = (s \<notin> {EPstateRemoving, EPstateUnknown, EPstateAny})"

lemma isWatchedState_simps [simp]:
  "isWatchedState EPstateInit" "isWatchedState EPstateHasIdentity" "isWatchedState EPstateRunning"
  "isWatchedState EPstateDown" "\<not> isWatchedState EPstateRemoving" "\<not> isWatchedState EPstateUnknown"
  "\<not> isWatchedState EPstateAny"
  by (simp_all add: isWatchedState_def)

datatype lookoutState = BOOTING | RUNNING | SHUTDOWN

fun lookoutState_String :: "lookoutState \<Rightarrow> string" where
  "lookoutState_String BOOTING = ''booting''"
| "lookoutState_String RUNNING = ''running''"
| "lookoutState_String SHUTDOWN = ''shutdown''"

section \<open>Constants\<close>

definition LookoutPrefixStr :: string where "LookoutPrefixStr = ''lkoep_''"

definition maxOutFileSize :: int where "maxOutFileSize = 4 * 1024 * 1024"

definition EPtimeout :: gotime where "EPtimeout = 60 * second"

definition OutfileTtl :: gotime where "OutfileTtl = 5 * minute"

definition IN_MOVE_SELF :: nat where "IN_MOVE_SELF = 0x800"

definition IN_MOVED_TO :: nat where "IN_MOVED_TO = 0x80"

definition IN_CREATE :: nat where "IN_CREATE = 0x100"

definition IN_ATTRIB :: nat where "IN_ATTRIB = 0x4"

section \<open>Objects\<close>

type_synonym i32 = "32 word"
type_synonym ep_ref = nat
type_synonym cmd_ref = nat

record epCommand =
  c_ep :: ep_ref
  c_cmd :: string
  c_id :: uuid
  c_outJSON :: string
  c_err :: "goerr option"
  c_op :: EPcmdType
  c_start :: gotime

record NcsiEP =
  ep_App :: "App option"
  ep_Uuid :: uuid
  ep_Name :: string
  ep_NiovaSvcType :: string
  ep_Port :: int
  ep_LastSeen :: gotime
  ep_State :: Epstate
  ep_EPInfo :: CtlIfOut
  ep_pendingCmds :: "(uuid, cmd_ref) gomap"
  ep_lsofGen :: u64
  ep_watched :: bool
  ep_wid :: i32

record LookoutInotify =
  ino_ifd :: int
  ino_wd :: i32
  ino_wmap :: "(i32, ep_ref) gomap"

record LookoutHandler =
  lh_PromPath :: string
  lh_HttpPort :: int
  lh_CTLPath :: string
  lh_lsofGen :: u64
  lh_state :: lookoutState
  lh_inotify :: LookoutInotify

record EPContainer =
  epc_MonitorUUID :: string
  epc_epMap :: "(uuid, ep_ref) gomap"

datatype sysop =
    SysAddWatch string nat | SysRmWatch "32 word"
  | SysWriteFile string string | SysRemove string | SysAppendFile string string

record world =
  w_lh :: LookoutHandler
  w_epc :: EPContainer
  w_eps :: "ep_ref \<Rightarrow> NcsiEP"
  w_neps :: nat
  w_cmds :: "cmd_ref \<Rightarrow> epCommand"
  w_ncmds :: nat
  w_uuids :: nat
  w_sys :: "sysop list"

section \<open>Access to the state\<close>

definition upd_ep :: "ep_ref \<Rightarrow> (NcsiEP \<Rightarrow> NcsiEP) \<Rightarrow> world \<Rightarrow> world" where
  "upd_ep r f w = w\<lparr>w_eps := (w_eps w)(r := f (w_eps w r))\<rparr>"

definition upd_cmd :: "cmd_ref \<Rightarrow> (epCommand \<Rightarrow> epCommand) \<Rightarrow> world \<Rightarrow> world" where
  "upd_cmd c f w = w\<lparr>w_cmds := (w_cmds w)(c := f (w_cmds w c))\<rparr>"

definition upd_ino :: "(LookoutInotify \<Rightarrow> LookoutInotify) \<Rightarrow> world \<Rightarrow> world" where
  "upd_ino f w = w\<lparr>w_lh := (w_lh w)\<lparr>lh_inotify := f (lh_inotify (w_lh w))\<rparr>\<rparr>"

definition sys :: "sysop \<Rightarrow> world \<Rightarrow> world" where
  "sys x w = w\<lparr>w_sys := w_sys w @ [x]\<rparr>"

text \<open>\<open>c := epCommand{...}\<close>: a new command object.\<close>

definition new_cmd :: "epCommand \<Rightarrow> world \<Rightarrow> cmd_ref \<times> world" where
  "new_cmd x w = (w_ncmds w, w\<lparr>w_cmds := (w_cmds w)(w_ncmds w := x), w_ncmds := Suc (w_ncmds w)\<rparr>)"

text \<open>\<open>uuid.New()\<close>.\<close>

definition new_uuid :: "env \<Rightarrow> world \<Rightarrow> uuid \<times> world" where
  "new_uuid e w = (e_uuid_New e (w_uuids w), w\<lparr>w_uuids := Suc (w_uuids w)\<rparr>)"

abbreviation w_ino :: "world \<Rightarrow> LookoutInotify" where "w_ino w \<equiv> lh_inotify (w_lh w)"
abbreviation w_wmap :: "world \<Rightarrow> (i32, ep_ref) gomap" where "w_wmap w \<equiv> ino_wmap (w_ino w)"
abbreviation w_epMap :: "world \<Rightarrow> (uuid, ep_ref) gomap" where "w_epMap w \<equiv> epc_epMap (w_epc w)"
abbreviation w_gen :: "world \<Rightarrow> u64" where "w_gen w \<equiv> lh_lsofGen (w_lh w)"

lemma state_simps [simp]:
  "w_eps (upd_ep r f w) = (w_eps w)(r := f (w_eps w r))"
  "w_cmds (upd_cmd c g w) = (w_cmds w)(c := g (w_cmds w c))"
  "w_lh (upd_ep r f w) = w_lh w" "w_epc (upd_ep r f w) = w_epc w" "w_neps (upd_ep r f w) = w_neps w"
  "w_cmds (upd_ep r f w) = w_cmds w" "w_ncmds (upd_ep r f w) = w_ncmds w"
  "w_uuids (upd_ep r f w) = w_uuids w" "w_sys (upd_ep r f w) = w_sys w"
  "w_lh (upd_cmd c g w) = w_lh w" "w_epc (upd_cmd c g w) = w_epc w" "w_neps (upd_cmd c g w) = w_neps w"
  "w_eps (upd_cmd c g w) = w_eps w" "w_ncmds (upd_cmd c g w) = w_ncmds w"
  "w_uuids (upd_cmd c g w) = w_uuids w" "w_sys (upd_cmd c g w) = w_sys w"
  "w_epc (upd_ino h w) = w_epc w" "w_neps (upd_ino h w) = w_neps w" "w_eps (upd_ino h w) = w_eps w"
  "w_cmds (upd_ino h w) = w_cmds w" "w_ncmds (upd_ino h w) = w_ncmds w"
  "w_uuids (upd_ino h w) = w_uuids w" "w_sys (upd_ino h w) = w_sys w"
  "w_lh (upd_ino h w) = (w_lh w)\<lparr>lh_inotify := h (w_ino w)\<rparr>"
  "w_lh (sys x w) = w_lh w" "w_epc (sys x w) = w_epc w" "w_neps (sys x w) = w_neps w"
  "w_eps (sys x w) = w_eps w" "w_cmds (sys x w) = w_cmds w" "w_ncmds (sys x w) = w_ncmds w"
  "w_uuids (sys x w) = w_uuids w" "w_sys (sys x w) = w_sys w @ [x]"
  by (simp_all add: upd_ep_def upd_cmd_def upd_ino_def sys_def)

section \<open>Well-formed states\<close>

text \<open>
  What the code keeps true of one endpoint \<open>r\<close>:
  \<^item> it is watched exactly in the watched states, then its watch descriptor leads back to it;
    otherwise its descriptor is \<open>-1\<close>;
  \<^item> its generation is not ahead of the scanner's;
  \<^item> at most one command is pending; a pending command belongs to the endpoint; it is never a custom
    command; an identify command is pending only before the endpoint is identified, any other
    command only when the application is known;
  \<^item> the application is known in the states that query it, and its data is of the declared types.
\<close>

definition cmd_ok :: "world \<Rightarrow> ep_ref \<Rightarrow> epCommand \<Rightarrow> bool" where
  "cmd_ok w r c =
     (c_ep c = r \<and> c_op c \<noteq> CustomOp \<and>
      (if c_op c = IdentifyOp then ep_State (w_eps w r) \<in> {EPstateInit, EPstateRemoving}
       else \<exists>a. ep_App (w_eps w r) = Some a \<and> recognized a))"

definition watch_ok :: "world \<Rightarrow> ep_ref \<Rightarrow> bool" where
  "watch_ok w r =
     (let ep = w_eps w r in
      ep_watched ep = isWatchedState (ep_State ep) \<and>
      (if ep_watched ep
       then 0 \<le> sint (ep_wid ep) \<and> map_of (w_wmap w) (ep_wid ep) = Some r
       else ep_wid ep = -1))"

definition app_ok :: "world \<Rightarrow> ep_ref \<Rightarrow> bool" where
  "app_ok w r =
     (let ep = w_eps w r in
      ep_State ep \<noteq> EPstateAny \<and> ep_State ep \<noteq> EPstateUnknown \<and>
      (\<exists>a. ep_App ep = Some a \<and> app_data_ok a \<and>
         (ep_State ep \<in> {EPstateHasIdentity, EPstateRunning, EPstateDown} \<longrightarrow> recognized a)))"

definition pend_ok :: "world \<Rightarrow> ep_ref \<Rightarrow> bool" where
  "pend_ok w r =
     (let ep = w_eps w r in
      mwf (ep_pendingCmds ep) \<and> length (ep_pendingCmds ep) \<le> 1 \<and>
      (\<forall>id c. map_of (ep_pendingCmds ep) id = Some c \<longrightarrow> c < w_ncmds w \<and> cmd_ok w r (w_cmds w c)))"

definition ep_ok :: "world \<Rightarrow> ep_ref \<Rightarrow> bool" where
  "ep_ok w r =
     (watch_ok w r \<and> app_ok w r \<and> pend_ok w r \<and> ep_lsofGen (w_eps w r) \<le> w_gen w \<and>
      map_of (w_epMap w) (ep_Uuid (w_eps w r)) = Some r)"

definition maps_ok :: "world \<Rightarrow> bool" where
  "maps_ok w =
     (ino_ifd (w_ino w) \<noteq> -1 \<and> ino_wd (w_ino w) \<noteq> -1 \<and>
      mwf (w_epMap w) \<and> mwf (w_wmap w) \<and>
      (\<forall>u r. map_of (w_epMap w) u = Some r \<longrightarrow> r < w_neps w \<and> ep_Uuid (w_eps w r) = u) \<and>
      (\<forall>d r. map_of (w_wmap w) d = Some r \<longrightarrow> r < w_neps w \<and> ep_watched (w_eps w r) \<and> ep_wid (w_eps w r) = d))"

definition linv :: "world \<Rightarrow> bool" where
  "linv w = (maps_ok w \<and> (\<forall>r < w_neps w. ep_ok w r))"

end
