(* ===== verification/InotifyWatch.thy ===== *)
theory InotifyWatch
  imports LookoutState
begin

text \<open>
  The watch registry of \<open>lookout.go\<close>: registering an endpoint's output directory with inotify, removing
  it, and finding the endpoint of an event. The mutex of the registry makes each operation atomic.
\<close>

section \<open>The code\<close>

definition EP_PATH_INPUT :: string where "EP_PATH_INPUT = ''/input/''"

definition EP_PATH_OUTPUT :: string where "EP_PATH_OUTPUT = ''/output/''"

definition Xpath :: "env \<Rightarrow> world \<Rightarrow> ep_ref \<Rightarrow> string \<Rightarrow> string" where
  "Xpath e w r p = lh_CTLPath (w_lh w) @ ''/'' @ e_uuid_String e (ep_Uuid (w_eps w r)) @ p"

text \<open>A nil endpoint pointer is \<open>None\<close>.\<close>

definition EpWatchAdd :: "env \<Rightarrow> ep_ref option \<Rightarrow> nat \<Rightarrow> world \<Rightarrow> (goerr option \<times> world) res" where
  "EpWatchAdd e ep events w =
     (if ino_ifd (w_ino w) = -1 \<or> ino_wd (w_ino w) = -1
      then Inl (Exit ''Inotify FDs have not been initialized'')
      else case ep of
        None \<Rightarrow> Inr (Some EINVAL, w)
      | Some r \<Rightarrow>
          if ep_wid (w_eps w r) \<noteq> -1 then Inr (Some EBUSY, w)
          else
            let path = Xpath e w r EP_PATH_OUTPUT;
                w = sys (SysAddWatch path events) w
            in case e_add_watch e path of
                 Inl err \<Rightarrow> Inr (Some err, w)
               | Inr wid \<Rightarrow>
                   if wid < 0 then Inl (Exit ''unix.InotifyAddWatch() succeeded but wid < 0'')
                   else if map_of (w_wmap w) (word_of_int wid) \<noteq> None
                   then Inl (Exit ''ep already exists at wid'')
                   else Inr (None,
                     upd_ino (\<lambda>i. i\<lparr>ino_wmap := mput (word_of_int wid) r (ino_wmap i)\<rparr>)
                       (upd_ep r (\<lambda>x. x\<lparr>ep_wid := word_of_int wid\<rparr>) w)))"

text \<open>The descriptor is reset before it is handed to \<open>unix.InotifyRmWatch\<close>, whose error is ignored.\<close>

definition EpWatchRemove :: "ep_ref option \<Rightarrow> world \<Rightarrow> world res" where
  "EpWatchRemove ep w =
     (case ep of
        None \<Rightarrow> Inl (Exit ''Inotify FDs have not been initialized'')
      | Some r \<Rightarrow>
          if ino_ifd (w_ino w) = -1 \<or> ino_wd (w_ino w) = -1
          then Inl (Exit ''Inotify FDs have not been initialized'')
          else if sint (ep_wid (w_eps w r)) < 0 then Inl (Exit ''ep is not being watched'')
          else case map_of (w_wmap w) (ep_wid (w_eps w r)) of
                 None \<Rightarrow> Inl (Exit ''ep does not exist in map'')
               | Some x \<Rightarrow>
                   if x \<noteq> r then Inl (Exit ''.. this one was expected'')
                   else
                     let w = upd_ino (\<lambda>i. i\<lparr>ino_wmap := mdel (ep_wid (w_eps w r)) (ino_wmap i)\<rparr>) w;
                         w = upd_ep r (\<lambda>x. x\<lparr>ep_wid := -1\<rparr>) w
                     in Inr (sys (SysRmWatch (ep_wid (w_eps w r))) w))"

definition epWatchLookup :: "world \<Rightarrow> i32 \<Rightarrow> ep_ref option" where
  "epWatchLookup w d = map_of (w_wmap w) d"

text \<open>
  What \<open>inotify_add_watch(2)\<close> promises: a watch descriptor is a non-negative \<open>int\<close>. It may be one that is in use:
  another path of a directory that is watched already gets the descriptor of that watch.
\<close>

definition inotify_ok :: "env \<Rightarrow> bool" where
  "inotify_ok e = (\<forall>p d. e_add_watch e p = Inr d \<longrightarrow> 0 \<le> d \<and> d < 2 ^ 31)"

definition refuses :: "env \<Rightarrow> string \<Rightarrow> bool" where
  "refuses e p = (\<exists>err. e_add_watch e p = Inl err)"

text \<open>
  A path the registry cannot take up: the kernel refuses it, or answers with a descriptor that an endpoint has.
\<close>

definition unwatchable :: "env \<Rightarrow> world \<Rightarrow> string \<Rightarrow> bool" where
  "unwatchable e w p =
     (refuses e p \<or> (\<exists>d. e_add_watch e p = Inr d \<and> map_of (w_wmap w) (word_of_int d) \<noteq> None))"

lemma unwatchable_cases:
  "unwatchable e w p = (case e_add_watch e p of Inl _ \<Rightarrow> True | Inr d \<Rightarrow> map_of (w_wmap w) (word_of_int d) \<noteq> None)"
  by (simp add: unwatchable_def refuses_def split: sum.splits)

text \<open>Two paths of one directory.\<close>

definition same_watch :: "env \<Rightarrow> string \<Rightarrow> string \<Rightarrow> bool" where
  "same_watch e p q = (\<exists>d. e_add_watch e p = Inr d \<and> e_add_watch e q = Inr d)"

definition ep_dir :: "env \<Rightarrow> world \<Rightarrow> uuid \<Rightarrow> string" where
  "ep_dir e w u = lh_CTLPath (w_lh w) @ ''/'' @ e_uuid_String e u @ EP_PATH_OUTPUT"

lemma Xpath_output: "Xpath e w r EP_PATH_OUTPUT = ep_dir e w (ep_Uuid (w_eps w r))"
  by (simp add: Xpath_def ep_dir_def)

section \<open>The registry as an interface\<close>

text \<open>
  What the endpoint code needs of the registry: after a successful registration the endpoint is found
  under its descriptor and nobody else's entry has changed; after a removal nothing is found there.
\<close>

locale watch_registry =
  fixes lookup :: "'w \<Rightarrow> i32 \<Rightarrow> ep_ref option"
    and wid :: "'w \<Rightarrow> ep_ref \<Rightarrow> i32"
    and add :: "ep_ref \<Rightarrow> 'w \<Rightarrow> 'w \<Rightarrow> bool"
    and remove :: "ep_ref \<Rightarrow> 'w \<Rightarrow> 'w \<Rightarrow> bool"
  assumes add_lookup: "add r w w' \<Longrightarrow> lookup w' = (lookup w)(wid w' r \<mapsto> r)"
    and add_new: "add r w w' \<Longrightarrow> lookup w (wid w' r) = None"
    and add_wid_other: "add r w w' \<Longrightarrow> q \<noteq> r \<Longrightarrow> wid w' q = wid w q"
    and remove_lookup: "remove r w w' \<Longrightarrow> lookup w' = (lookup w)(wid w r := None)"
    and remove_registered: "remove r w w' \<Longrightarrow> lookup w (wid w r) = Some r"
    and remove_wid_other: "remove r w w' \<Longrightarrow> q \<noteq> r \<Longrightarrow> wid w' q = wid w q"
begin

lemma add_found: "add r w w' \<Longrightarrow> lookup w' (wid w' r) = Some r"
  by (simp add: add_lookup)

lemma add_keeps: "add r w w' \<Longrightarrow> lookup w d = Some q \<Longrightarrow> lookup w' d = Some q"
  using add_new by (fastforce simp: add_lookup)

lemma removed_not_found: "remove r w w' \<Longrightarrow> lookup w' (wid w r) = None"
  by (simp add: remove_lookup)

lemma add_remove: "add r w w' \<Longrightarrow> remove r w' w'' \<Longrightarrow> lookup w'' = lookup w"
  using add_new by (fastforce simp: add_lookup remove_lookup fun_eq_iff)

lemma remove_keeps_other:
  "remove r w w' \<Longrightarrow> lookup w d = Some q \<Longrightarrow> q \<noteq> r \<Longrightarrow> lookup w' d = Some q"
  using remove_registered by (fastforce simp: remove_lookup)

end

definition watch_added :: "env \<Rightarrow> nat \<Rightarrow> ep_ref \<Rightarrow> world \<Rightarrow> world \<Rightarrow> bool" where
  "watch_added e events r w w' = (EpWatchAdd e (Some r) events w = Inr (None, w'))"

definition watch_removed :: "ep_ref \<Rightarrow> world \<Rightarrow> world \<Rightarrow> bool" where
  "watch_removed r w w' = (EpWatchRemove (Some r) w = Inr w')"

interpretation reg: watch_registry epWatchLookup "\<lambda>w r. ep_wid (w_eps w r)" "watch_added e events" watch_removed
  by unfold_locales
    (auto simp: watch_added_def watch_removed_def EpWatchAdd_def EpWatchRemove_def epWatchLookup_def
       Let_def fun_eq_iff split: if_splits sum.splits option.splits)

section \<open>Effects on the state\<close>

text \<open>
  \<open>frame_ep r w w'\<close>: the step from \<open>w\<close> to \<open>w'\<close> changes no endpoint but \<open>r\<close>, no command of another
  endpoint, not the container, and of the handler at most the watch map; references stay allocated
  and effects are only appended.
\<close>

definition frame_ep :: "ep_ref \<Rightarrow> world \<Rightarrow> world \<Rightarrow> bool" where
  "frame_ep r w w' =
     (w_neps w' = w_neps w \<and> w_epc w' = w_epc w \<and>
      (w_lh w')\<lparr>lh_inotify := w_ino w\<rparr> = w_lh w \<and>
      ino_ifd (w_ino w') = ino_ifd (w_ino w) \<and> ino_wd (w_ino w') = ino_wd (w_ino w) \<and>
      (\<forall>q. q \<noteq> r \<longrightarrow> w_eps w' q = w_eps w q) \<and> ep_Uuid (w_eps w' r) = ep_Uuid (w_eps w r) \<and>
      ep_lsofGen (w_eps w' r) = ep_lsofGen (w_eps w r) \<and>
      (\<forall>c < w_ncmds w. c_ep (w_cmds w c) \<noteq> r \<longrightarrow> w_cmds w' c = w_cmds w c) \<and>
      (\<forall>c < w_ncmds w. c_ep (w_cmds w c) = r \<longrightarrow> c_ep (w_cmds w' c) = r) \<and>
      w_ncmds w \<le> w_ncmds w' \<and> w_uuids w \<le> w_uuids w' \<and> (\<exists>t. w_sys w' = w_sys w @ t))"

lemma frame_ep_refl [simp]: "frame_ep r w w"
  by (simp add: frame_ep_def)

lemma frame_ep_trans: "frame_ep r w w' \<Longrightarrow> frame_ep r w' w'' \<Longrightarrow> frame_ep r w w''"
  unfolding frame_ep_def
  by (elim conjE exE, intro conjI) (auto, (metis LookoutHandler.surjective LookoutHandler.update_convs(6))?)

end
