(* ===== verification/Endpoint.thy ===== *)
theory Endpoint
  imports InotifyWatch
begin

text \<open>
  The endpoint of \<open>pkg/monitor/ctl_interface.go\<close>: its state changes, its command queue, the completion
  of a command, the clean-up of its files and its poll. Logging has no effect on the state; a log
  call at level \<open>FATAL\<close> is a halt.
\<close>

section \<open>Watching\<close>

definition ensureWatchedState :: "ep_ref \<Rightarrow> world \<Rightarrow> unit res" where
  "ensureWatchedState r w =
     (if ep_watched (w_eps w r) \<noteq> isWatchedState (ep_State (w_eps w r))
      then Inl (Exit ''invalid state for being watched'') else Inr ())"

definition watchCtl :: "env \<Rightarrow> ep_ref \<Rightarrow> Epstate \<Rightarrow> world \<Rightarrow> world res" where
  "watchCtl e r newState w =
     (let iws = isWatchedState newState in
      if iws = ep_watched (w_eps w r) then Inr w
      else
        bindr (if iws
               then bindr (EpWatchAdd e (Some r) (IN_MOVE_SELF + IN_MOVED_TO) w) (\<lambda>(err, w).
                      case err of None \<Rightarrow> Inr w | Some er \<Rightarrow> Inl (Exit ''ep.lh.EpWatchAdd()''))
               else EpWatchRemove (Some r) w) (\<lambda>w.
        Inr (upd_ep r (\<lambda>x. x\<lparr>ep_watched := iws\<rparr>) w)))"

definition ChangeState :: "env \<Rightarrow> ep_ref \<Rightarrow> Epstate \<Rightarrow> world \<Rightarrow> world res" where
  "ChangeState e r s w =
     (if s = EPstateAny then Inl (Exit ''any is not a settable state'')
      else if s \<noteq> ep_State (w_eps w r) then
        bindr (ensureWatchedState r w) (\<lambda>_.
        bindr (watchCtl e r s w) (\<lambda>w.
        let w = upd_ep r (\<lambda>x. x\<lparr>ep_State := s\<rparr>) w in
        Inr (if s \<in> {EPstateInit, EPstateRunning, EPstateHasIdentity}
             then upd_ep r (\<lambda>x. x\<lparr>ep_LastSeen := e_now e\<rparr>) w else w)))
      else Inr w)"

section \<open>Generations and timeouts\<close>

definition LsofGenUpdate :: "ep_ref \<Rightarrow> u64 \<Rightarrow> world \<Rightarrow> world res" where
  "LsofGenUpdate r gen w =
     (if ep_lsofGen (w_eps w r) > gen then Inl (Exit ''ep_gen is > '')
      else if ep_lsofGen (w_eps w r) = gen then Inr w
      else Inr (upd_ep r (\<lambda>x. x\<lparr>ep_lsofGen := gen\<rparr>) w))"

definition LsofGenIsStale :: "world \<Rightarrow> ep_ref \<Rightarrow> bool" where
  "LsofGenIsStale w r = (ep_lsofGen (w_eps w r) + 1 < w_gen w)"

definition LastSeenIsStale :: "env \<Rightarrow> world \<Rightarrow> ep_ref \<Rightarrow> bool" where
  "LastSeenIsStale e w r = (e_now e - ep_LastSeen (w_eps w r) > EPtimeout)"

section \<open>Commands\<close>

definition getOutFnam :: "env \<Rightarrow> world \<Rightarrow> cmd_ref \<Rightarrow> string" where
  "getOutFnam e w c =
     Xpath e w (c_ep (w_cmds w c)) EP_PATH_OUTPUT @ LookoutPrefixStr @ e_uuid_String e (c_id (w_cmds w c))"

definition getInFnam :: "env \<Rightarrow> world \<Rightarrow> cmd_ref \<Rightarrow> string" where
  "getInFnam e w c =
     Xpath e w (c_ep (w_cmds w c)) EP_PATH_INPUT @ LookoutPrefixStr @ e_uuid_String e (c_id (w_cmds w c))"

definition checkOutFile :: "env \<Rightarrow> world \<Rightarrow> cmd_ref \<Rightarrow> goerr option" where
  "checkOutFile e w c =
     (case e_stat e (getOutFnam e w c) of
        Inl err \<Rightarrow> Some err
      | Inr stb \<Rightarrow> if st_Size stb > maxOutFileSize then Some E2BIG else None)"

definition loadOutfile :: "env \<Rightarrow> cmd_ref \<Rightarrow> world \<Rightarrow> world" where
  "loadOutfile e c w =
     (case checkOutFile e w c of
        Some err \<Rightarrow> upd_cmd c (\<lambda>x. x\<lparr>c_err := Some err\<rparr>) w
      | None \<Rightarrow>
          (case e_read e (getOutFnam e w c) of
             Inl err \<Rightarrow> upd_cmd c (\<lambda>x. x\<lparr>c_err := Some err, c_outJSON := []\<rparr>) w
           | Inr out \<Rightarrow> upd_cmd c (\<lambda>x. x\<lparr>c_err := None, c_outJSON := out\<rparr>) w))"

definition addCmd :: "env \<Rightarrow> ep_ref \<Rightarrow> cmd_ref \<Rightarrow> world \<Rightarrow> goerr option \<times> world" where
  "addCmd e r c w =
     (let q = c_ep (w_cmds w c); id = c_id (w_cmds w c)
      in if map_of (ep_pendingCmds (w_eps w q)) id = None
         then (None,
               upd_ep q (\<lambda>x. x\<lparr>ep_pendingCmds := mput id c (ep_pendingCmds x)\<rparr>)
                 (upd_cmd c (\<lambda>x. x\<lparr>c_start := e_now e\<rparr>) w))
         else (Some EEXIST, w))"

definition prep :: "env \<Rightarrow> cmd_ref \<Rightarrow> world \<Rightarrow> world" where
  "prep e c w =
     (let (u, w) = new_uuid e w;
          w = upd_cmd c (\<lambda>x. x\<lparr>c_id := u\<rparr>) w;
          w = upd_cmd c (\<lambda>x. x\<lparr>c_cmd := c_cmd x @ nl @ ''OUTFILE /'' @ LookoutPrefixStr @
                                e_uuid_String e (c_id x) @ nl\<rparr>) w
      in snd (addCmd e (c_ep (w_cmds w c)) c w))"

definition cmdIsStale :: "env \<Rightarrow> epCommand \<Rightarrow> bool" where
  "cmdIsStale e c = (e_now e - c_start c > EPtimeout)"

definition mayQueueCmd :: "world \<Rightarrow> ep_ref \<Rightarrow> bool" where
  "mayQueueCmd w r = (length (ep_pendingCmds (w_eps w r)) = 0)"

definition submit :: "env \<Rightarrow> cmd_ref \<Rightarrow> world \<Rightarrow> world" where
  "submit e c w =
     (if \<not> mayQueueCmd w (c_ep (w_cmds w c)) then w
      else
        let w = prep e c w;
            fnam = getInFnam e w c;
            buf = c_cmd (w_cmds w c);
            w = sys (SysWriteFile fnam buf) w
        in upd_cmd c (\<lambda>x. x\<lparr>c_err := e_write e fnam buf\<rparr>) w)"

definition removeCmd :: "env \<Rightarrow> ep_ref \<Rightarrow> uuid \<Rightarrow> bool \<Rightarrow> world \<Rightarrow> cmd_ref option \<times> world" where
  "removeCmd e r cmdUUID force w =
     (case map_of (ep_pendingCmds (w_eps w r)) cmdUUID of
        None \<Rightarrow> (None, w)
      | Some c \<Rightarrow>
          (Some c,
           if force \<or> cmdIsStale e (w_cmds w c)
           then upd_ep r (\<lambda>x. x\<lparr>ep_pendingCmds := mdel cmdUUID (ep_pendingCmds x)\<rparr>) w else w))"

text \<open>Removing while ranging over the map; the outcome does not depend on the visiting order.\<close>

definition flushCmds :: "env \<Rightarrow> ep_ref \<Rightarrow> bool \<Rightarrow> uuid list \<Rightarrow> world \<Rightarrow> world" where
  "flushCmds e r force ids w = fold (\<lambda>x w. snd (removeCmd e r x force w)) ids w"

definition flushStaleCmds :: "env \<Rightarrow> ep_ref \<Rightarrow> world \<Rightarrow> world" where
  "flushStaleCmds e r w = flushCmds e r False (map fst (ep_pendingCmds (w_eps w r))) w"

definition flushAllCmds :: "env \<Rightarrow> ep_ref \<Rightarrow> world \<Rightarrow> world" where
  "flushAllCmds e r w = flushCmds e r True (map fst (ep_pendingCmds (w_eps w r))) w"

text \<open>
  \<open>queryApp\<close>: \<open>cmd\<close> is one variable, whose address goes into \<open>pendingCmds\<close>; assigning the second
  command to it overwrites the object the map points to.
\<close>

definition queryApp :: "env \<Rightarrow> ep_ref \<Rightarrow> world \<Rightarrow> (goerr option \<times> world) res" where
  "queryApp e r w =
     (case ep_App (w_eps w r) of
        None \<Rightarrow> Inl nil_deref
      | Some a \<Rightarrow>
          let (cmdStr, op) = GetAppDetectInfo a False;
              (cmd, w) = new_cmd \<lparr>c_ep = r, c_cmd = cmdStr, c_id = 0, c_outJSON = [], c_err = None,
                                  c_op = op, c_start = zero_time\<rparr> w;
              w = submit e cmd w
          in if c_err (w_cmds w cmd) \<noteq> None \<and> c_op (w_cmds w cmd) = SystemInfoOp then
               let (cmdStr, op) = GetAppDetectInfo a True;
                   w = upd_cmd cmd (\<lambda>_. \<lparr>c_ep = r, c_cmd = cmdStr, c_id = 0, c_outJSON = [], c_err = None,
                                          c_op = op, c_start = zero_time\<rparr>) w;
                   w = submit e cmd w
               in Inr (c_err (w_cmds w cmd), w)
             else Inr (None, w))"

section \<open>Completion\<close>

definition update :: "env \<Rightarrow> ep_ref \<Rightarrow> CtlIfOut \<Rightarrow> world \<Rightarrow> world res" where
  "update e r ctlData w =
     (case ep_App (w_eps w r) of
        None \<Rightarrow> Inl nil_deref
      | Some a \<Rightarrow>
          let a = SetCtlIfOut ctlData a;
              w = upd_ep r (\<lambda>x. x\<lparr>ep_App := Some a, ep_EPInfo := GetCtlIfOut a, ep_LastSeen := e_now e\<rparr>) w
          in if ep_State (w_eps w r) \<noteq> EPstateRunning then ChangeState e r EPstateRunning w else Inr w)"

text \<open>
  The success branch of \<open>IdentifyOp\<close>; \<open>ep.Uuid.String()[:6]\<close> on a string of 36 bytes.
\<close>

definition set_identity :: "env \<Rightarrow> ep_ref \<Rightarrow> App \<Rightarrow> world \<Rightarrow> world" where
  "set_identity e r a w =
     upd_ep r (\<lambda>x.
       let a = SetUUID (ep_Uuid x) a;
           svc = GetAppName a;
           name = GetAltName a
       in x\<lparr>ep_App := Some a, ep_NiovaSvcType := svc,
            ep_Name := (if name = [] then svc @ ''-'' @ take 6 (e_uuid_String e (ep_Uuid x)) else name)\<rparr>) w"

text \<open>
  \<open>output\<close> is what the pointer parameter leads to, \<open>None\<close> for a nil pointer; the result holds the error
  returned and what the pointer leads to afterwards.
\<close>

definition Complete ::
  "env \<Rightarrow> ep_ref \<Rightarrow> uuid \<Rightarrow> string option \<Rightarrow> world \<Rightarrow> ((goerr option \<times> string option) \<times> world) res" where
  "Complete e r cmdUuid output w =
     (let (c, w) = removeCmd e r cmdUuid True w
      in case c of
        None \<Rightarrow> Inr ((Some ENOENT, output), w)
      | Some c \<Rightarrow>
          let w = loadOutfile e c w
          in if c_err (w_cmds w c) \<noteq> None then Inr ((c_err (w_cmds w c), output), w)
             else
               bindr (if ep_State (w_eps w r) = EPstateDown then ChangeState e r EPstateRunning w
                      else Inr w) (\<lambda>w.
               let out = c_outJSON (w_cmds w c)
               in case c_op (w_cmds w c) of
                    CustomOp \<Rightarrow>
                      (case output of
                         None \<Rightarrow> Inl nil_deref
                       | Some _ \<Rightarrow> Inr ((None, Some out), w))
                  | IdentifyOp \<Rightarrow>
                      (let (a, err) = DetermineApp e out
                       in case err of
                            None \<Rightarrow>
                              bindr (ChangeState e r EPstateHasIdentity (set_identity e r a w)) (\<lambda>w.
                              bindr (queryApp e r w) (\<lambda>(_, w). Inr ((None, output), w)))
                          | Some _ \<Rightarrow>
                              Inr ((None, output), upd_ep r (\<lambda>x. x\<lparr>ep_App := Some a\<rparr>) w))
                  | RaftInfoOp \<Rightarrow> Inr ((None, output), w)
                  | _ \<Rightarrow>
                      (case Unmarshal_ctl e out of
                         Inl err \<Rightarrow> Inr ((Some err, output), w)
                       | Inr ctl \<Rightarrow> bindr (update e r ctl w) (\<lambda>w. Inr ((None, output), w)))))"

section \<open>Stale files\<close>

definition remove_file :: "env \<Rightarrow> string \<Rightarrow> string \<Rightarrow> world \<Rightarrow> world" where
  "remove_file e folder name w =
     (if \<not> Contains name LookoutPrefixStr then w
      else case e_stat e (folder @ name) of
             Inl _ \<Rightarrow> w
           | Inr info \<Rightarrow>
               if e_now e > st_ModTime info + OutfileTtl then sys (SysRemove (folder @ name)) w else w)"

definition removeFiles :: "env \<Rightarrow> string \<Rightarrow> world \<Rightarrow> world" where
  "removeFiles e folder w =
     (case e_readdir e folder of
        Inl _ \<Rightarrow> w
      | Inr files \<Rightarrow> fold (\<lambda>file w. remove_file e folder (fst file) w) files w)"

definition RemoveStaleFiles :: "env \<Rightarrow> ep_ref \<Rightarrow> world \<Rightarrow> world" where
  "RemoveStaleFiles e r w =
     (if isWatchedState (ep_State (w_eps w r)) then
        removeFiles e (Xpath e w r EP_PATH_OUTPUT) (removeFiles e (Xpath e w r EP_PATH_INPUT) w)
      else w)"

section \<open>Polling\<close>

definition Poll :: "env \<Rightarrow> ep_ref \<Rightarrow> world \<Rightarrow> (goerr option \<times> world) res" where
  "Poll e r w =
     (case ep_State (w_eps w r) of
        EPstateInit \<Rightarrow>
          (let (u, w) = new_uuid e w;
               (c, w) = new_cmd \<lparr>c_ep = r, c_cmd = ''GET /.*'', c_id = u, c_outJSON = [], c_err = None,
                                 c_op = IdentifyOp, c_start = zero_time\<rparr> w
           in Inr (None, submit e c w))
      | EPstateHasIdentity \<Rightarrow> queryApp e r w
      | EPstateRunning \<Rightarrow>
          if ep_App (w_eps w r) = None then Inr (Some (ErrorString ''Running ep has nil app''), w)
          else
            bindr (queryApp e r w) (\<lambda>(err, w).
            if LastSeenIsStale e w r \<and> ep_State (w_eps w r) = EPstateRunning
            then bindr (ChangeState e r EPstateDown w) (\<lambda>w. Inr (err, w))
            else Inr (err, w))
      | EPstateDown \<Rightarrow>
          if LastSeenIsStale e w r then queryApp e r w else Inr (None, w)
      | _ \<Rightarrow> Inr (None, w))"

end
