(* ===== verification/EndpointInv.thy ===== *)
theory EndpointInv
  imports Endpoint
begin

text \<open>
  The operations of an endpoint keep the state well-formed, touch nothing but their endpoint, and do
  not halt except when an output directory cannot be watched.
\<close>

section \<open>Steps that change at most the queue and the commands of one endpoint\<close>

definition calm :: "ep_ref \<Rightarrow> world \<Rightarrow> world \<Rightarrow> bool" where
  "calm r w w' =
     (frame_ep r w w' \<and> w_wmap w' = w_wmap w \<and>
      (\<exists>p. w_eps w' r = (w_eps w r)\<lparr>ep_pendingCmds := p\<rparr>))"

lemma calm_refl [simp]: "calm r w w"
  by (auto simp: calm_def intro: exI [of _ "ep_pendingCmds (w_eps w r)"])

lemma calm_trans: "calm r w w' \<Longrightarrow> calm r w' w'' \<Longrightarrow> calm r w w''"
  by (auto simp: calm_def intro: frame_ep_trans)

lemma calm_frame: "calm r w w' \<Longrightarrow> frame_ep r w w'"
  by (simp add: calm_def)

lemma calm_fields:
  assumes "calm r w w'"
  shows "ep_State (w_eps w' r) = ep_State (w_eps w r)" "ep_App (w_eps w' r) = ep_App (w_eps w r)"
    "ep_watched (w_eps w' r) = ep_watched (w_eps w r)" "ep_wid (w_eps w' r) = ep_wid (w_eps w r)"
    "ep_Uuid (w_eps w' r) = ep_Uuid (w_eps w r)" "ep_LastSeen (w_eps w' r) = ep_LastSeen (w_eps w r)"
    "ep_EPInfo (w_eps w' r) = ep_EPInfo (w_eps w r)" "ep_lsofGen (w_eps w' r) = ep_lsofGen (w_eps w r)"
    "w_wmap w' = w_wmap w" "w_neps w' = w_neps w" "w_epc w' = w_epc w" "w_gen w' = w_gen w"
    "lh_CTLPath (w_lh w') = lh_CTLPath (w_lh w)" "w_ino w' = w_ino w"
proof -
  obtain p where "w_eps w' r = (w_eps w r)\<lparr>ep_pendingCmds := p\<rparr>" and f: "frame_ep r w w'"
    and m: "w_wmap w' = w_wmap w" using assms by (auto simp: calm_def)
  then show "ep_State (w_eps w' r) = ep_State (w_eps w r)" "ep_App (w_eps w' r) = ep_App (w_eps w r)"
    "ep_watched (w_eps w' r) = ep_watched (w_eps w r)" "ep_wid (w_eps w' r) = ep_wid (w_eps w r)"
    "ep_Uuid (w_eps w' r) = ep_Uuid (w_eps w r)" "ep_LastSeen (w_eps w' r) = ep_LastSeen (w_eps w r)"
    "ep_EPInfo (w_eps w' r) = ep_EPInfo (w_eps w r)" "ep_lsofGen (w_eps w' r) = ep_lsofGen (w_eps w r)"
    "w_wmap w' = w_wmap w" "w_neps w' = w_neps w" "w_epc w' = w_epc w"
    by (simp_all add: frame_ep_def)
  have lh: "(w_lh w')\<lparr>lh_inotify := w_ino w\<rparr> = w_lh w" using f by (simp add: frame_ep_def)
  show "w_gen w' = w_gen w" "lh_CTLPath (w_lh w') = lh_CTLPath (w_lh w)"
    using arg_cong [OF lh, of lh_lsofGen] arg_cong [OF lh, of lh_CTLPath] by simp_all
  show "w_ino w' = w_ino w" using f m by (simp add: frame_ep_def LookoutInotify.equality)
qed

lemma frame_gen: "frame_ep r w w' \<Longrightarrow> w_gen w' = w_gen w"
  unfolding frame_ep_def by (metis LookoutHandler.select_convs(4) LookoutHandler.surjective LookoutHandler.update_convs(6))

text \<open>
  Putting a well-formed state together again after a step of endpoint \<open>r\<close>: \<open>r\<close> itself is well-formed,
  the registry has changed for \<open>r\<close> only.
\<close>

lemma pend_ok_frame:
  assumes "frame_ep r w w'" and "q \<noteq> r" and "pend_ok w q"
  shows "pend_ok w' q"
proof -
  have ep: "w_eps w' q = w_eps w q" using assms(1,2) by (simp add: frame_ep_def)
  have "c < w_ncmds w' \<and> cmd_ok w' q (w_cmds w' c)"
    if "map_of (ep_pendingCmds (w_eps w q)) id = Some c" for id c
  proof -
    from assms(3) that have c: "c < w_ncmds w" "cmd_ok w q (w_cmds w c)"
      by (auto simp: pend_ok_def Let_def)
    then have "w_cmds w' c = w_cmds w c" "c < w_ncmds w'"
      using assms(1,2) by (auto simp: frame_ep_def cmd_ok_def)
    with c ep show ?thesis by (simp add: cmd_ok_def split: if_splits)
  qed
  with assms(3) ep show ?thesis by (simp add: pend_ok_def Let_def)
qed

lemma inv_frame:
  assumes linv: "linv w" and r: "r < w_neps w" and fr: "frame_ep r w w'" and ok: "ep_ok w' r"
    and wf: "mwf (w_wmap w')"
    and reg: "\<And>d q. map_of (w_wmap w') d = Some q \<longleftrightarrow>
        (if q = r then ep_watched (w_eps w' r) \<and> ep_wid (w_eps w' r) = d else map_of (w_wmap w) d = Some q)"
  shows "linv w'"
proof -
  have same: "w_eps w' q = w_eps w q" if "q \<noteq> r" for q using fr that by (simp add: frame_ep_def)
  have m: "w_neps w' = w_neps w" "w_epMap w' = w_epMap w" "w_gen w' = w_gen w"
    "ep_Uuid (w_eps w' r) = ep_Uuid (w_eps w r)"
    "ino_ifd (w_ino w') = ino_ifd (w_ino w)" "ino_wd (w_ino w') = ino_wd (w_ino w)"
    using fr frame_gen [OF fr] by (auto simp: frame_ep_def)
  have "ep_ok w' q" if q: "q < w_neps w" "q \<noteq> r" for q
  proof -
    have okq: "ep_ok w q" using linv q by (simp add: linv_def)
    have "watch_ok w' q" "app_ok w' q"
      using okq q(2) m by (auto simp: ep_ok_def watch_ok_def app_ok_def Let_def same reg)
    moreover have "pend_ok w' q"
      using okq pend_ok_frame [OF fr q(2)] by (simp add: ep_ok_def)
    ultimately show ?thesis using okq q(2) by (simp add: ep_ok_def same m)
  qed
  then have "\<forall>q < w_neps w'. ep_ok w' q" using ok m by metis
  moreover have "maps_ok w'"
    using linv r wf same reg by (simp add: linv_def maps_ok_def m) (metis m(4))
  ultimately show ?thesis by (simp add: linv_def)
qed

lemma inv_reg:
  assumes "linv w"
  shows "map_of (w_wmap w) d = Some q \<longleftrightarrow> q < w_neps w \<and> ep_watched (w_eps w q) \<and> ep_wid (w_eps w q) = d"
proof -
  have "maps_ok w" "q < w_neps w \<Longrightarrow> watch_ok w q" using assms by (auto simp: linv_def ep_ok_def)
  then show ?thesis by (auto simp: maps_ok_def watch_ok_def Let_def)
qed

lemma inv_same_watch:
  assumes linv: "linv w" and r: "r < w_neps w" and fr: "frame_ep r w w'"
    and "w_wmap w' = w_wmap w" and "ep_watched (w_eps w' r) = ep_watched (w_eps w r)"
    and "ep_wid (w_eps w' r) = ep_wid (w_eps w r)"
    and "ep_watched (w_eps w' r) = isWatchedState (ep_State (w_eps w' r))"
    and "app_ok w' r" and "pend_ok w' r"
  shows "linv w'"
proof (rule inv_frame [OF linv r fr])
  have ok: "ep_ok w r" using linv r by (simp add: linv_def)
  have "ino_wd (w_ino w') = ino_wd (w_ino w)" using fr by (simp add: frame_ep_def)
  then have "watch_ok w' r" using ok assms by (auto simp: ep_ok_def watch_ok_def Let_def)
  with ok assms frame_gen [OF fr] show "ep_ok w' r"
    by (auto simp: ep_ok_def frame_ep_def)
  show "mwf (w_wmap w')" using linv assms by (simp add: linv_def maps_ok_def)
  show "map_of (w_wmap w') d = Some q \<longleftrightarrow>
      (if q = r then ep_watched (w_eps w' r) \<and> ep_wid (w_eps w' r) = d else map_of (w_wmap w) d = Some q)"
    for d q using assms inv_reg [OF linv, of d q] by auto
qed

lemma inv_calm:
  assumes "linv w" and "r < w_neps w" and "calm r w w'" and "pend_ok w' r"
  shows "linv w'"
proof (rule inv_same_watch [OF assms(1,2)])
  have ok: "ep_ok w r" using assms by (simp add: linv_def)
  note f = calm_fields [OF assms(3)]
  show "frame_ep r w w'" by (rule calm_frame [OF assms(3)])
  show "app_ok w' r" using ok by (simp add: ep_ok_def app_ok_def f Let_def)
  show "ep_watched (w_eps w' r) = isWatchedState (ep_State (w_eps w' r))"
    using ok by (simp add: ep_ok_def watch_ok_def f Let_def)
qed (use assms calm_fields [OF assms(3)] in simp_all)

section \<open>Commands\<close>

lemma upd_cmd_pend_ok:
  assumes "pend_ok w r" and "\<And>x. c_ep (f x) = c_ep x" and "\<And>x. c_op (f x) = c_op x"
  shows "pend_ok (upd_cmd c f w) r"
  using assms by (fastforce simp: pend_ok_def Let_def cmd_ok_def split: if_splits)

lemma upd_cmd_calm:
  assumes "c_ep (w_cmds w c) = r" and "c_ep (f (w_cmds w c)) = r"
  shows "calm r w (upd_cmd c f w)"
  using assms by (auto simp: calm_def frame_ep_def intro: exI [of _ "ep_pendingCmds (w_eps w r)"])

lemma new_cmd_calm:
  assumes "new_cmd x w = (c, w')"
  shows "calm r w w'" "c = w_ncmds w" "w_ncmds w' = Suc (w_ncmds w)" "w_cmds w' c = x"
    "w_eps w' = w_eps w" "w_uuids w' = w_uuids w"
  using assms
  by (auto simp: new_cmd_def calm_def frame_ep_def intro: exI [of _ "ep_pendingCmds (w_eps w r)"])

lemma new_cmd_pend_ok: "new_cmd x w = (c, w') \<Longrightarrow> pend_ok w r \<Longrightarrow> pend_ok w' r"
  by (fastforce simp: new_cmd_def pend_ok_def Let_def cmd_ok_def split: if_splits)

lemma new_uuid_calm:
  assumes "new_uuid e w = (u, w')"
  shows "calm r w w'" "u = e_uuid_New e (w_uuids w)" "w_eps w' = w_eps w" "w_cmds w' = w_cmds w"
    "w_ncmds w' = w_ncmds w" "w_uuids w' = Suc (w_uuids w)"
  using assms
  by (auto simp: new_uuid_def calm_def frame_ep_def intro: exI [of _ "ep_pendingCmds (w_eps w r)"])

lemma new_uuid_pend_ok: "new_uuid e w = (u, w') \<Longrightarrow> pend_ok w r \<Longrightarrow> pend_ok w' r"
  by (fastforce simp: new_uuid_def pend_ok_def Let_def cmd_ok_def split: if_splits)

text \<open>
  Submitting a command when the queue is empty: afterwards the queue holds exactly this command under
  a fresh uuid, its text is completed with the output file, and it is written to the input file of
  that uuid. Otherwise nothing happens.
\<close>

definition outfile_line :: "env \<Rightarrow> uuid \<Rightarrow> string" where
  "outfile_line e u = nl @ ''OUTFILE /'' @ LookoutPrefixStr @ e_uuid_String e u @ nl"

lemma submit_busy: "ep_pendingCmds (w_eps w (c_ep (w_cmds w c))) \<noteq> [] \<Longrightarrow> submit e c w = w"
  by (simp add: submit_def mayQueueCmd_def)

lemma submit_idle:
  fixes e :: env and w :: world and r :: ep_ref and c :: cmd_ref
  assumes "ep_pendingCmds (w_eps w r) = []" and "c_ep (w_cmds w c) = r"
  defines "u \<equiv> e_uuid_New e (w_uuids w)"
  defines "fnam \<equiv> Xpath e w r EP_PATH_INPUT @ LookoutPrefixStr @ e_uuid_String e u"
  defines "buf \<equiv> c_cmd (w_cmds w c) @ outfile_line e u"
  shows "submit e c w = w\<lparr>w_uuids := Suc (w_uuids w),
      w_eps := (w_eps w)(r := (w_eps w r)\<lparr>ep_pendingCmds := [(u, c)]\<rparr>),
      w_sys := w_sys w @ [SysWriteFile fnam buf],
      w_cmds := (w_cmds w)(c := (w_cmds w c)\<lparr>c_id := u, c_cmd := buf, c_start := e_now e,
                                 c_err := e_write e fnam buf\<rparr>)\<rparr>"
  using assms(1,2) unfolding assms(3-5)
  by (simp add: submit_def mayQueueCmd_def prep_def addCmd_def new_uuid_def getInFnam_def Xpath_def
      outfile_line_def Let_def upd_ep_def upd_cmd_def sys_def)

lemma submit_calm:
  assumes "c_ep (w_cmds w c) = r"
  shows "calm r w (submit e c w)"
proof (cases "ep_pendingCmds (w_eps w r) = []")
  case True
  then show ?thesis
    by (auto simp: submit_idle [OF True assms] calm_def frame_ep_def assms)
next
  case False
  with assms show ?thesis by (simp add: submit_busy)
qed

lemma submit_pend_ok:
  assumes "pend_ok w r" and "c < w_ncmds w" and "cmd_ok w r (w_cmds w c)"
  shows "pend_ok (submit e c w) r"
proof (cases "ep_pendingCmds (w_eps w r) = []")
  case True
  have c: "c_ep (w_cmds w c) = r" using assms(3) by (simp add: cmd_ok_def)
  show ?thesis using assms(2,3)
    by (auto simp: submit_idle [OF True c] pend_ok_def Let_def mwf_def cmd_ok_def split: if_splits)
next
  case False
  with assms show ?thesis by (simp add: submit_busy cmd_ok_def)
qed

lemma submit_cmd:
  "c_ep (w_cmds (submit e c w) c) = c_ep (w_cmds w c)" "c_op (w_cmds (submit e c w) c) = c_op (w_cmds w c)"
  "w_ncmds (submit e c w) = w_ncmds w"
  by (cases "ep_pendingCmds (w_eps w (c_ep (w_cmds w c))) = []"; simp add: submit_busy submit_idle)+

lemma removeCmd_calm: "calm r w (snd (removeCmd e r u force w))"
  by (auto simp: removeCmd_def calm_def frame_ep_def upd_ep_def split: option.splits
      intro: exI [of _ "ep_pendingCmds (w_eps w r)"])

lemma removeCmd_pend_ok: "pend_ok w r \<Longrightarrow> pend_ok (snd (removeCmd e r u force w)) r"
  using length_mdel_le [of u "ep_pendingCmds (w_eps w r)"]
  by (auto simp: removeCmd_def pend_ok_def Let_def cmd_ok_def split: option.splits if_splits)

text \<open>A completed or forcibly removed command leaves the queue empty: there was at most this one.\<close>

lemma removeCmd_Some:
  assumes "pend_ok w r" and "removeCmd e r u True w = (Some c, w')"
  shows "ep_pendingCmds (w_eps w' r) = []" "c < w_ncmds w" "cmd_ok w r (w_cmds w c)"
    "w_cmds w' = w_cmds w" "w_ncmds w' = w_ncmds w" "w_uuids w' = w_uuids w"
proof -
  from assms(2) have c: "map_of (ep_pendingCmds (w_eps w r)) u = Some c"
    and w': "w' = upd_ep r (\<lambda>x. x\<lparr>ep_pendingCmds := mdel u (ep_pendingCmds x)\<rparr>) w"
    by (auto simp: removeCmd_def split: option.splits)
  then show "c < w_ncmds w" "cmd_ok w r (w_cmds w c)" "w_cmds w' = w_cmds w" "w_ncmds w' = w_ncmds w"
    "w_uuids w' = w_uuids w"
    using assms(1) by (auto simp: pend_ok_def Let_def)
  have "length (mdel u (ep_pendingCmds (w_eps w r))) = 0"
    by (rule gm.len_1_del) (use assms(1) c in \<open>auto simp: pend_ok_def Let_def\<close>)
  then show "ep_pendingCmds (w_eps w' r) = []" by (simp add: w')
qed

lemma removeCmd_None: "removeCmd e r u force w = (None, w') \<Longrightarrow>
    map_of (ep_pendingCmds (w_eps w r)) u = None \<and> w' = w"
  by (auto simp: removeCmd_def split: option.splits)

lemma flushCmds_calm: "calm r w (flushCmds e r force ids w)"
proof (induction ids arbitrary: w)
  case (Cons u ids)
  show ?case
    using calm_trans [OF removeCmd_calm Cons.IH] by (simp add: flushCmds_def)
qed (simp add: flushCmds_def)

lemma flushCmds_pend_ok: "pend_ok w r \<Longrightarrow> pend_ok (flushCmds e r force ids w) r"
proof (induction ids arbitrary: w)
  case (Cons u ids)
  show ?case
    using Cons.IH [OF removeCmd_pend_ok [OF Cons.prems]] by (simp add: flushCmds_def)
qed (simp add: flushCmds_def)

lemma upd_ep_id: "f (w_eps w r) = w_eps w r \<Longrightarrow> upd_ep r f w = w"
  by (simp add: upd_ep_def)

lemma upd_ep_upd_ep: "upd_ep r f (upd_ep r g w) = upd_ep r (\<lambda>x. f (g x)) w"
  by (simp add: upd_ep_def)

lemma upd_ep_cong: "f (w_eps w r) = g (w_eps w r) \<Longrightarrow> upd_ep r f w = upd_ep r g w"
  by (simp add: upd_ep_def)

text \<open>Ranging over the queue removes exactly the stale (or, when forced, all) visited commands.\<close>

lemma removeCmd_eq:
  assumes "mwf (ep_pendingCmds (w_eps w r))"
  shows "snd (removeCmd e r u force w) = upd_ep r (\<lambda>x. x\<lparr>ep_pendingCmds :=
      filter (\<lambda>(k, c). \<not> (k = u \<and> (force \<or> cmdIsStale e (w_cmds w c)))) (ep_pendingCmds x)\<rparr>) w"
    (is "_ = upd_ep r (\<lambda>x. x\<lparr>ep_pendingCmds := filter ?P (ep_pendingCmds x)\<rparr>) w")
proof -
  let ?p = "ep_pendingCmds (w_eps w r)"
  have uniq: "c' = c" if "map_of ?p u = Some c" "(u, c') \<in> set ?p" for c c'
    using that assms by (metis map_of_eq_Some_iff mwf_def option.inject)
  have id: "filter ?P ?p = ?p" if "\<not> (\<exists>c. map_of ?p u = Some c \<and> (force \<or> cmdIsStale e (w_cmds w c)))"
    using that assms by (intro filter_True) (auto simp: mwf_def)
  have del: "filter ?P ?p = mdel u ?p" if "map_of ?p u = Some c" "force \<or> cmdIsStale e (w_cmds w c)" for c
    using uniq [OF that(1)] that by (auto simp: AList.delete_eq intro!: filter_cong)
  show ?thesis
  proof (cases "\<exists>c. map_of ?p u = Some c \<and> (force \<or> cmdIsStale e (w_cmds w c))")
    case True
    then obtain c where c: "map_of ?p u = Some c" "force \<or> cmdIsStale e (w_cmds w c)" by blast
    then have "snd (removeCmd e r u force w) = upd_ep r (\<lambda>x. x\<lparr>ep_pendingCmds := mdel u (ep_pendingCmds x)\<rparr>) w"
      by (simp add: removeCmd_def)
    also have "\<dots> = upd_ep r (\<lambda>x. x\<lparr>ep_pendingCmds := filter ?P (ep_pendingCmds x)\<rparr>) w"
      by (rule upd_ep_cong) (simp only: del [OF c])
    finally show ?thesis .
  next
    case False
    then have "snd (removeCmd e r u force w) = w"
      by (auto simp: removeCmd_def split: option.splits)
    also have "w = upd_ep r (\<lambda>x. x\<lparr>ep_pendingCmds := filter ?P (ep_pendingCmds x)\<rparr>) w"
      by (rule upd_ep_id [symmetric]) (simp only: id [OF False] NcsiEP.surjective [symmetric], simp)
    finally show ?thesis .
  qed
qed

lemma flushCmds_eq:
  assumes "mwf (ep_pendingCmds (w_eps w r))"
  shows "flushCmds e r force ids w = upd_ep r (\<lambda>x. x\<lparr>ep_pendingCmds :=
      filter (\<lambda>(k, c). \<not> (k \<in> set ids \<and> (force \<or> cmdIsStale e (w_cmds w c)))) (ep_pendingCmds x)\<rparr>) w"
  using assms
proof (induction ids arbitrary: w)
  case (Cons u ids)
  let ?w = "snd (removeCmd e r u force w)"
  have wf: "mwf (ep_pendingCmds (w_eps ?w r))"
    using Cons.prems by (simp add: removeCmd_eq mwf_def distinct_map_filter)
  have "flushCmds e r force (u # ids) w = flushCmds e r force ids ?w" by (simp add: flushCmds_def)
  also have "\<dots> = upd_ep r (\<lambda>x. x\<lparr>ep_pendingCmds :=
      filter (\<lambda>(k, c). \<not> (k \<in> set ids \<and> (force \<or> cmdIsStale e (w_cmds w c)))) (ep_pendingCmds x)\<rparr>) ?w"
    using Cons.IH [OF wf] Cons.prems by (simp add: removeCmd_eq)
  finally have step: "flushCmds e r force (u # ids) w = upd_ep r (\<lambda>x. x\<lparr>ep_pendingCmds :=
      filter (\<lambda>(k, c). \<not> (k \<in> set ids \<and> (force \<or> cmdIsStale e (w_cmds w c)))) (ep_pendingCmds x)\<rparr>) ?w" .
  have "filter (\<lambda>(k, c). \<not> (k \<in> set ids \<and> (force \<or> cmdIsStale e (w_cmds w c))))
      (filter (\<lambda>(k, c). \<not> (k = u \<and> (force \<or> cmdIsStale e (w_cmds w c)))) p) =
      filter (\<lambda>(k, c). \<not> (k \<in> set (u # ids) \<and> (force \<or> cmdIsStale e (w_cmds w c)))) p" for p
    by (induction p) auto
  moreover have "x\<lparr>ep_pendingCmds := p, ep_pendingCmds := q\<rparr> = x\<lparr>ep_pendingCmds := q\<rparr>" for x :: NcsiEP and p q
    by simp
  moreover have "ep_pendingCmds (x\<lparr>ep_pendingCmds := p\<rparr>) = p" for x :: NcsiEP and p
    by simp
  ultimately show ?case
    by (simp only: step removeCmd_eq [OF Cons.prems] upd_ep_upd_ep)
qed (simp add: flushCmds_def upd_ep_def)

lemma loadOutfile_calm: "c_ep (w_cmds w c) = r \<Longrightarrow> calm r w (loadOutfile e c w)"
  by (auto simp: loadOutfile_def split: option.splits sum.splits intro: upd_cmd_calm)

lemma loadOutfile_pend_ok: "pend_ok w r \<Longrightarrow> pend_ok (loadOutfile e c w) r"
  by (auto simp: loadOutfile_def split: option.splits sum.splits intro: upd_cmd_pend_ok)

lemma loadOutfile_fields:
  "c_op (w_cmds (loadOutfile e c w) c) = c_op (w_cmds w c)" "w_eps (loadOutfile e c w) = w_eps w"
  "w_ncmds (loadOutfile e c w) = w_ncmds w" "w_uuids (loadOutfile e c w) = w_uuids w"
  by (auto simp: loadOutfile_def split: option.splits sum.splits)

section \<open>Files\<close>

text \<open>The files of a folder the clean-up removes: lookout files older than the time to live.\<close>

definition stale_files :: "env \<Rightarrow> string \<Rightarrow> string list" where
  "stale_files e folder =
     (case e_readdir e folder of
        Inl _ \<Rightarrow> []
      | Inr files \<Rightarrow>
          map (\<lambda>f. folder @ fst f)
            (filter (\<lambda>f. Contains (fst f) LookoutPrefixStr \<and>
               (case e_stat e (folder @ fst f) of
                  Inl _ \<Rightarrow> False
                | Inr info \<Rightarrow> e_now e - st_ModTime info > OutfileTtl)) files))"

lemma removeFiles_eq:
  "removeFiles e folder w = w\<lparr>w_sys := w_sys w @ map SysRemove (stale_files e folder)\<rparr>"
proof (cases "e_readdir e folder")
  case (Inr files)
  have "fold (\<lambda>f w. remove_file e folder (fst f) w) files w =
      w\<lparr>w_sys := w_sys w @ map SysRemove (map (\<lambda>f. folder @ fst f)
          (filter (\<lambda>f. Contains (fst f) LookoutPrefixStr \<and>
             (case e_stat e (folder @ fst f) of
                Inl _ \<Rightarrow> False
              | Inr info \<Rightarrow> e_now e - st_ModTime info > OutfileTtl)) files))\<rparr>" for w
    by (induction files arbitrary: w) (auto simp: remove_file_def sys_def split: sum.splits)
  with Inr show ?thesis by (simp add: removeFiles_def stale_files_def)
qed (simp add: removeFiles_def stale_files_def)

definition stale_ops :: "env \<Rightarrow> world \<Rightarrow> ep_ref \<Rightarrow> sysop list" where
  "stale_ops e w r =
     (if isWatchedState (ep_State (w_eps w r))
      then map SysRemove (stale_files e (Xpath e w r EP_PATH_INPUT) @ stale_files e (Xpath e w r EP_PATH_OUTPUT))
      else [])"

lemma RemoveStaleFiles_eq: "RemoveStaleFiles e r w = w\<lparr>w_sys := w_sys w @ stale_ops e w r\<rparr>"
  by (simp add: RemoveStaleFiles_def removeFiles_eq stale_ops_def Xpath_def)

lemma sys_calm: "calm r w (w\<lparr>w_sys := w_sys w @ t\<rparr>)"
  by (auto simp: calm_def frame_ep_def intro: exI [of _ "ep_pendingCmds (w_eps w r)"])

lemma sys_pend_ok: "pend_ok w r \<Longrightarrow> pend_ok (w\<lparr>w_sys := t\<rparr>) r"
  by (auto simp: pend_ok_def Let_def cmd_ok_def split: if_splits)

section \<open>Querying the application\<close>

lemma detect_op:
  "recognized a \<Longrightarrow> GetAppDetectInfo a b = (s, op) \<Longrightarrow> op \<noteq> CustomOp \<and> op \<noteq> IdentifyOp"
  by (cases a) (auto simp: Pmdb_GetAppDetectInfo_def Syst_GetAppDetectInfo_def split: if_splits)

lemma upd_cmd_const_pend_ok:
  "pend_ok w r \<Longrightarrow> cmd_ok w r x \<Longrightarrow> pend_ok (upd_cmd c (\<lambda>_. x) w) r"
  by (fastforce simp: pend_ok_def Let_def cmd_ok_def split: if_splits)

lemma cmd_ok_cong:
  "ep_State (w_eps w' r) = ep_State (w_eps w r) \<Longrightarrow> ep_App (w_eps w' r) = ep_App (w_eps w r) \<Longrightarrow>
   cmd_ok w' r x = cmd_ok w r x"
  by (simp add: cmd_ok_def)

lemma queryApp_calm:
  assumes pend: "pend_ok w r" and app: "ep_App (w_eps w r) = Some a" "recognized a"
  shows "ends (queryApp e r w) (\<lambda>_. False) (\<lambda>(_, w'). calm r w w' \<and> pend_ok w' r)"
proof -
  obtain s op where d: "GetAppDetectInfo a False = (s, op)" by force
  obtain s' op' where d': "GetAppDetectInfo a True = (s', op')" by force
  let ?cmd = "\<lambda>s op. \<lparr>c_ep = r, c_cmd = s, c_id = 0, c_outJSON = [], c_err = None, c_op = op, c_start = zero_time\<rparr>"
  obtain c w1 where n: "new_cmd (?cmd s op) w = (c, w1)" by force
  note n' = new_cmd_calm(1) [OF n, of r] new_cmd_calm(2-6) [OF n]
  let ?w2 = "submit e c w1"
  have ok: "cmd_ok w r (?cmd s op)" "cmd_ok w r (?cmd s' op')"
    using detect_op [OF app(2) d] detect_op [OF app(2) d'] app by (simp_all add: cmd_ok_def)
  have w2: "calm r w ?w2" "pend_ok ?w2 r"
  proof -
    show "calm r w ?w2"
      using n' by (intro calm_trans [OF _ submit_calm]) auto
    show "pend_ok ?w2 r"
      using n' ok(1) cmd_ok_cong [of w1 r w]
      by (intro submit_pend_ok new_cmd_pend_ok [OF n pend]) auto
  qed
  let ?w3 = "upd_cmd c (\<lambda>_. ?cmd s' op') ?w2"
  have w3: "calm r w ?w3" "pend_ok ?w3 r"
  proof -
    show "calm r w ?w3"
      using n' by (intro calm_trans [OF w2(1) upd_cmd_calm]) (auto simp: submit_cmd)
    show "pend_ok ?w3 r"
      using ok(2) calm_fields [OF w2(1)] cmd_ok_cong [of ?w2 r w]
      by (intro upd_cmd_const_pend_ok w2(2)) auto
  qed
  have w4: "calm r w (submit e c ?w3)" "pend_ok (submit e c ?w3) r"
  proof -
    show "calm r w (submit e c ?w3)"
      by (intro calm_trans [OF w3(1) submit_calm]) simp
    show "pend_ok (submit e c ?w3) r"
      using ok(2) calm_fields [OF w3(1)] cmd_ok_cong [of ?w3 r w] n'(2,3)
      by (intro submit_pend_ok w3(2)) (auto simp: submit_cmd)
  qed
  show ?thesis
    using w2 w4 by (simp add: queryApp_def app d d' n Let_def)
qed

section \<open>Changing state\<close>

definition state_upd :: "env \<Rightarrow> Epstate \<Rightarrow> NcsiEP \<Rightarrow> NcsiEP" where
  "state_upd e s x =
     (if s \<in> {EPstateInit, EPstateRunning, EPstateHasIdentity}
      then x\<lparr>ep_State := s, ep_LastSeen := e_now e\<rparr> else x\<lparr>ep_State := s\<rparr>)"

lemma state_upd_fields [simp]:
  "ep_State (state_upd e s x) = s" "ep_App (state_upd e s x) = ep_App x"
  "ep_Uuid (state_upd e s x) = ep_Uuid x" "ep_pendingCmds (state_upd e s x) = ep_pendingCmds x"
  "ep_lsofGen (state_upd e s x) = ep_lsofGen x" "ep_watched (state_upd e s x) = ep_watched x"
  "ep_wid (state_upd e s x) = ep_wid x"
  by (simp_all add: state_upd_def)

text \<open>The three ways a state change goes: the watch stays, is removed, is added.\<close>

lemma ChangeState_keep:
  assumes "watch_ok w r" and "s \<noteq> EPstateAny" and "s \<noteq> ep_State (w_eps w r)"
    and "isWatchedState s = isWatchedState (ep_State (w_eps w r))"
  shows "ChangeState e r s w = Inr (upd_ep r (state_upd e s) w)"
  using assms
  by (auto simp: ChangeState_def ensureWatchedState_def watchCtl_def watch_ok_def Let_def upd_ep_def state_upd_def)

definition unwatch :: "ep_ref \<Rightarrow> world \<Rightarrow> world" where
  "unwatch r w = sys (SysRmWatch (-1)) (upd_ep r (\<lambda>x. x\<lparr>ep_wid := -1, ep_watched := False\<rparr>)
     (upd_ino (\<lambda>i. i\<lparr>ino_wmap := mdel (ep_wid (w_eps w r)) (ino_wmap i)\<rparr>) w))"

lemma ChangeState_unwatch:
  assumes "maps_ok w" and "watch_ok w r" and "s \<noteq> EPstateAny"
    and "isWatchedState (ep_State (w_eps w r))" and "\<not> isWatchedState s"
  shows "ChangeState e r s w = Inr (upd_ep r (state_upd e s) (unwatch r w))"
proof -
  have ne: "s \<noteq> ep_State (w_eps w r)" using assms(4,5) by auto
  have "EpWatchRemove (Some r) w = Inr (sys (SysRmWatch (-1)) (upd_ep r (\<lambda>x. x\<lparr>ep_wid := -1\<rparr>)
     (upd_ino (\<lambda>i. i\<lparr>ino_wmap := mdel (ep_wid (w_eps w r)) (ino_wmap i)\<rparr>) w)))"
    using assms by (auto simp: EpWatchRemove_def maps_ok_def watch_ok_def Let_def)
  with assms ne show ?thesis
    by (auto simp: ChangeState_def ensureWatchedState_def watchCtl_def watch_ok_def Let_def unwatch_def
        upd_ep_def upd_ino_def sys_def state_upd_def)
qed

definition watch :: "env \<Rightarrow> ep_ref \<Rightarrow> i32 \<Rightarrow> world \<Rightarrow> world" where
  "watch e r d w = upd_ino (\<lambda>i. i\<lparr>ino_wmap := mput d r (ino_wmap i)\<rparr>)
     (upd_ep r (\<lambda>x. x\<lparr>ep_wid := d, ep_watched := True\<rparr>)
       (sys (SysAddWatch (Xpath e w r EP_PATH_OUTPUT) (IN_MOVE_SELF + IN_MOVED_TO)) w))"

lemma ChangeState_watch:
  assumes "maps_ok w" and "watch_ok w r" and "inotify_ok e"
    and "\<not> isWatchedState (ep_State (w_eps w r))" and "isWatchedState s"
  shows "ChangeState e r s w =
     (case e_add_watch e (Xpath e w r EP_PATH_OUTPUT) of
        Inl err \<Rightarrow> Inl (Exit ''ep.lh.EpWatchAdd()'')
      | Inr d \<Rightarrow>
          if map_of (w_wmap w) (word_of_int d) \<noteq> None then Inl (Exit ''ep already exists at wid'')
          else Inr (upd_ep r (state_upd e s) (watch e r (word_of_int d) w)))"
proof -
  have ne: "s \<noteq> ep_State (w_eps w r)" "s \<noteq> EPstateAny" using assms(4,5) by auto
  show ?thesis
  proof (cases "e_add_watch e (Xpath e w r EP_PATH_OUTPUT)")
    case (Inl err)
    with assms ne show ?thesis
      by (auto simp: ChangeState_def ensureWatchedState_def watchCtl_def EpWatchAdd_def watch_ok_def
          maps_ok_def Let_def Xpath_def)
  next
    case (Inr d)
    then have "0 \<le> d" using assms(3) by (auto simp: inotify_ok_def)
    with Inr assms ne show ?thesis
      by (auto simp: ChangeState_def ensureWatchedState_def watchCtl_def EpWatchAdd_def watch_ok_def
          maps_ok_def Let_def Xpath_def watch_def upd_ep_def upd_ino_def sys_def state_upd_def)
  qed
qed

text \<open>
  What a state change asks of its caller: a settable state, a known application for the states that
  query it, and no identify command left behind.
\<close>

definition may_enter :: "world \<Rightarrow> ep_ref \<Rightarrow> Epstate \<Rightarrow> bool" where
  "may_enter w r s =
     (s \<noteq> EPstateAny \<and> s \<noteq> EPstateUnknown \<and>
      (s \<in> {EPstateHasIdentity, EPstateRunning, EPstateDown} \<longrightarrow>
         (\<exists>a. ep_App (w_eps w r) = Some a \<and> recognized a)) \<and>
      (s \<notin> {EPstateInit, EPstateRemoving} \<longrightarrow>
         (\<forall>id c. map_of (ep_pendingCmds (w_eps w r)) id = Some c \<longrightarrow> c_op (w_cmds w c) \<noteq> IdentifyOp)))"

text \<open>Nothing but the state, the time and the watch of one endpoint changes.\<close>

definition state_step :: "ep_ref \<Rightarrow> Epstate \<Rightarrow> world \<Rightarrow> world \<Rightarrow> bool" where
  "state_step r s w w' =
     (frame_ep r w w' \<and> ep_State (w_eps w' r) = s \<and> ep_App (w_eps w' r) = ep_App (w_eps w r) \<and>
      ep_pendingCmds (w_eps w' r) = ep_pendingCmds (w_eps w r) \<and>
      w_cmds w' = w_cmds w \<and> w_ncmds w' = w_ncmds w \<and> w_uuids w' = w_uuids w)"

lemma pend_ok_enter:
  assumes "pend_ok w r" and "may_enter w r s" and "state_step r s w w'"
  shows "pend_ok w' r"
  using assms
  by (fastforce simp: pend_ok_def may_enter_def state_step_def Let_def cmd_ok_def split: if_splits)

lemma app_ok_enter:
  assumes "app_ok w r" and "may_enter w r s" and "state_step r s w w'"
  shows "app_ok w' r"
  using assms by (auto simp: app_ok_def may_enter_def state_step_def Let_def)

lemma state_step_keep: "state_step r s w (upd_ep r (state_upd e s) w)"
  by (auto simp: state_step_def frame_ep_def)

lemma state_step_unwatch: "state_step r s w (upd_ep r (state_upd e s) (unwatch r w))"
  by (auto simp: state_step_def frame_ep_def unwatch_def)

lemma state_step_watch: "state_step r s w (upd_ep r (state_upd e s) (watch e r d w))"
  by (auto simp: state_step_def frame_ep_def watch_def)

lemma ep_ok_enter:
  assumes "ep_ok w r" and "may_enter w r s" and "state_step r s w w'" and "watch_ok w' r"
  shows "ep_ok w' r"
  using assms app_ok_enter pend_ok_enter frame_gen [of r w w']
  by (auto simp: ep_ok_def state_step_def frame_ep_def)

lemma descriptor_unique:
  assumes "linv w" and "r < w_neps w" and "isWatchedState (ep_State (w_eps w r))"
    and "q < w_neps w" "ep_watched (w_eps w q)" "ep_wid (w_eps w q) = ep_wid (w_eps w r)"
  shows "q = r"
proof -
  have "watch_ok w r" using assms(1,2) by (simp add: linv_def ep_ok_def)
  then have "ep_watched (w_eps w r)" using assms(3) by (simp add: watch_ok_def Let_def)
  with assms inv_reg [OF assms(1)] have "map_of (w_wmap w) (ep_wid (w_eps w r)) = Some q"
    "map_of (w_wmap w) (ep_wid (w_eps w r)) = Some r" by blast+
  then show ?thesis by (metis option.inject)
qed

lemma keep_inv:
  assumes linv: "linv w" and r: "r < w_neps w" and enter: "may_enter w r s"
    and keep: "s \<noteq> ep_State (w_eps w r)" "isWatchedState s = isWatchedState (ep_State (w_eps w r))"
  shows "linv (upd_ep r (state_upd e s) w)"
proof -
  have ok: "ep_ok w r" "watch_ok w r" "maps_ok w" using linv r by (auto simp: linv_def ep_ok_def)
  show ?thesis
  proof (rule inv_frame [OF linv r])
    show "ep_ok (upd_ep r (state_upd e s) w) r" "frame_ep r w (upd_ep r (state_upd e s) w)"
      using keep ok ep_ok_enter [OF ok(1) enter state_step_keep [of r s w e]] state_step_keep [of r s w e]
      by (auto simp: watch_ok_def Let_def state_step_def)
  qed (use ok(3) r inv_reg [OF linv] in \<open>auto simp: maps_ok_def\<close>)
qed

lemma unwatch_inv:
  assumes linv: "linv w" and r: "r < w_neps w" and enter: "may_enter w r s"
    and off: "isWatchedState (ep_State (w_eps w r))" "\<not> isWatchedState s"
  shows "linv (upd_ep r (state_upd e s) (unwatch r w))"
proof -
  let ?w = "upd_ep r (state_upd e s) (unwatch r w)"
  have ok: "ep_ok w r" "watch_ok w r" "maps_ok w" using linv r by (auto simp: linv_def ep_ok_def)
  show ?thesis
  proof (rule inv_frame [OF linv r])
    show "ep_ok ?w r" "frame_ep r w ?w"
      using off ep_ok_enter [OF ok(1) enter state_step_unwatch [of r s w e]] state_step_unwatch [of r s w e]
      by (auto simp: watch_ok_def Let_def state_step_def unwatch_def)
  qed (use ok(3) inv_reg [OF linv] off(1) descriptor_unique [OF linv r] in \<open>auto simp: maps_ok_def unwatch_def\<close>)
qed

lemma watch_inv:
  assumes linv: "linv w" and r: "r < w_neps w" and enter: "may_enter w r s"
    and on: "\<not> isWatchedState (ep_State (w_eps w r))" "isWatchedState s"
    and d: "0 \<le> d" "d < 2 ^ 31" "map_of (w_wmap w) (word_of_int d) = None"
  shows "linv (upd_ep r (state_upd e s) (watch e r (word_of_int d) w))"
proof -
  let ?w = "upd_ep r (state_upd e s) (watch e r (word_of_int d) w)"
  have ok: "ep_ok w r" "watch_ok w r" "maps_ok w" using linv r by (auto simp: linv_def ep_ok_def)
  note reg = inv_reg [OF linv]
  have sd: "sint (word_of_int d :: i32) = d" using d by (simp add: signed_of_int signed_take_bit_int_eq_self)
  have free: "ep_wid (w_eps w q) \<noteq> word_of_int d" if "q < w_neps w" "ep_watched (w_eps w q)" for q
    using that d(3) reg by (metis option.distinct(1))
  show ?thesis
  proof (rule inv_frame [OF linv r])
    show "ep_ok ?w r" "frame_ep r w ?w"
      using on d sd ep_ok_enter [OF ok(1) enter state_step_watch [of r s w e]] state_step_watch [of r s w e]
      by (auto simp: watch_ok_def Let_def state_step_def watch_def)
  qed (use ok r d reg on free in \<open>auto simp: maps_ok_def watch_def watch_ok_def Let_def\<close>)
qed

lemma ChangeState_inv:
  assumes linv: "linv w" and r: "r < w_neps w" and enter: "may_enter w r s"
    and kern: "isWatchedState (ep_State (w_eps w r)) \<or> \<not> isWatchedState s \<or> inotify_ok e"
  shows "ends (ChangeState e r s w)
     (\<lambda>_. unwatchable e w (Xpath e w r EP_PATH_OUTPUT) \<and> \<not> isWatchedState (ep_State (w_eps w r)) \<and> isWatchedState s)
     (\<lambda>w'. linv w' \<and> state_step r s w w')"
proof -
  have ok: "watch_ok w r" "maps_ok w" and s: "s \<noteq> EPstateAny"
    using linv r enter by (auto simp: linv_def ep_ok_def may_enter_def)
  consider (stay) "s = ep_State (w_eps w r)"
    | (keep) "s \<noteq> ep_State (w_eps w r)" "isWatchedState s = isWatchedState (ep_State (w_eps w r))"
    | (off) "isWatchedState (ep_State (w_eps w r))" "\<not> isWatchedState s"
    | (on) "\<not> isWatchedState (ep_State (w_eps w r))" "isWatchedState s" by blast
  then show ?thesis
  proof cases
    case stay
    then show ?thesis using linv s by (simp add: ChangeState_def state_step_def)
  next
    case keep
    then show ?thesis
      using ChangeState_keep [OF ok(1) s keep] keep_inv [OF linv r enter keep] by (simp add: state_step_keep)
  next
    case off
    then show ?thesis
      using ChangeState_unwatch [OF ok(2,1) s off] unwatch_inv [OF linv r enter off] by (simp add: state_step_unwatch)
  next
    case on
    with kern have k: "inotify_ok e" by simp
    show ?thesis
    proof (cases "e_add_watch e (Xpath e w r EP_PATH_OUTPUT)")
      case (Inl err)
      then show ?thesis
        using ChangeState_watch [OF ok(2,1) k on] on by (simp add: unwatchable_cases)
    next
      case (Inr d)
      then have "0 \<le> d" "d < 2 ^ 31" using k by (auto simp: inotify_ok_def)
      from watch_inv [OF linv r enter on this] show ?thesis
        using ChangeState_watch [OF ok(2,1) k on] Inr on by (simp add: unwatchable_cases state_step_watch)
    qed
  qed
qed

section \<open>Completing a command\<close>

text \<open>Replacing the data of an endpoint while nothing is pending.\<close>

lemma upd_app_inv:
  assumes linv: "linv w" and r: "r < w_neps w" and pend: "ep_pendingCmds (w_eps w r) = []"
    and keep: "\<And>x. ep_State (f x) = ep_State x \<and> ep_watched (f x) = ep_watched x \<and> ep_wid (f x) = ep_wid x \<and>
        ep_Uuid (f x) = ep_Uuid x \<and> ep_lsofGen (f x) = ep_lsofGen x \<and> ep_pendingCmds (f x) = ep_pendingCmds x"
    and app: "ep_App (f (w_eps w r)) = Some a" "app_data_ok a"
      "ep_State (w_eps w r) \<in> {EPstateHasIdentity, EPstateRunning, EPstateDown} \<longrightarrow> recognized a"
  shows "linv (upd_ep r f w)" and "frame_ep r w (upd_ep r f w)"
proof -
  show fr: "frame_ep r w (upd_ep r f w)" using keep by (auto simp: frame_ep_def)
  have "ep_ok w r" using linv r by (simp add: linv_def)
  then show "linv (upd_ep r f w)"
    using keep pend app
    by (intro inv_same_watch [OF linv r fr])
       (auto simp: ep_ok_def watch_ok_def app_ok_def pend_ok_def Let_def)
qed

text \<open>The state an endpoint may be in after an event that leaves it in state \<open>s\<close> or moves it on.\<close>

definition complete_moves :: "Epstate \<Rightarrow> Epstate \<Rightarrow> bool" where
  "complete_moves s s' =
     (s' = s \<or> s' = EPstateRunning \<or> s' = EPstateHasIdentity \<and> s \<in> {EPstateInit, EPstateRemoving})"

lemma update_inv:
  assumes linv: "linv w" and r: "r < w_neps w" and pend: "ep_pendingCmds (w_eps w r) = []"
    and app: "ep_App (w_eps w r) = Some a" "recognized a"
    and ctl: "typed_ctl ctl"
    and kern: "isWatchedState (ep_State (w_eps w r)) \<or> inotify_ok e"
  shows "ends (update e r ctl w)
     (\<lambda>_. unwatchable e w (Xpath e w r EP_PATH_OUTPUT) \<and> \<not> isWatchedState (ep_State (w_eps w r)))
     (\<lambda>w'. linv w' \<and> frame_ep r w w' \<and> ep_State (w_eps w' r) = EPstateRunning)"
proof -
  let ?a = "SetCtlIfOut ctl a"
  let ?w = "upd_ep r (\<lambda>x. x\<lparr>ep_App := Some ?a, ep_EPInfo := GetCtlIfOut ?a, ep_LastSeen := e_now e\<rparr>) w"
  have "ep_ok w r" using linv r by (simp add: linv_def)
  then have bare: "app_data_ok ?a"
    using app ctl by (simp add: ep_ok_def app_ok_def Let_def app_data_ok_SetCtlIfOut)
  have w: "linv ?w" "frame_ep r w ?w"
    using app bare by (intro upd_app_inv [OF linv r pend, where a = ?a]; simp)+
  show ?thesis
  proof (cases "ep_State (w_eps w r) = EPstateRunning")
    case True
    with w app show ?thesis by (simp add: update_def Let_def)
  next
    case False
    have "ends (ChangeState e r EPstateRunning ?w)
        (\<lambda>_. unwatchable e ?w (Xpath e ?w r EP_PATH_OUTPUT) \<and> \<not> isWatchedState (ep_State (w_eps ?w r)) \<and> isWatchedState EPstateRunning)
        (\<lambda>w'. linv w' \<and> state_step r EPstateRunning ?w w')"
      using r app kern pend
      by (intro ChangeState_inv w(1)) (auto simp: may_enter_def)
    then have "ends (ChangeState e r EPstateRunning ?w)
        (\<lambda>_. unwatchable e w (Xpath e w r EP_PATH_OUTPUT) \<and> \<not> isWatchedState (ep_State (w_eps w r)))
        (\<lambda>w'. linv w' \<and> frame_ep r w w' \<and> ep_State (w_eps w' r) = EPstateRunning)"
      using frame_ep_trans [OF w(2)] by (elim ends_mono) (auto simp: state_step_def Xpath_def unwatchable_def)
    with False app show ?thesis by (simp add: update_def Let_def)
  qed
qed

lemma identify_inv:
  assumes linv: "linv w" and r: "r < w_neps w" and pend: "ep_pendingCmds (w_eps w r) = []"
    and st: "ep_State (w_eps w r) \<in> {EPstateInit, EPstateRemoving}"
    and a: "recognized a" "app_data_ok a"
    and kern: "isWatchedState (ep_State (w_eps w r)) \<or> inotify_ok e"
  shows "ends (bindr (ChangeState e r EPstateHasIdentity (set_identity e r a w)) (queryApp e r))
     (\<lambda>_. unwatchable e w (Xpath e w r EP_PATH_OUTPUT) \<and> \<not> isWatchedState (ep_State (w_eps w r)))
     (\<lambda>(_, w'). linv w' \<and> frame_ep r w w' \<and> ep_State (w_eps w' r) = EPstateHasIdentity)"
proof -
  let ?w = "set_identity e r a w"
  let ?u = "ep_Uuid (w_eps w r)"
  have w: "linv ?w" "frame_ep r w ?w"
    unfolding set_identity_def using a st
    by (intro upd_app_inv [OF linv r pend, where a = "SetUUID ?u a"]; simp add: Let_def)+
  have app: "ep_App (w_eps ?w r) = Some (SetUUID ?u a)" by (simp add: set_identity_def Let_def)
  have same: "ep_State (w_eps ?w r) = ep_State (w_eps w r)" "ep_pendingCmds (w_eps ?w r) = []"
    "w_ino ?w = w_ino w" "w_neps ?w = w_neps w" "Xpath e ?w r p = Xpath e w r p" for p
    by (simp_all add: Xpath_def set_identity_def Let_def pend)
  have step: "ends (ChangeState e r EPstateHasIdentity ?w)
      (\<lambda>_. unwatchable e ?w (Xpath e ?w r EP_PATH_OUTPUT) \<and> \<not> isWatchedState (ep_State (w_eps ?w r)) \<and> isWatchedState EPstateHasIdentity)
      (\<lambda>w'. linv w' \<and> state_step r EPstateHasIdentity ?w w')"
    using r app a kern same
    by (intro ChangeState_inv w(1)) (auto simp: may_enter_def)
  have "ends (queryApp e r w1) (\<lambda>_. False)
      (\<lambda>(_, w'). linv w' \<and> frame_ep r w w' \<and> ep_State (w_eps w' r) = EPstateHasIdentity)"
    if w1: "linv w1" "state_step r EPstateHasIdentity ?w w1" for w1
  proof -
    have r1: "r < w_neps w1" using w1 r same by (simp add: state_step_def frame_ep_def)
    then have "pend_ok w1 r" using w1(1) by (simp add: linv_def ep_ok_def)
    moreover have "ep_App (w_eps w1 r) = Some (SetUUID ?u a)" using w1(2) app by (simp add: state_step_def)
    ultimately have "ends (queryApp e r w1) (\<lambda>_. False) (\<lambda>(_, w'). calm r w1 w' \<and> pend_ok w' r)"
      using a by (intro queryApp_calm [where a = "SetUUID ?u a"]) auto
    then show ?thesis
      using inv_calm [OF w1(1) r1] calm_fields(1) calm_frame w1(2) w(2)
      by (elim ends_mono) (auto simp: state_step_def intro: frame_ep_trans)
  qed
  note query = this
  show ?thesis
    unfolding ends_bindr by (rule ends_mono [OF step]) (auto simp: same unwatchable_def intro: ends_mono [OF query])
qed

text \<open>A command that has been taken off the queue and whose answer has been loaded.\<close>

lemma taken:
  assumes inv: "linv w" and r: "r < w_neps w" and rem: "removeCmd e r u True w = (Some c, w1)"
  defines "w2 \<equiv> loadOutfile e c w1"
  shows "linv w2" "calm r w w2" "ep_pendingCmds (w_eps w2 r) = []" "c < w_ncmds w2"
    "cmd_ok w r (w_cmds w c)" "c_op (w_cmds w2 c) = c_op (w_cmds w c)"
proof -
  have pend: "pend_ok w r" using inv r by (simp add: linv_def ep_ok_def)
  note rc = removeCmd_Some [OF pend rem]
  show "cmd_ok w r (w_cmds w c)" by (rule rc)
  have calm1: "calm r w w1" "pend_ok w1 r"
    using removeCmd_calm [of r w e u True] removeCmd_pend_ok [OF pend, of e u True] rem by simp_all
  have ep: "c_ep (w_cmds w1 c) = r" using rc by (simp add: cmd_ok_def)
  show calm: "calm r w w2" unfolding w2_def by (rule calm_trans [OF calm1(1) loadOutfile_calm [OF ep]])
  then show "linv w2"
    using inv_calm [OF inv r] loadOutfile_pend_ok [OF calm1(2)] by (simp add: w2_def)
  show "ep_pendingCmds (w_eps w2 r) = []" "c < w_ncmds w2" "c_op (w_cmds w2 c) = c_op (w_cmds w c)"
    using rc by (simp_all add: w2_def loadOutfile_fields)
qed

text \<open>What \<open>Complete\<close> does with the answer, once the command is taken and its file loaded without error.\<close>

definition handle ::
  "env \<Rightarrow> ep_ref \<Rightarrow> EPcmdType \<Rightarrow> string \<Rightarrow> string option \<Rightarrow> world \<Rightarrow> ((goerr option \<times> string option) \<times> world) res"
where
  "handle e r op out output w =
     (case op of
        CustomOp \<Rightarrow> (case output of None \<Rightarrow> Inl nil_deref | Some _ \<Rightarrow> Inr ((None, Some out), w))
      | IdentifyOp \<Rightarrow>
          (let (a, err) = DetermineApp e out
           in case err of
                None \<Rightarrow>
                  bindr (bindr (ChangeState e r EPstateHasIdentity (set_identity e r a w)) (queryApp e r))
                    (\<lambda>(_, w). Inr ((None, output), w))
              | Some _ \<Rightarrow> Inr ((None, output), upd_ep r (\<lambda>x. x\<lparr>ep_App := Some a\<rparr>) w))
      | RaftInfoOp \<Rightarrow> Inr ((None, output), w)
      | _ \<Rightarrow>
          (case Unmarshal_ctl e out of
             Inl err \<Rightarrow> Inr ((Some err, output), w)
           | Inr ctl \<Rightarrow> bindr (update e r ctl w) (\<lambda>w. Inr ((None, output), w))))"

lemma Complete_handle:
  "Complete e r u output w =
     (let (c, w1) = removeCmd e r u True w
      in case c of
        None \<Rightarrow> Inr ((Some ENOENT, output), w1)
      | Some c \<Rightarrow>
          let w2 = loadOutfile e c w1
          in if c_err (w_cmds w2 c) \<noteq> None then Inr ((c_err (w_cmds w2 c), output), w2)
             else bindr (if ep_State (w_eps w2 r) = EPstateDown then ChangeState e r EPstateRunning w2
                         else Inr w2)
                    (\<lambda>w3. handle e r (c_op (w_cmds w3 c)) (c_outJSON (w_cmds w3 c)) output w3))"
  unfolding Complete_def handle_def Let_def bindr_assoc ..

lemma handle_inv:
  assumes inv: "linv w" and r: "r < w_neps w" and pend: "ep_pendingCmds (w_eps w r) = []"
    and op: "op \<noteq> CustomOp"
    and ident: "op = IdentifyOp \<Longrightarrow> ep_State (w_eps w r) \<in> {EPstateInit, EPstateRemoving}"
    and info: "op \<noteq> IdentifyOp \<Longrightarrow> \<exists>a. ep_App (w_eps w r) = Some a \<and> recognized a"
    and kern: "isWatchedState (ep_State (w_eps w r)) \<or> inotify_ok e"
  shows "ends (handle e r op out output w)
     (\<lambda>_. unwatchable e w (Xpath e w r EP_PATH_OUTPUT) \<and> \<not> isWatchedState (ep_State (w_eps w r)))
     (\<lambda>(_, w'). linv w' \<and> frame_ep r w w' \<and> complete_moves (ep_State (w_eps w r)) (ep_State (w_eps w' r)))"
proof (cases "op = IdentifyOp")
  case True
  obtain a err where d: "DetermineApp e out = (a, err)" by force
  note a = DetermineApp_recognized [OF d] app_data_ok_DetermineApp [OF d]
  show ?thesis
  proof (cases err)
    case None
    with a have "recognized a" "app_data_ok a" by auto
    from identify_inv [OF inv r pend ident [OF True] this kern]
    show ?thesis
      unfolding handle_def using True d None ident [OF True]
      by (simp del: ends_bindr) (simp only: ends_bindr [of "bindr _ _"], elim ends_mono, auto simp: complete_moves_def)
  next
    case (Some er)
    have "linv (upd_ep r (\<lambda>x. x\<lparr>ep_App := Some a\<rparr>) w)" "frame_ep r w (upd_ep r (\<lambda>x. x\<lparr>ep_App := Some a\<rparr>) w)"
      using a ident [OF True] by (intro upd_app_inv [OF inv r pend, where a = a]; auto)+
    with True d Some show ?thesis by (simp add: handle_def complete_moves_def)
  qed
next
  case False
  then obtain a where a: "ep_App (w_eps w r) = Some a" "recognized a" using info by blast
  have upd: "ends (update e r ctl w)
     (\<lambda>_. unwatchable e w (Xpath e w r EP_PATH_OUTPUT) \<and> \<not> isWatchedState (ep_State (w_eps w r)))
     (\<lambda>w'. linv w' \<and> frame_ep r w w' \<and> complete_moves (ep_State (w_eps w r)) (ep_State (w_eps w' r)))"
    if "Unmarshal_ctl e out = Inr ctl" for ctl
    by (rule ends_mono [OF update_inv [OF inv r pend a Unmarshal_ctl_typed [OF that] kern]])
       (auto simp: complete_moves_def)
  show ?thesis
    using False op inv upd
    by (cases op) (auto simp: handle_def complete_moves_def split: sum.split)
qed

text \<open>The state in which an answer is handled: its command is gone and an endpoint that was down is running again.\<close>

definition woken :: "ep_ref \<Rightarrow> world \<Rightarrow> world \<Rightarrow> world \<Rightarrow> bool" where
  "woken r w w2 w3 =
     (linv w3 \<and> frame_ep r w w3 \<and> w_neps w3 = w_neps w \<and> ep_pendingCmds (w_eps w3 r) = [] \<and>
      ep_App (w_eps w3 r) = ep_App (w_eps w r) \<and> w_cmds w3 = w_cmds w2 \<and>
      (if ep_State (w_eps w r) = EPstateDown then ep_State (w_eps w3 r) = EPstateRunning else w3 = w2))"

lemma answer_wakes:
  assumes inv: "linv w" and r: "r < w_neps w" and rem: "removeCmd e r u True w = (Some c, w1)"
  shows "ends (if ep_State (w_eps (loadOutfile e c w1) r) = EPstateDown
        then ChangeState e r EPstateRunning (loadOutfile e c w1) else Inr (loadOutfile e c w1))
      (\<lambda>_. False)
      (woken r w (loadOutfile e c w1))"
proof -
  let ?w2 = "loadOutfile e c w1"
  note t = taken [OF inv r rem]
  note f = calm_fields [OF t(2)]
  have fr: "frame_ep r w ?w2" by (rule calm_frame [OF t(2)])
  have r2: "r < w_neps ?w2" using r f by simp
  have info: "\<exists>a. ep_App (w_eps w r) = Some a \<and> recognized a" if "ep_State (w_eps w r) = EPstateDown"
    using inv r that by (auto simp: linv_def ep_ok_def app_ok_def Let_def)
  show ?thesis
  proof (cases "ep_State (w_eps w r) = EPstateDown")
    case True
    have "ends (ChangeState e r EPstateRunning ?w2)
        (\<lambda>_. unwatchable e ?w2 (Xpath e ?w2 r EP_PATH_OUTPUT) \<and> \<not> isWatchedState (ep_State (w_eps ?w2 r)) \<and> isWatchedState EPstateRunning)
        (\<lambda>w'. linv w' \<and> state_step r EPstateRunning ?w2 w')"
      using True t f info by (intro ChangeState_inv r2) (auto simp: may_enter_def)
    then show ?thesis
      unfolding f(1) if_P [OF True]
      by (rule ends_mono)
         (use True f t(3) fr in \<open>auto simp: woken_def state_step_def frame_ep_def [of r "loadOutfile e c w1"]
            intro: frame_ep_trans\<close>)
  qed (use t f fr in \<open>simp add: woken_def\<close>)
qed

lemma woken_handled:
  assumes inv: "linv w" and r: "r < w_neps w" and rem: "removeCmd e r u True w = (Some c, w1)"
    and kern: "isWatchedState (ep_State (w_eps w r)) \<or> inotify_ok e"
    and w3: "woken r w (loadOutfile e c w1) w3"
  shows "ends (handle e r (c_op (w_cmds w3 c)) (c_outJSON (w_cmds w3 c)) output w3)
     (\<lambda>_. unwatchable e w (Xpath e w r EP_PATH_OUTPUT) \<and> \<not> isWatchedState (ep_State (w_eps w r)))
     (\<lambda>(_, w'). linv w' \<and> frame_ep r w w' \<and> complete_moves (ep_State (w_eps w r)) (ep_State (w_eps w' r)))"
proof -
  note t = taken [OF inv r rem]
  note f = calm_fields [OF t(2)]
  note w3 = w3 [unfolded woken_def]
  have op: "c_op (w_cmds w3 c) = c_op (w_cmds w c)" using w3 t by simp
  have kern3: "isWatchedState (ep_State (w_eps w3 r)) \<or> inotify_ok e"
    using kern w3 f by (auto split: if_splits)
  have "ends (handle e r (c_op (w_cmds w3 c)) (c_outJSON (w_cmds w3 c)) output w3)
     (\<lambda>_. unwatchable e w3 (Xpath e w3 r EP_PATH_OUTPUT) \<and> \<not> isWatchedState (ep_State (w_eps w3 r)))
     (\<lambda>(_, w'). linv w' \<and> frame_ep r w3 w' \<and> complete_moves (ep_State (w_eps w3 r)) (ep_State (w_eps w' r)))"
    unfolding op by (rule handle_inv) (use r w3 t(5) f kern3 in \<open>auto simp: cmd_ok_def split: if_splits\<close>)
  then show ?thesis
    by (rule ends_mono)
       (use w3 f in \<open>auto simp: complete_moves_def Xpath_def unwatchable_def intro: frame_ep_trans split: if_splits\<close>)
qed

lemma Complete_inv:
  assumes inv: "linv w" and r: "r < w_neps w"
    and kern: "isWatchedState (ep_State (w_eps w r)) \<or> inotify_ok e"
  shows "ends (Complete e r u output w)
     (\<lambda>_. unwatchable e w (Xpath e w r EP_PATH_OUTPUT) \<and> \<not> isWatchedState (ep_State (w_eps w r)))
     (\<lambda>(_, w'). linv w' \<and> frame_ep r w w' \<and> complete_moves (ep_State (w_eps w r)) (ep_State (w_eps w' r)))"
proof -
  obtain c' w1 where rem: "removeCmd e r u True w = (c', w1)" by force
  show ?thesis
  proof (cases c')
    case None
    with rem have "w1 = w" by (auto dest: removeCmd_None)
    with None rem inv show ?thesis by (simp add: Complete_handle complete_moves_def)
  next
    case (Some c)
    let ?w2 = "loadOutfile e c w1"
    note t = taken [OF inv r rem [unfolded Some]]
    have "ends (bindr (if ep_State (w_eps ?w2 r) = EPstateDown then ChangeState e r EPstateRunning ?w2 else Inr ?w2)
           (\<lambda>w3. handle e r (c_op (w_cmds w3 c)) (c_outJSON (w_cmds w3 c)) output w3))
       (\<lambda>_. unwatchable e w (Xpath e w r EP_PATH_OUTPUT) \<and> \<not> isWatchedState (ep_State (w_eps w r)))
       (\<lambda>(_, w'). linv w' \<and> frame_ep r w w' \<and> complete_moves (ep_State (w_eps w r)) (ep_State (w_eps w' r)))"
      unfolding ends_bindr
      by (rule ends_mono [OF answer_wakes [OF inv r rem [unfolded Some]]])
         (simp_all add: woken_handled [OF inv r rem [unfolded Some] kern])
    then show ?thesis
      using Some rem t calm_fields [OF t(2)] calm_frame [OF t(2)]
      by (simp add: Complete_handle complete_moves_def Let_def del: ends_bindr)
  qed
qed

section \<open>Polling\<close>

text \<open>The query of an identified endpoint, the identification of a new one and the time-out of a running one.\<close>

lemma queryApp_inv:
  assumes inv: "linv w" and r: "r < w_neps w"
    and st: "ep_State (w_eps w r) \<in> {EPstateHasIdentity, EPstateRunning, EPstateDown}"
  shows "ends (queryApp e r w) (\<lambda>_. False) (\<lambda>(_, w'). calm r w w' \<and> linv w')"
proof -
  have ok: "pend_ok w r" "app_ok w r" using inv r by (simp_all add: linv_def ep_ok_def)
  obtain a where a: "ep_App (w_eps w r) = Some a"
      "ep_State (w_eps w r) \<in> {EPstateHasIdentity, EPstateRunning, EPstateDown} \<longrightarrow> recognized a"
    using ok(2) by (auto simp: app_ok_def Let_def)
  then have "recognized a" using st by blast
  from queryApp_calm [OF ok(1) a(1) this] show ?thesis
    by (rule ends_mono) (auto intro: inv_calm [OF inv r])
qed

lemma Poll_init:
  assumes inv: "linv w" and r: "r < w_neps w" and st: "ep_State (w_eps w r) = EPstateInit"
  shows "\<exists>err w'. Poll e r w = Inr (err, w') \<and> calm r w w' \<and> linv w'"
proof -
  have ok: "pend_ok w r" using inv r by (simp add: linv_def ep_ok_def)
  obtain u w1 where u: "new_uuid e w = (u, w1)" by force
  let ?cmd = "\<lparr>c_ep = r, c_cmd = ''GET /.*'', c_id = u, c_outJSON = [], c_err = None,
                c_op = IdentifyOp, c_start = zero_time\<rparr>"
  obtain c w2 where n: "new_cmd ?cmd w1 = (c, w2)" by force
  note uf = new_uuid_calm(1) [OF u, of r] new_uuid_calm(2-) [OF u]
  note nf = new_cmd_calm(1) [OF n, of r] new_cmd_calm(2-) [OF n]
  have calm: "calm r w (submit e c w2)"
    using uf(1) nf by (intro calm_trans [OF _ submit_calm] calm_trans [OF uf(1) nf(1)]) auto
  moreover have "pend_ok (submit e c w2) r"
    using nf uf st
    by (intro submit_pend_ok new_cmd_pend_ok [OF n] new_uuid_pend_ok [OF u] ok) (auto simp: cmd_ok_def)
  ultimately have "linv (submit e c w2)" by (rule inv_calm [OF inv r])
  with calm st show ?thesis by (simp add: Poll_def u n)
qed

lemma time_out_inv:
  assumes r: "r < w_neps w" and st: "ep_State (w_eps w r) = EPstateRunning" and w': "calm r w w'" "linv w'"
  shows "ends (if LastSeenIsStale e w' r \<and> ep_State (w_eps w' r) = EPstateRunning
        then bindr (ChangeState e r EPstateDown w') (\<lambda>w. Inr (err, w)) else Inr (err, w')) (\<lambda>_. False)
      (\<lambda>(_, w'). linv w' \<and> frame_ep r w w' \<and>
        (ep_State (w_eps w' r) = EPstateRunning \<or> ep_State (w_eps w' r) = EPstateDown \<and> LastSeenIsStale e w r))"
proof (cases "LastSeenIsStale e w r")
  case True
  note f = calm_fields [OF w'(1)]
  have r': "r < w_neps w'" using r f by simp
  then have "pend_ok w' r" "app_ok w' r" using w'(2) by (simp_all add: linv_def ep_ok_def)
  then have "may_enter w' r EPstateDown"
    using st f by (fastforce simp: may_enter_def app_ok_def pend_ok_def cmd_ok_def Let_def)
  then have "ends (ChangeState e r EPstateDown w')
      (\<lambda>_. unwatchable e w' (Xpath e w' r EP_PATH_OUTPUT) \<and> \<not> isWatchedState (ep_State (w_eps w' r)) \<and> isWatchedState EPstateDown)
      (\<lambda>w''. linv w'' \<and> state_step r EPstateDown w' w'')"
    using st f by (intro ChangeState_inv w' r') auto
  then have "ends (ChangeState e r EPstateDown w') (\<lambda>_. False)
      (\<lambda>w''. linv w'' \<and> frame_ep r w w'' \<and> (ep_State (w_eps w'' r) = EPstateRunning \<or>
        ep_State (w_eps w'' r) = EPstateDown \<and> LastSeenIsStale e w r))"
    by (rule ends_mono)
       (use st f True calm_frame [OF w'(1)] in \<open>auto simp: state_step_def intro: frame_ep_trans\<close>)
  then show ?thesis using f True st by (simp add: LastSeenIsStale_def)
next
  case False
  then show ?thesis
    using calm_fields [OF w'(1)] calm_frame [OF w'(1)] w' st by (simp add: LastSeenIsStale_def)
qed

lemma Poll_inv:
  assumes inv: "linv w" and r: "r < w_neps w"
  shows "ends (Poll e r w) (\<lambda>_. False)
     (\<lambda>(_, w'). linv w' \<and> frame_ep r w w' \<and>
        (ep_State (w_eps w' r) = ep_State (w_eps w r) \<or>
         ep_State (w_eps w r) = EPstateRunning \<and> ep_State (w_eps w' r) = EPstateDown \<and> LastSeenIsStale e w r))"
proof -
  have queried: "ends (queryApp e r w) (\<lambda>_. False)
      (\<lambda>(_, w'). linv w' \<and> frame_ep r w w' \<and> ep_State (w_eps w' r) = ep_State (w_eps w r))"
    if "ep_State (w_eps w r) \<in> {EPstateHasIdentity, EPstateRunning, EPstateDown}"
    using queryApp_inv [OF inv r that] by (rule ends_mono) (auto simp: calm_fields calm_frame)
  show ?thesis
  proof (cases "ep_State (w_eps w r)")
    case EPstateInit
    from Poll_init [OF inv r this, of e] show ?thesis by (auto simp: calm_fields calm_frame)
  next
    case EPstateHasIdentity
    with queried show ?thesis by (auto simp: Poll_def elim: ends_mono)
  next
    case EPstateDown
    with queried inv show ?thesis by (auto simp: Poll_def elim: ends_mono)
  next
    case EPstateRunning
    have "ep_App (w_eps w r) \<noteq> None" using inv r by (auto simp: linv_def ep_ok_def app_ok_def Let_def)
    moreover have "ends (bindr (queryApp e r w) (\<lambda>(err, w').
          if LastSeenIsStale e w' r \<and> ep_State (w_eps w' r) = EPstateRunning
          then bindr (ChangeState e r EPstateDown w') (\<lambda>w. Inr (err, w)) else Inr (err, w'))) (\<lambda>_. False)
        (\<lambda>(_, w'). linv w' \<and> frame_ep r w w' \<and>
          (ep_State (w_eps w' r) = EPstateRunning \<or> ep_State (w_eps w' r) = EPstateDown \<and> LastSeenIsStale e w r))"
      unfolding ends_bindr
      by (rule ends_mono [OF queryApp_inv [OF inv r]])
         (use EPstateRunning in \<open>auto simp del: ends_bindr split del: if_split intro!: time_out_inv [OF r EPstateRunning]\<close>)
    ultimately show ?thesis using EPstateRunning inv by (simp add: Poll_def del: ends_bindr)
  qed (use inv in \<open>simp_all add: Poll_def\<close>)
qed

end
