(* ===== verification/Container.thy ===== *)
theory Container
  imports EndpointInv
begin

text \<open>
  The endpoint container of \<open>endpointContainer.go\<close>: the map from uuids to endpoints, adding an endpoint
  that a scan or an inotify event has found, the periodic clean-up and poll over all endpoints, and
  the lookups of the other goroutines. Its mutex makes each operation one step. Every \<open>range\<close> over
  the map takes the visiting order as an argument.
\<close>

section \<open>The code\<close>

definition InitializeEpMap :: "world \<Rightarrow> world" where
  "InitializeEpMap w = w\<lparr>w_epc := (w_epc w)\<lparr>epc_epMap := []\<rparr>\<rparr>"

definition Lookup :: "uuid \<Rightarrow> world \<Rightarrow> ep_ref option" where
  "Lookup node w = map_of (w_epMap w) node"

definition GetList :: "world \<Rightarrow> (uuid, ep_ref) gomap" where
  "GetList w = w_epMap w"

definition TakeSnapshot :: "uuid list \<Rightarrow> world \<Rightarrow> (uuid, ep_ref) gomap" where
  "TakeSnapshot ord w =
     fold (\<lambda>k nodeMap. case map_of (w_epMap w) k of None \<Rightarrow> nodeMap | Some v \<Rightarrow> mput k v nodeMap) ord []"

definition MarkAlive :: "env \<Rightarrow> string \<Rightarrow> world \<Rightarrow> goerr option res" where
  "MarkAlive e serviceUUID w =
     (case e_uuid_Parse e serviceUUID of
        Inl err \<Rightarrow> Inr (Some err)
      | Inr serviceID \<Rightarrow>
          (case map_of (w_epMap w) serviceID of
             None \<Rightarrow> Inr None
           | Some r \<Rightarrow>
               if ep_State (w_eps w r) = EPstateInit \<or> ep_State (w_eps w r) = EPstateDown
               then Inl (Panic ''This code path is broken'') else Inr None))"

definition CleanEP :: "env \<Rightarrow> ep_ref \<Rightarrow> world \<Rightarrow> world res" where
  "CleanEP e r w =
     (let w = RemoveStaleFiles e r (flushStaleCmds e r w) in
      if ep_State (w_eps w r) = EPstateRunning \<and> LastSeenIsStale e w r then ChangeState e r EPstateDown w
      else if LsofGenIsStale w r then
        (if ep_State (w_eps w r) = EPstateRunning then Inr w else ChangeState e r EPstateRemoving w)
      else Inr w)"

definition CleanEPs :: "env \<Rightarrow> uuid list \<Rightarrow> world \<Rightarrow> world res" where
  "CleanEPs e ord w =
     for_each (\<lambda>u w. case map_of (w_epMap w) u of None \<Rightarrow> Inr w | Some r \<Rightarrow> CleanEP e r w) ord w"

text \<open>An error of \<open>Poll\<close> is logged and the loop goes on.\<close>

definition PollEPs :: "env \<Rightarrow> uuid list \<Rightarrow> world \<Rightarrow> world res" where
  "PollEPs e ord w =
     for_each (\<lambda>u w. case map_of (w_epMap w) u of None \<Rightarrow> Inr w
        | Some r \<Rightarrow> bindr (Poll e r w) (\<lambda>(err, w). Inr w)) ord w"

definition Process :: "env \<Rightarrow> uuid \<Rightarrow> uuid \<Rightarrow> world \<Rightarrow> world res" where
  "Process e epUuid cmdUuid w =
     (case Lookup epUuid w of
        None \<Rightarrow> Inr w
      | Some r \<Rightarrow> bindr (Complete e r cmdUuid None w) (\<lambda>(_, w). Inr w))"

definition new_ep :: "uuid \<Rightarrow> u64 \<Rightarrow> NcsiEP" where
  "new_ep epUuid gen =
     \<lparr>ep_App = Some (AUnrecognized new_Unrecognized), ep_Uuid = epUuid, ep_Name = [], ep_NiovaSvcType = [],
      ep_Port = 0, ep_LastSeen = zero_time, ep_State = EPstateUnknown, ep_EPInfo = zero_ctl,
      ep_pendingCmds = [], ep_lsofGen = gen, ep_watched = False, ep_wid = -1\<rparr>"

text \<open>\<open>&ep\<close>: a new endpoint object.\<close>

definition alloc_ep :: "NcsiEP \<Rightarrow> world \<Rightarrow> ep_ref \<times> world" where
  "alloc_ep x w = (w_neps w, w\<lparr>w_eps := (w_eps w)(w_neps w := x), w_neps := Suc (w_neps w)\<rparr>)"

definition AddEp :: "env \<Rightarrow> uuid \<Rightarrow> world \<Rightarrow> (bool \<times> world) res" where
  "AddEp e epUuid w =
     (case map_of (w_epMap w) epUuid of
        Some xep \<Rightarrow>
          bindr (LsofGenUpdate xep (w_gen w) w) (\<lambda>w.
          let newState = (case ep_State (w_eps w xep) of
                            EPstateRemoving \<Rightarrow> EPstateInit
                          | EPstateUnknown \<Rightarrow> EPstateInit
                          | s \<Rightarrow> s)
          in bindr (if newState \<noteq> ep_State (w_eps w xep) then ChangeState e xep newState w else Inr w)
               (\<lambda>w. Inr (False, w)))
      | None \<Rightarrow>
          let (ep, w) = alloc_ep (new_ep epUuid (w_gen w)) w in
          bindr (ChangeState e ep EPstateInit w) (\<lambda>w.
          Inr (True, w\<lparr>w_epc := (w_epc w)\<lparr>epc_epMap := mput epUuid ep (w_epMap w)\<rparr>\<rparr>)))"

definition LsofGenAddOrUpdateEp :: "env \<Rightarrow> uuid \<Rightarrow> world \<Rightarrow> world res" where
  "LsofGenAddOrUpdateEp e epUuid w = bindr (AddEp e epUuid w) (\<lambda>(_, w). Inr w)"

text \<open>
  The endpoints a request for the JSON document of one state selects; \<open>EPstateAny\<close> selects them all.
\<close>

definition JsonMarshal_select :: "Epstate \<Rightarrow> uuid list \<Rightarrow> world \<Rightarrow> (uuid, ep_ref) gomap" where
  "JsonMarshal_select state ord w =
     (if state = EPstateAny then w_epMap w
      else fold (\<lambda>k filtered. case map_of (w_epMap w) k of
             None \<Rightarrow> filtered
           | Some v \<Rightarrow> if ep_State (w_eps w v) = state then mput k v filtered else filtered) ord [])"

end
