(* ===== verification/ContainerInv.thy ===== *)
theory ContainerInv
  imports Container
begin

text \<open>
  The container keeps the state well-formed, and what the clean-up, the poll and the discovery of an
  endpoint do to the endpoints.
\<close>

section \<open>Steps over several endpoints\<close>

text \<open>\<open>same_lh w w'\<close>: of the handler at most the watch map has changed.\<close>

definition same_lh :: "world \<Rightarrow> world \<Rightarrow> bool" where
  "same_lh w w' =
     ((w_lh w')\<lparr>lh_inotify := w_ino w\<rparr> = w_lh w \<and>
      ino_ifd (w_ino w') = ino_ifd (w_ino w) \<and> ino_wd (w_ino w') = ino_wd (w_ino w))"

lemma same_lh_refl [simp]: "same_lh w w"
  by (simp add: same_lh_def)

lemma same_lh_trans: "same_lh w w' \<Longrightarrow> same_lh w' w'' \<Longrightarrow> same_lh w w''"
  unfolding same_lh_def
  by (metis LookoutHandler.surjective LookoutHandler.update_convs(6))

lemma same_lh_fields:
  assumes "same_lh w w'"
  shows "w_gen w' = w_gen w" "lh_CTLPath (w_lh w') = lh_CTLPath (w_lh w)" "lh_state (w_lh w') = lh_state (w_lh w)"
    "lh_PromPath (w_lh w') = lh_PromPath (w_lh w)" "lh_HttpPort (w_lh w') = lh_HttpPort (w_lh w)"
    "ino_wd (w_ino w') = ino_wd (w_ino w)"
proof -
  have lh: "(w_lh w')\<lparr>lh_inotify := w_ino w\<rparr> = w_lh w" using assms by (simp add: same_lh_def)
  show "w_gen w' = w_gen w" "lh_CTLPath (w_lh w') = lh_CTLPath (w_lh w)" "lh_state (w_lh w') = lh_state (w_lh w)"
    "lh_PromPath (w_lh w') = lh_PromPath (w_lh w)" "lh_HttpPort (w_lh w') = lh_HttpPort (w_lh w)"
    using arg_cong [OF lh, of lh_lsofGen] arg_cong [OF lh, of lh_CTLPath] arg_cong [OF lh, of lh_state]
      arg_cong [OF lh, of lh_PromPath] arg_cong [OF lh, of lh_HttpPort] by simp_all
  show "ino_wd (w_ino w') = ino_wd (w_ino w)" using assms by (simp add: same_lh_def)
qed

lemma frame_ep_same_lh: "frame_ep r w w' \<Longrightarrow> same_lh w w'"
  by (simp add: frame_ep_def same_lh_def)

text \<open>
  \<open>frame_all w w'\<close>: endpoints stay allocated and keep their uuid and generation, the container and the
  handler (up to the watch map) stay the same.
\<close>

definition frame_all :: "world \<Rightarrow> world \<Rightarrow> bool" where
  "frame_all w w' =
     (w_neps w' = w_neps w \<and> w_epc w' = w_epc w \<and> w_gen w' = w_gen w \<and> same_lh w w' \<and>
      (\<forall>r. ep_Uuid (w_eps w' r) = ep_Uuid (w_eps w r) \<and> ep_lsofGen (w_eps w' r) = ep_lsofGen (w_eps w r)))"

lemma frame_all_refl [simp]: "frame_all w w"
  by (simp add: frame_all_def)

lemma frame_all_trans: "frame_all w w' \<Longrightarrow> frame_all w' w'' \<Longrightarrow> frame_all w w''"
  by (auto simp: frame_all_def elim: same_lh_trans)

lemma frame_ep_all:
  assumes "frame_ep r w w'"
  shows "frame_all w w'"
proof -
  have "ep_Uuid (w_eps w' q) = ep_Uuid (w_eps w q) \<and> ep_lsofGen (w_eps w' q) = ep_lsofGen (w_eps w q)" for q
    using assms by (cases "q = r") (simp_all add: frame_ep_def)
  with assms frame_gen [OF assms] frame_ep_same_lh [OF assms] show ?thesis
    by (simp add: frame_all_def frame_ep_def)
qed

lemma inv_lookup:
  assumes "linv w" and "map_of (w_epMap w) u = Some r"
  shows "r < w_neps w" "ep_Uuid (w_eps w r) = u"
  using assms by (auto simp: linv_def maps_ok_def)

lemma inv_in_map: "linv w \<Longrightarrow> r < w_neps w \<Longrightarrow> map_of (w_epMap w) (ep_Uuid (w_eps w r)) = Some r"
  by (simp add: linv_def ep_ok_def)

text \<open>In a consistent state every endpoint has an application with data of its declared types.\<close>

lemma inv_typed:
  assumes "linv w" and "map_of (w_epMap w) u = Some r"
  shows "\<exists>a. ep_App (w_eps w r) = Some a \<and> typed_app a"
proof -
  have "r < w_neps w" using inv_lookup [OF assms] by simp
  then have "app_ok w r" using assms(1) by (simp add: linv_def ep_ok_def)
  then show ?thesis unfolding app_ok_def app_data_ok_def Let_def by blast
qed

section \<open>Clean-up\<close>

text \<open>What one clean-up makes of an endpoint.\<close>

definition cleaned :: "env \<Rightarrow> u64 \<Rightarrow> (cmd_ref \<Rightarrow> epCommand) \<Rightarrow> NcsiEP \<Rightarrow> NcsiEP" where
  "cleaned e gen cmds x =
     (let x = x\<lparr>ep_pendingCmds := filter (\<lambda>(k, c). \<not> cmdIsStale e (cmds c)) (ep_pendingCmds x)\<rparr> in
      if ep_State x = EPstateRunning then
        if e_now e - ep_LastSeen x > EPtimeout then x\<lparr>ep_State := EPstateDown\<rparr> else x
      else if ep_lsofGen x + 1 < gen then x\<lparr>ep_State := EPstateRemoving, ep_watched := False, ep_wid := -1\<rparr>
      else x)"

lemma flushStale_eq:
  assumes "pend_ok w r"
  shows "flushStaleCmds e r w = upd_ep r (\<lambda>x. x\<lparr>ep_pendingCmds :=
      filter (\<lambda>(k, c). \<not> cmdIsStale e (w_cmds w c)) (ep_pendingCmds x)\<rparr>) w"
proof -
  have "filter (\<lambda>(k, c). \<not> (k \<in> fst ` set (ep_pendingCmds (w_eps w r)) \<and> (False \<or> cmdIsStale e (w_cmds w c))))
      (ep_pendingCmds (w_eps w r)) = filter (\<lambda>(k, c). \<not> cmdIsStale e (w_cmds w c)) (ep_pendingCmds (w_eps w r))"
    by (rule filter_cong) force+
  with assms show ?thesis
    by (auto simp: flushStaleCmds_def flushCmds_eq pend_ok_def Let_def intro!: upd_ep_cong)
qed

lemma clean_prefix:
  fixes e :: env
  assumes inv: "linv w" and r: "r < w_neps w"
  defines w1: "w1 \<equiv> RemoveStaleFiles e r (flushStaleCmds e r w)"
  shows "linv w1" "calm r w w1" "w_cmds w1 = w_cmds w" "w_ncmds w1 = w_ncmds w"
    "w_eps w1 = (w_eps w)(r := (w_eps w r)\<lparr>ep_pendingCmds :=
        filter (\<lambda>(k, c). \<not> cmdIsStale e (w_cmds w c)) (ep_pendingCmds (w_eps w r))\<rparr>)"
proof -
  have pend: "pend_ok w r" using inv r by (simp add: linv_def ep_ok_def)
  note eq = flushStale_eq [OF pend, of e]
  have calm: "calm r w (flushStaleCmds e r w)" by (simp add: flushStaleCmds_def flushCmds_calm)
  then show "calm r w w1" by (auto simp: w1 RemoveStaleFiles_eq intro: calm_trans sys_calm)
  then show "linv w1"
    by (rule inv_calm [OF inv r])
       (simp add: w1 RemoveStaleFiles_eq sys_pend_ok flushStaleCmds_def flushCmds_pend_ok pend)
  show "w_cmds w1 = w_cmds w" "w_ncmds w1 = w_ncmds w"
    "w_eps w1 = (w_eps w)(r := (w_eps w r)\<lparr>ep_pendingCmds :=
        filter (\<lambda>(k, c). \<not> cmdIsStale e (w_cmds w c)) (ep_pendingCmds (w_eps w r))\<rparr>)"
    by (simp_all add: w1 RemoveStaleFiles_eq eq)
qed

text \<open>The two changes of state of a clean-up: a silent endpoint goes down, one that is gone is removed.\<close>

lemma down_step:
  assumes inv: "linv w" and r: "r < w_neps w" and st: "ep_State (w_eps w r) = EPstateRunning"
  shows "\<exists>w'. ChangeState e r EPstateDown w = Inr w' \<and> linv w' \<and> frame_ep r w w' \<and> w_cmds w' = w_cmds w \<and>
    w_eps w' = (w_eps w)(r := (w_eps w r)\<lparr>ep_State := EPstateDown\<rparr>)"
proof -
  have ok: "maps_ok w" "watch_ok w r" "app_ok w r" "pend_ok w r"
    using inv r by (simp_all add: linv_def ep_ok_def)
  have c: "ChangeState e r EPstateDown w = Inr (upd_ep r (state_upd e EPstateDown) w)"
    using st ok by (intro ChangeState_keep) auto
  have "may_enter w r EPstateDown"
    using ok st by (fastforce simp: may_enter_def app_ok_def pend_ok_def cmd_ok_def Let_def)
  with ChangeState_inv [OF inv r, of EPstateDown e] c st
  have "linv (upd_ep r (state_upd e EPstateDown) w)" by auto
  with c show ?thesis by (simp add: frame_ep_def state_upd_def)
qed

lemma removing_step:
  assumes inv: "linv w" and r: "r < w_neps w"
    and st: "ep_State (w_eps w r) \<noteq> EPstateRunning" "ep_State (w_eps w r) \<noteq> EPstateRemoving"
  shows "\<exists>w'. ChangeState e r EPstateRemoving w = Inr w' \<and> linv w' \<and> frame_ep r w w' \<and> w_cmds w' = w_cmds w \<and>
    w_eps w' = (w_eps w)(r := (w_eps w r)\<lparr>ep_State := EPstateRemoving, ep_watched := False, ep_wid := -1\<rparr>)"
proof -
  have ok: "maps_ok w" "watch_ok w r" "app_ok w r" using inv r by (simp_all add: linv_def ep_ok_def)
  have nu: "isWatchedState (ep_State (w_eps w r))"
    using ok(3) st by (cases "ep_State (w_eps w r)") (auto simp: app_ok_def Let_def)
  have c: "ChangeState e r EPstateRemoving w = Inr (upd_ep r (state_upd e EPstateRemoving) (unwatch r w))"
    using st ok nu by (intro ChangeState_unwatch) auto
  have "may_enter w r EPstateRemoving" by (simp add: may_enter_def)
  with ChangeState_inv [OF inv r, of EPstateRemoving e] c
  have "linv (upd_ep r (state_upd e EPstateRemoving) (unwatch r w))" by auto
  with c show ?thesis
    by (auto simp: frame_ep_def unwatch_def state_upd_def fun_eq_iff intro!: NcsiEP.equality)
qed

lemma CleanEP_eq:
  assumes inv: "linv w" and r: "r < w_neps w"
  shows "ends (CleanEP e r w) (\<lambda>_. False)
     (\<lambda>w'. linv w' \<and> frame_ep r w w' \<and> w_cmds w' = w_cmds w \<and>
        w_eps w' = (w_eps w)(r := cleaned e (w_gen w) (w_cmds w) (w_eps w r)))"
proof -
  let ?w = "RemoveStaleFiles e r (flushStaleCmds e r w)"
  note p = clean_prefix [OF inv r, of e]
  note f = calm_fields [OF p(2)]
  have fr: "frame_ep r w ?w" by (rule calm_frame [OF p(2)])
  have r1: "r < w_neps ?w" using r f by simp
  have watch: "watch_ok ?w r" using p(1) r1 by (simp add: linv_def ep_ok_def)
  consider
      (timeout) "ep_State (w_eps ?w r) = EPstateRunning" "LastSeenIsStale e ?w r"
    | (gone) "ep_State (w_eps ?w r) \<noteq> EPstateRunning" "LsofGenIsStale ?w r" "ep_State (w_eps ?w r) \<noteq> EPstateRemoving"
    | (rest) "ep_State (w_eps ?w r) = EPstateRunning \<longrightarrow> \<not> LastSeenIsStale e ?w r"
        "ep_State (w_eps ?w r) \<noteq> EPstateRunning \<and> LsofGenIsStale ?w r \<longrightarrow> ep_State (w_eps ?w r) = EPstateRemoving"
    by blast
  then show ?thesis
  proof cases
    case timeout
    from down_step [OF p(1) r1 timeout(1), of e] obtain w' where
      "ChangeState e r EPstateDown ?w = Inr w'" "linv w'" "frame_ep r ?w w'" "w_cmds w' = w_cmds ?w"
      "w_eps w' = (w_eps ?w)(r := (w_eps ?w r)\<lparr>ep_State := EPstateDown\<rparr>)" by blast
    with timeout frame_ep_trans [OF fr] p(3) show ?thesis
      by (simp add: CleanEP_def p(5) cleaned_def LastSeenIsStale_def)
  next
    case gone
    from removing_step [OF p(1) r1 gone(1,3), of e] obtain w' where
      "ChangeState e r EPstateRemoving ?w = Inr w'" "linv w'" "frame_ep r ?w w'" "w_cmds w' = w_cmds ?w"
      "w_eps w' = (w_eps ?w)(r := (w_eps ?w r)\<lparr>ep_State := EPstateRemoving, ep_watched := False, ep_wid := -1\<rparr>)"
      by blast
    with gone frame_ep_trans [OF fr] p(3) f show ?thesis
      by (simp add: CleanEP_def p(5) cleaned_def LsofGenIsStale_def)
  next
    case rest
    have "CleanEP e r w = Inr ?w"
      using rest by (auto simp: CleanEP_def Let_def ChangeState_def)
    moreover have "cleaned e (w_gen w) (w_cmds w) (w_eps w r) = w_eps ?w r"
      using rest f(12) watch
      by (auto simp: p(5) cleaned_def LastSeenIsStale_def LsofGenIsStale_def watch_ok_def Let_def
          intro!: NcsiEP.equality split: if_splits)
    ultimately show ?thesis using p fr by simp
  qed
qed

text \<open>
  A clean-up returns, whatever the environment answers, and does to every endpoint what \<open>cleaned\<close> says,
  in whatever order the map is visited.
\<close>

lemma CleanEPs_eq:
  assumes inv: "linv w" and ord: "range_order ord (w_epMap w)"
  shows "ends (CleanEPs e ord w) (\<lambda>_. False)
     (\<lambda>w'. linv w' \<and> frame_all w w' \<and> w_cmds w' = w_cmds w \<and>
        (\<forall>r < w_neps w. w_eps w' r = cleaned e (w_gen w) (w_cmds w) (w_eps w r)))"
proof -
  let ?f = "cleaned e (w_gen w) (w_cmds w)"
  let ?at = "map_of (w_epMap w)"
  define J where "J vis w' \<longleftrightarrow> linv w' \<and> frame_all w w' \<and> w_cmds w' = w_cmds w \<and>
     (\<forall>r < w_neps w. w_eps w' r = (if \<exists>u \<in> set vis. ?at u = Some r then ?f (w_eps w r) else w_eps w r))"
    for vis w'
  have keys: "distinct ord" "u \<in> set ord \<longleftrightarrow> ?at u \<noteq> None" for u
    using ord range_order_lookup [OF ord] by (auto simp: range_order_def)
  have "ends (CleanEPs e ord w) (\<lambda>_. False) (J ord)"
    unfolding CleanEPs_def
  proof (rule for_each_prefix)
    show "J [] w" using inv by (simp add: J_def)
  next
    fix vis u rest w'
    assume split: "ord = vis @ u # rest" and J: "J vis w'"
    then obtain r where r: "?at u = Some r" using keys(2) [of u] by auto
    have m: "w_epMap w' = w_epMap w" "w_neps w' = w_neps w" "w_gen w' = w_gen w" "w_cmds w' = w_cmds w" "linv w'"
      and fr: "frame_all w w'" using J by (auto simp: J_def frame_all_def)
    have rn: "r < w_neps w'" using inv_lookup [OF inv r] m by simp
    have new: "\<not> (\<exists>v \<in> set vis. ?at v = Some r)"
      using keys(1) split inv_lookup(2) [OF inv] r by (metis disjoint_insert(1) distinct_append list.simps(15))
    with J rn m have at: "w_eps w' r = w_eps w r" by (auto simp: J_def)
    have "ends (CleanEP e r w') (\<lambda>_. False) (J (vis @ [u]))"
      by (rule ends_mono [OF CleanEP_eq [OF m(5) rn]])
         (use J r m at fr in \<open>auto simp: J_def dest: frame_ep_all intro: frame_all_trans\<close>)
    then show "ends (case map_of (w_epMap w') u of None \<Rightarrow> Inr w' | Some r \<Rightarrow> CleanEP e r w')
        (\<lambda>_. False) (J (vis @ [u]))" by (simp add: m r)
  qed
  then show ?thesis
    by (rule ends_mono) (use inv_in_map [OF inv] keys(2) in \<open>fastforce simp: J_def\<close>)+
qed

section \<open>Polling\<close>

text \<open>
  A poll returns; it moves a running endpoint that has not been seen for \<open>EPtimeout\<close> to \<open>down\<close> and no
  other endpoint.
\<close>

definition poll_moves :: "env \<Rightarrow> NcsiEP \<Rightarrow> NcsiEP \<Rightarrow> bool" where
  "poll_moves e x x' =
     (ep_State x' = ep_State x \<or>
      ep_State x = EPstateRunning \<and> ep_State x' = EPstateDown \<and> e_now e - ep_LastSeen x > EPtimeout)"

lemma poll_moves_refl [simp]: "poll_moves e x x"
  by (simp add: poll_moves_def)

lemma PollEPs_inv:
  assumes inv: "linv w" and ord: "range_order ord (w_epMap w)"
  shows "ends (PollEPs e ord w) (\<lambda>_. False)
     (\<lambda>w'. linv w' \<and> frame_all w w' \<and> (\<forall>r < w_neps w. poll_moves e (w_eps w r) (w_eps w' r)))"
proof -
  let ?at = "map_of (w_epMap w)"
  define J where "J vis w' \<longleftrightarrow> linv w' \<and> frame_all w w' \<and>
     (\<forall>r < w_neps w. if \<exists>u \<in> set vis. ?at u = Some r then poll_moves e (w_eps w r) (w_eps w' r)
        else w_eps w' r = w_eps w r)" for vis w'
  have keys: "distinct ord" "u \<in> set ord \<longleftrightarrow> ?at u \<noteq> None" for u
    using ord range_order_lookup [OF ord] by (auto simp: range_order_def)
  have "ends (PollEPs e ord w) (\<lambda>_. False) (J ord)"
    unfolding PollEPs_def
  proof (rule for_each_prefix)
    show "J [] w" using inv by (simp add: J_def)
  next
    fix vis u rest w'
    assume split: "ord = vis @ u # rest" and J: "J vis w'"
    then obtain r where r: "?at u = Some r" using keys(2) [of u] by auto
    have m: "w_epMap w' = w_epMap w" "w_neps w' = w_neps w" "linv w'"
      and fr: "frame_all w w'" using J by (auto simp: J_def frame_all_def)
    have rn: "r < w_neps w'" using inv_lookup [OF inv r] m by simp
    have new: "\<not> (\<exists>v \<in> set vis. ?at v = Some r)"
      using keys(1) split inv_lookup(2) [OF inv] r by (metis disjoint_insert(1) distinct_append list.simps(15))
    with J rn m have at: "w_eps w' r = w_eps w r" by (auto simp: J_def)
    have "J (vis @ [u]) w''" if w'': "linv w''" "frame_ep r w' w''" "poll_moves e (w_eps w r) (w_eps w'' r)" for w''
      unfolding J_def
    proof (intro conjI allI impI)
      show "frame_all w w''" using fr w'' by (blast dest: frame_ep_all intro: frame_all_trans)
      fix q assume "q < w_neps w"
      then show "if \<exists>u \<in> set (vis @ [u]). ?at u = Some q then poll_moves e (w_eps w q) (w_eps w'' q)
          else w_eps w'' q = w_eps w q"
        using J w'' r new by (cases "q = r") (auto simp: J_def frame_ep_def)
    qed (rule w'')
    then have "ends (Poll e r w') (\<lambda>_. False) (\<lambda>(_, w). J (vis @ [u]) w)"
      by (intro ends_mono [OF Poll_inv [OF m(3) rn, of e]])
         (auto simp: poll_moves_def at LastSeenIsStale_def)
    then show "ends (case map_of (w_epMap w') u of None \<Rightarrow> Inr w'
        | Some r \<Rightarrow> bindr (Poll e r w') (\<lambda>(err, w). Inr w)) (\<lambda>_. False) (J (vis @ [u]))"
      by (simp add: m r) (erule ends_mono, auto)
  qed
  then show ?thesis
    by (rule ends_mono) (use inv_in_map [OF inv] keys(2) in \<open>fastforce simp: J_def split: if_splits\<close>)+
qed

section \<open>Discovery\<close>

lemma upd_gen_inv:
  assumes inv: "linv w" and r: "r < w_neps w" and g: "g \<le> w_gen w"
  shows "linv (upd_ep r (\<lambda>x. x\<lparr>ep_lsofGen := g\<rparr>) w)" (is "linv ?w")
proof -
  have "maps_ok ?w" using inv by (auto simp: linv_def maps_ok_def)
  moreover have "ep_ok ?w q" if "q < w_neps w" for q
  proof -
    have "ep_ok w q" using inv that by (simp add: linv_def)
    moreover have "cmd_ok ?w q = cmd_ok w q" by (cases "q = r") (simp_all add: cmd_ok_def fun_eq_iff)
    ultimately show ?thesis
      using g by (cases "q = r") (simp_all add: ep_ok_def watch_ok_def app_ok_def pend_ok_def Let_def)
  qed
  ultimately show ?thesis by (simp add: linv_def)
qed

lemma LsofGenUpdate_eq:
  assumes "linv w" and "r < w_neps w"
  shows "LsofGenUpdate r (w_gen w) w = Inr (upd_ep r (\<lambda>x. x\<lparr>ep_lsofGen := w_gen w\<rparr>) w)"
proof -
  have "ep_lsofGen (w_eps w r) \<le> w_gen w" using assms by (simp add: linv_def ep_ok_def)
  moreover have "upd_ep r (\<lambda>x. x\<lparr>ep_lsofGen := w_gen w\<rparr>) w = w" if "ep_lsofGen (w_eps w r) = w_gen w"
    using that by (intro upd_ep_id) (auto intro: NcsiEP.equality)
  ultimately show ?thesis by (auto simp: LsofGenUpdate_def)
qed

text \<open>
  An endpoint that is not watched, known or not, and one that cannot be: its directory is refused, or shares its
  descriptor with an endpoint that is watched.
\<close>

definition unwatched :: "world \<Rightarrow> uuid \<Rightarrow> bool" where
  "unwatched w u = (case map_of (w_epMap w) u of None \<Rightarrow> True | Some r \<Rightarrow> \<not> ep_watched (w_eps w r))"

definition blocked :: "env \<Rightarrow> world \<Rightarrow> uuid \<Rightarrow> bool" where
  "blocked e w u = (unwatched w u \<and> unwatchable e w (ep_dir e w u))"

lemma inv_watched: "linv w \<Longrightarrow> r < w_neps w \<Longrightarrow> ep_watched (w_eps w r) = isWatchedState (ep_State (w_eps w r))"
  by (simp add: linv_def ep_ok_def watch_ok_def Let_def)

text \<open>The registry has at most grown by the descriptor of one directory.\<close>

definition grows :: "env \<Rightarrow> uuid \<Rightarrow> world \<Rightarrow> world \<Rightarrow> bool" where
  "grows e u w w' =
     (\<forall>d q. map_of (w_wmap w') d = Some q \<longrightarrow> map_of (w_wmap w) d = Some q \<or>
        (\<exists>c. e_add_watch e (ep_dir e w u) = Inr c \<and> d = word_of_int c))"

lemma grows_same: "w_wmap w' = w_wmap w \<Longrightarrow> grows e u w w'"
  by (simp add: grows_def)

text \<open>The states a discovery leads to.\<close>

definition found :: "Epstate \<Rightarrow> Epstate" where
  "found s = (if s = EPstateRemoving then EPstateInit else s)"

text \<open>A removed endpoint that is found again is watched again.\<close>

lemma ChangeState_init_grows:
  assumes inv: "linv w" and r: "r < w_neps w" and ino: "inotify_ok e"
    and st: "ep_State (w_eps w r) = EPstateRemoving"
  shows "ends (ChangeState e r EPstateInit w) (\<lambda>_. unwatchable e w (Xpath e w r EP_PATH_OUTPUT))
      (\<lambda>w'. \<not> unwatchable e w (Xpath e w r EP_PATH_OUTPUT) \<and> grows e (ep_Uuid (w_eps w r)) w w')"
proof -
  have ok: "maps_ok w" "watch_ok w r" using inv r by (simp_all add: linv_def ep_ok_def)
  show ?thesis
  proof (cases "e_add_watch e (Xpath e w r EP_PATH_OUTPUT)")
    case (Inl err)
    then show ?thesis using ChangeState_watch [OF ok ino, of EPstateInit] st by (simp add: unwatchable_cases)
  next
    case (Inr d)
    then show ?thesis using ChangeState_watch [OF ok ino, of EPstateInit] st
      by (auto simp: unwatchable_cases grows_def watch_def Xpath_output split: if_splits)
  qed
qed

text \<open>Finding a known endpoint: its generation is updated and, when it was removed, it starts again.\<close>

definition refound :: "ep_ref \<Rightarrow> world \<Rightarrow> world \<Rightarrow> bool" where
  "refound r w w' =
     (linv w' \<and> w_epMap w' = w_epMap w \<and> same_lh w w' \<and> w_neps w' = w_neps w \<and>
      (\<forall>q. q \<noteq> r \<longrightarrow> w_eps w' q = w_eps w q) \<and> ep_lsofGen (w_eps w' r) = w_gen w \<and>
      ep_State (w_eps w' r) = found (ep_State (w_eps w r)))"

lemma refound_removed:
  assumes inv: "linv w" and r: "r < w_neps w" and st: "ep_State (w_eps w r) = EPstateRemoving"
    and ino: "inotify_ok e"
  shows "ends (ChangeState e r EPstateInit (upd_ep r (\<lambda>x. x\<lparr>ep_lsofGen := w_gen w\<rparr>) w))
      (\<lambda>_. unwatchable e w (Xpath e w r EP_PATH_OUTPUT))
      (\<lambda>w'. refound r w w' \<and> \<not> unwatchable e w (Xpath e w r EP_PATH_OUTPUT) \<and> grows e (ep_Uuid (w_eps w r)) w w')"
proof (rule ends_conj)
  let ?w = "upd_ep r (\<lambda>x. x\<lparr>ep_lsofGen := w_gen w\<rparr>) w"
  let ?un = "unwatchable e w (Xpath e w r EP_PATH_OUTPUT)"
  have w: "linv ?w" by (rule upd_gen_inv [OF inv r]) simp
  have dir: "Xpath e ?w r EP_PATH_OUTPUT = Xpath e w r EP_PATH_OUTPUT" "ep_dir e ?w = ep_dir e w"
    "unwatchable e ?w = unwatchable e w"
    by (simp_all add: Xpath_def ep_dir_def unwatchable_def fun_eq_iff)
  have "ends (ChangeState e r EPstateInit ?w)
      (\<lambda>_. unwatchable e ?w (Xpath e ?w r EP_PATH_OUTPUT) \<and> \<not> isWatchedState (ep_State (w_eps ?w r)) \<and> isWatchedState EPstateInit)
      (\<lambda>w'. linv w' \<and> state_step r EPstateInit ?w w')"
    using r st ino by (intro ChangeState_inv w) (auto simp: may_enter_def)
  then show "ends (ChangeState e r EPstateInit ?w) (\<lambda>_. ?un) (refound r w)"
  proof (rule ends_mono)
    fix w' assume s: "linv w' \<and> state_step r EPstateInit ?w w'"
    then have "same_lh w w'" using frame_ep_same_lh [of r ?w w'] by (simp add: state_step_def same_lh_def)
    with s st show "refound r w w'" by (simp add: state_step_def frame_ep_def refound_def found_def)
  qed (simp add: dir)
  show "ends (ChangeState e r EPstateInit ?w) (\<lambda>_. ?un) (\<lambda>w'. \<not> ?un \<and> grows e (ep_Uuid (w_eps w r)) w w')"
    using r st ino by (intro ends_mono [OF ChangeState_init_grows [OF w]]) (auto simp: dir grows_def)
qed

lemma AddEp_known:
  assumes inv: "linv w" and u: "map_of (w_epMap w) u = Some r"
    and ino: "ep_State (w_eps w r) = EPstateRemoving \<longrightarrow> inotify_ok e"
  shows "ends (AddEp e u w) (\<lambda>_. blocked e w u)
     (\<lambda>(added, w'). \<not> added \<and> \<not> blocked e w u \<and> linv w' \<and> w_epMap w' = w_epMap w \<and> same_lh w w' \<and>
        w_neps w' = w_neps w \<and> (\<forall>q. q \<noteq> r \<longrightarrow> w_eps w' q = w_eps w q) \<and> ep_lsofGen (w_eps w' r) = w_gen w \<and>
        ep_State (w_eps w' r) = found (ep_State (w_eps w r)) \<and> grows e u w w')"
proof -
  note r = inv_lookup [OF inv u]
  let ?w = "upd_ep r (\<lambda>x. x\<lparr>ep_lsofGen := w_gen w\<rparr>) w"
  show ?thesis
  proof (cases "ep_State (w_eps w r) = EPstateRemoving")
    case True
    then have "blocked e w u = unwatchable e w (Xpath e w r EP_PATH_OUTPUT)"
      using u r inv_watched [OF inv r(1)] by (simp add: blocked_def unwatched_def Xpath_output)
    moreover from ino True have k: "inotify_ok e" by simp
    ultimately show ?thesis
      using True u r(2) refound_removed [OF inv r(1) True k]
      by (simp add: AddEp_def LsofGenUpdate_eq [OF inv r(1)] refound_def Let_def conj_ac)
  next
    case False
    have w: "linv ?w" by (rule upd_gen_inv [OF inv r(1)]) simp
    have ne: "ep_State (w_eps w r) \<noteq> EPstateUnknown" "ep_State (w_eps w r) \<noteq> EPstateAny"
      using inv r(1) by (auto simp: linv_def ep_ok_def app_ok_def Let_def)
    then have "(case ep_State (w_eps ?w r) of EPstateRemoving \<Rightarrow> EPstateInit | EPstateUnknown \<Rightarrow> EPstateInit | s \<Rightarrow> s) =
        ep_State (w_eps ?w r)"
      using False by (cases "ep_State (w_eps w r)") simp_all
    then have "AddEp e u w = Inr (False, ?w)"
      using u by (simp add: AddEp_def LsofGenUpdate_eq [OF inv r(1)])
    moreover have "\<not> blocked e w u"
      using u False ne inv_watched [OF inv r(1)] by (simp add: blocked_def unwatched_def isWatchedState_def)
    moreover have "grows e u w ?w" by (rule grows_same) simp
    ultimately show ?thesis using w False by (simp add: found_def same_lh_def)
  qed
qed

text \<open>A state with one more endpoint, new and watched under a free descriptor, is consistent.\<close>

lemma one_more_inv:
  assumes inv: "linv w" and u: "map_of (w_epMap w) u = None"
    and d: "0 \<le> d" "d < 2 ^ 31" "map_of (w_wmap w) (word_of_int d :: i32) = None"
    and g: "w_neps w3 = Suc (w_neps w)" "w_epMap w3 = mput u (w_neps w) (w_epMap w)"
      "w_gen w3 = w_gen w" "w_wmap w3 = mput (word_of_int d) (w_neps w) (w_wmap w)" "w_cmds w3 = w_cmds w"
      "w_ncmds w3 = w_ncmds w" "ino_ifd (w_ino w3) = ino_ifd (w_ino w)" "ino_wd (w_ino w3) = ino_wd (w_ino w)"
    and g0: "\<And>q. q \<noteq> w_neps w \<Longrightarrow> w_eps w3 q = w_eps w q"
    and x: "ep_State (w_eps w3 (w_neps w)) = EPstateInit" "ep_Uuid (w_eps w3 (w_neps w)) = u"
      "ep_pendingCmds (w_eps w3 (w_neps w)) = []" "ep_lsofGen (w_eps w3 (w_neps w)) = w_gen w"
      "ep_watched (w_eps w3 (w_neps w))" "ep_wid (w_eps w3 (w_neps w)) = word_of_int d"
      "ep_App (w_eps w3 (w_neps w)) = Some (AUnrecognized new_Unrecognized)"
  shows "linv w3"
proof -
  let ?r = "w_neps w"
  let ?d = "word_of_int d :: i32"
  have up: "\<forall>v r. map_of (w_epMap w) v = Some r \<longrightarrow> r < ?r \<and> ep_Uuid (w_eps w r) = v"
    "\<forall>d r. map_of (w_wmap w) d = Some r \<longrightarrow> r < ?r \<and> ep_watched (w_eps w r) \<and> ep_wid (w_eps w r) = d"
    using inv by (auto simp: linv_def maps_ok_def)
  have "r < Suc ?r \<and> ep_Uuid (w_eps w3 r) = v" if "map_of (w_epMap w3) v = Some r" for v r
    using that up(1) g0 [of r] x by (cases "v = u") (fastforce simp: g)+
  moreover have "r < Suc ?r \<and> ep_watched (w_eps w3 r) \<and> ep_wid (w_eps w3 r) = c"
    if "map_of (w_wmap w3) c = Some r" for c r
    using that up(2) g0 [of r] x by (cases "c = ?d") (fastforce simp: g)+
  ultimately have "maps_ok w3" using inv by (simp add: linv_def maps_ok_def g)
  moreover have "ep_ok w3 q" if "q < Suc ?r" for q
  proof (cases "q = ?r")
    case True
    have "0 \<le> sint ?d" using d by (simp add: signed_of_int signed_take_bit_int_eq_self)
    with True x g d show ?thesis
      by (simp add: ep_ok_def watch_ok_def app_ok_def pend_ok_def Let_def)
  next
    case False
    with that have q: "q < ?r" by simp
    then have ok: "ep_ok w q" using inv by (simp add: linv_def)
    have "ep_Uuid (w_eps w q) \<noteq> u" using u inv_in_map [OF inv q] by auto
    moreover have "ep_watched (w_eps w q) \<Longrightarrow> ep_wid (w_eps w q) \<noteq> ?d"
      using ok d by (auto simp: ep_ok_def watch_ok_def Let_def)
    moreover have "cmd_ok w3 q = cmd_ok w q" using g by (simp add: cmd_ok_def fun_eq_iff g0 [OF False])
    ultimately show ?thesis
      using ok g g0 [OF False] by (simp add: ep_ok_def watch_ok_def app_ok_def pend_ok_def Let_def)
  qed
  ultimately show ?thesis using g by (simp add: linv_def)
qed

text \<open>A new endpoint before it is watched.\<close>

lemma alloc_fresh:
  assumes inv: "linv w" and a: "alloc_ep (new_ep u (w_gen w)) w = (r, w1)"
  shows "r = w_neps w" "w_eps w1 = (w_eps w)(w_neps w := new_ep u (w_gen w))" "w_neps w1 = Suc (w_neps w)"
    "w_lh w1 = w_lh w" "w_epc w1 = w_epc w" "w_cmds w1 = w_cmds w" "w_ncmds w1 = w_ncmds w"
    "maps_ok w1" "watch_ok w1 (w_neps w)" "Xpath e w1 (w_neps w) EP_PATH_OUTPUT = ep_dir e w u"
proof -
  show f: "r = w_neps w" "w_eps w1 = (w_eps w)(w_neps w := new_ep u (w_gen w))" "w_neps w1 = Suc (w_neps w)"
    "w_lh w1 = w_lh w" "w_epc w1 = w_epc w" "w_cmds w1 = w_cmds w" "w_ncmds w1 = w_ncmds w"
    using a by (auto simp: alloc_ep_def)
  have "map_of (w_wmap w) d \<noteq> Some (w_neps w)" "map_of (w_epMap w) v \<noteq> Some (w_neps w)" for d v
    using inv by (auto simp: linv_def maps_ok_def)
  then show "maps_ok w1" using inv by (auto simp: f linv_def maps_ok_def intro!: less_SucI)
  show "watch_ok w1 (w_neps w)" by (simp add: f watch_ok_def new_ep_def)
  show "Xpath e w1 (w_neps w) EP_PATH_OUTPUT = ep_dir e w u" by (simp add: Xpath_def ep_dir_def f new_ep_def)
qed

lemma AddEp_new:
  assumes inv: "linv w" and u: "map_of (w_epMap w) u = None" and ino: "inotify_ok e"
  shows "ends (AddEp e u w) (\<lambda>_. blocked e w u)
     (\<lambda>(added, w'). added \<and> \<not> blocked e w u \<and> linv w' \<and> w_epMap w' = mput u (w_neps w) (w_epMap w) \<and>
        same_lh w w' \<and> w_neps w' = Suc (w_neps w) \<and> (\<forall>q < w_neps w. w_eps w' q = w_eps w q) \<and>
        ep_State (w_eps w' (w_neps w)) = EPstateInit \<and> ep_Uuid (w_eps w' (w_neps w)) = u \<and>
        ep_pendingCmds (w_eps w' (w_neps w)) = [] \<and> ep_lsofGen (w_eps w' (w_neps w)) = w_gen w \<and> grows e u w w')"
proof -
  let ?r = "w_neps w"
  obtain w1 where a: "alloc_ep (new_ep u (w_gen w)) w = (?r, w1)" by (simp add: alloc_ep_def)
  note fr = alloc_fresh [OF inv a]
  note f = fr(2-7)
  have b: "blocked e w u = unwatchable e w (ep_dir e w u)" using u by (simp add: blocked_def unwatched_def)
  have st: "\<not> isWatchedState (ep_State (w_eps w1 ?r))" by (simp add: f new_ep_def)
  have cs: "ChangeState e ?r EPstateInit w1 =
     (case e_add_watch e (ep_dir e w u) of
        Inl err \<Rightarrow> Inl (Exit ''ep.lh.EpWatchAdd()'')
      | Inr d \<Rightarrow>
          if map_of (w_wmap w) (word_of_int d) \<noteq> None then Inl (Exit ''ep already exists at wid'')
          else Inr (upd_ep ?r (state_upd e EPstateInit) (watch e ?r (word_of_int d) w1)))"
    using ChangeState_watch [OF fr(8,9) ino st isWatchedState_simps(1)] unfolding fr(10) f(3) .
  show ?thesis
  proof (cases "blocked e w u")
    case True
    then show ?thesis using u by (auto simp: AddEp_def a cs b unwatchable_cases split: sum.splits)
  next
    case False
    then obtain d where Inr: "e_add_watch e (ep_dir e w u) = Inr d" and free: "map_of (w_wmap w) (word_of_int d) = None"
      by (auto simp: b unwatchable_cases split: sum.splits)
    let ?d = "word_of_int d :: i32"
    let ?w2 = "upd_ep ?r (state_upd e EPstateInit) (watch e ?r ?d w1)"
    define w3 where "w3 = ?w2\<lparr>w_epc := (w_epc ?w2)\<lparr>epc_epMap := mput u ?r (w_epMap ?w2)\<rparr>\<rparr>"
    have d: "0 \<le> d" "d < 2 ^ 31" "map_of (w_wmap w) ?d = None"
      using Inr ino free by (auto simp: inotify_ok_def)
    have g: "w_neps w3 = Suc ?r" "w_epMap w3 = mput u ?r (w_epMap w)"
      "w_gen w3 = w_gen w" "w_wmap w3 = mput ?d ?r (w_wmap w)" "w_cmds w3 = w_cmds w"
      "w_ncmds w3 = w_ncmds w" "ino_ifd (w_ino w3) = ino_ifd (w_ino w)" "ino_wd (w_ino w3) = ino_wd (w_ino w)"
      by (simp_all add: watch_def f w3_def)
    have g0: "w_eps w3 q = w_eps w q" if "q \<noteq> ?r" for q using that by (simp add: watch_def f w3_def)
    have x: "ep_State (w_eps w3 ?r) = EPstateInit" "ep_Uuid (w_eps w3 ?r) = u" "ep_pendingCmds (w_eps w3 ?r) = []"
      "ep_lsofGen (w_eps w3 ?r) = w_gen w" "ep_watched (w_eps w3 ?r)" "ep_wid (w_eps w3 ?r) = ?d"
      "ep_App (w_eps w3 ?r) = Some (AUnrecognized new_Unrecognized)"
      by (simp_all add: watch_def f new_ep_def w3_def)
    have "linv w3" by (rule one_more_inv [OF inv u d g g0 x])
    moreover have "AddEp e u w = Inr (True, w3)"
      using u Inr free by (simp add: AddEp_def a cs w3_def)
    moreover have "grows e u w w3" using Inr by (auto simp: grows_def g split: if_splits)
    moreover have "same_lh w w3" by (simp add: same_lh_def w3_def watch_def f)
    ultimately show ?thesis using False x g g0 by simp
  qed
qed

text \<open>
  Both cases together: the endpoint is in the map with the current generation, in a state that is not
  \<open>removing\<close>; no other endpoint changes.
\<close>

definition discovered :: "uuid \<Rightarrow> world \<Rightarrow> world \<Rightarrow> bool" where
  "discovered u w w' =
     (same_lh w w' \<and> w_neps w \<le> w_neps w' \<and>
      (\<forall>v. v \<noteq> u \<longrightarrow> map_of (w_epMap w') v = map_of (w_epMap w) v) \<and>
      (\<forall>q < w_neps w. ep_Uuid (w_eps w q) \<noteq> u \<longrightarrow> w_eps w' q = w_eps w q) \<and>
      (\<forall>q < w_neps w. ep_Uuid (w_eps w q) = u \<longrightarrow>
         ep_Uuid (w_eps w' q) = u \<and> ep_State (w_eps w' q) = found (ep_State (w_eps w q))) \<and>
      (\<forall>q. w_neps w \<le> q \<and> q < w_neps w' \<longrightarrow> ep_Uuid (w_eps w' q) = u \<and> ep_State (w_eps w' q) = EPstateInit) \<and>
      (\<exists>r < w_neps w'. map_of (w_epMap w') u = Some r \<and> ep_lsofGen (w_eps w' r) = w_gen w'))"

text \<open>Afterwards the endpoint is watched, and no other endpoint has lost its watch.\<close>

lemma discovered_watched:
  assumes inv: "linv w'" and d: "discovered u w w'"
  shows "\<exists>r < w_neps w'. map_of (w_epMap w') u = Some r \<and> ep_lsofGen (w_eps w' r) = w_gen w \<and> ep_watched (w_eps w' r)"
proof -
  from d obtain r where r: "r < w_neps w'" "map_of (w_epMap w') u = Some r" "ep_lsofGen (w_eps w' r) = w_gen w'"
    by (auto simp: discovered_def)
  then have u: "ep_Uuid (w_eps w' r) = u" by (auto dest: inv_lookup [OF inv])
  have "ep_State (w_eps w' r) \<noteq> EPstateRemoving"
  proof (cases "r < w_neps w")
    case True
    then have "ep_Uuid (w_eps w r) \<noteq> u \<Longrightarrow> w_eps w' r = w_eps w r" using d by (simp add: discovered_def)
    with u have "ep_Uuid (w_eps w r) = u" by metis
    with True d have "ep_State (w_eps w' r) = found (ep_State (w_eps w r))" by (simp add: discovered_def)
    then show ?thesis by (simp add: found_def)
  next
    case False
    with d r(1) show ?thesis by (simp add: discovered_def)
  qed
  moreover have "app_ok w' r" using inv r(1) by (simp add: linv_def ep_ok_def)
  ultimately have "ep_watched (w_eps w' r)"
    using inv_watched [OF inv r(1)] by (auto simp: app_ok_def Let_def isWatchedState_def)
  moreover have "w_gen w' = w_gen w" using d same_lh_fields(1) by (auto simp: discovered_def)
  ultimately show ?thesis using r by auto
qed

lemma discovered_unwatched:
  assumes inv: "linv w" "linv w'" and d: "discovered u w w'" and v: "unwatched w' v"
  shows "unwatched w v \<and> v \<noteq> u"
proof
  show ne: "v \<noteq> u" using discovered_watched [OF inv(2) d] v by (auto simp: unwatched_def)
  have "map_of (w_epMap w') v = map_of (w_epMap w) v" using d ne by (simp add: discovered_def)
  moreover have "w_eps w' r = w_eps w r" if "map_of (w_epMap w) v = Some r" for r
    using d inv_lookup [OF inv(1) that] ne by (simp add: discovered_def)
  ultimately show "unwatched w v" using v by (auto simp: unwatched_def split: option.splits)
qed

lemma AddEp_inv:
  assumes inv: "linv w" and ino: "inotify_ok e"
  shows "ends (AddEp e u w) (\<lambda>_. blocked e w u)
     (\<lambda>(added, w'). linv w' \<and> \<not> blocked e w u \<and> grows e u w w' \<and> discovered u w w' \<and>
        (added \<longleftrightarrow> map_of (w_epMap w) u = None))"
proof (cases "map_of (w_epMap w) u")
  case None
  then have ne: "q < w_neps w \<Longrightarrow> ep_Uuid (w_eps w q) \<noteq> u" for q using inv_in_map [OF inv] by fastforce
  show ?thesis
    by (rule ends_mono [OF AddEp_new [OF inv None ino]])
       (use None ne same_lh_fields(1) in \<open>fastforce simp: discovered_def le_less_Suc_eq\<close>)+
next
  case (Some r)
  note r = inv_lookup [OF inv Some]
  have uniq: "q = r" if "q < w_neps w" "ep_Uuid (w_eps w q) = u" for q
    using inv_in_map [OF inv that(1)] that(2) Some by simp
  have same: "ep_Uuid (w_eps w' r) = u" if "linv w'" "w_epMap w' = w_epMap w" for w'
    using inv_lookup(2) [OF that(1)] that(2) Some by simp
  show ?thesis
  proof (rule ends_mono [OF AddEp_known [OF inv Some]])
    fix x assume "case x of (added, w') \<Rightarrow> \<not> added \<and> \<not> blocked e w u \<and> linv w' \<and> w_epMap w' = w_epMap w \<and>
        same_lh w w' \<and> w_neps w' = w_neps w \<and> (\<forall>q. q \<noteq> r \<longrightarrow> w_eps w' q = w_eps w q) \<and>
        ep_lsofGen (w_eps w' r) = w_gen w \<and> ep_State (w_eps w' r) = found (ep_State (w_eps w r)) \<and> grows e u w w'"
    then obtain w' where x: "x = (False, w')" "linv w'" "w_epMap w' = w_epMap w" "same_lh w w'"
        "w_neps w' = w_neps w" "\<forall>q. q \<noteq> r \<longrightarrow> w_eps w' q = w_eps w q" "ep_lsofGen (w_eps w' r) = w_gen w"
        "ep_State (w_eps w' r) = found (ep_State (w_eps w r))" "grows e u w w'" "\<not> blocked e w u"
      by (cases x) auto
    have "w_eps w' q = w_eps w q" if "ep_Uuid (w_eps w q) \<noteq> u" for q using that x(6) r(2) by auto
    moreover have known: "ep_Uuid (w_eps w' q) = u \<and> ep_State (w_eps w' q) = found (ep_State (w_eps w q))"
      if "q < w_neps w" "ep_Uuid (w_eps w q) = u" for q
      using uniq [OF that] same [OF x(2,3)] x(8) by simp
    moreover have "same_lh w w'" "w_gen w' = w_gen w" using x(4) same_lh_fields by blast+
    moreover have "\<exists>r < w_neps w. map_of (w_epMap w) u = Some r \<and> ep_lsofGen (w_eps w' r) = w_gen w"
      using Some r x(7) by blast
    ultimately have "discovered u w w'"
      unfolding discovered_def x(3) x(5) by (simp add: known not_less [symmetric])
    with x(1,2,9,10) Some show "case x of (added, w') \<Rightarrow> linv w' \<and> \<not> blocked e w u \<and> grows e u w w' \<and>
        discovered u w w' \<and> (added \<longleftrightarrow> map_of (w_epMap w) u = None)" by simp
  qed (use ino in auto)
qed

lemma Process_inv:
  assumes inv: "linv w" and ino: "inotify_ok e"
  shows "ends (Process e u c w) (\<lambda>_. blocked e w u)
     (\<lambda>w'. linv w' \<and> frame_all w w' \<and>
        (\<forall>r < w_neps w. complete_moves (ep_State (w_eps w r)) (ep_State (w_eps w' r))))"
proof (cases "map_of (w_epMap w) u")
  case None
  with inv show ?thesis by (simp add: Process_def Lookup_def complete_moves_def)
next
  case (Some r)
  note r = inv_lookup [OF inv Some]
  have b: "unwatchable e w (Xpath e w r EP_PATH_OUTPUT) \<and> \<not> isWatchedState (ep_State (w_eps w r)) \<longleftrightarrow> blocked e w u"
    using Some r inv_watched [OF inv r(1)] by (auto simp: blocked_def unwatched_def Xpath_output)
  show ?thesis
    unfolding Process_def Lookup_def Some option.case ends_bindr
  proof (rule ends_mono [OF Complete_inv [OF inv r(1) disjI2 [OF ino], of c None, unfolded b]], clarsimp)
    fix w' assume w': "linv w'" "frame_ep r w w'" "complete_moves (ep_State (w_eps w r)) (ep_State (w_eps w' r))"
    have "complete_moves (ep_State (w_eps w q)) (ep_State (w_eps w' q))" for q
      using w' by (cases "q = r") (auto simp: frame_ep_def complete_moves_def)
    then show "frame_all w w' \<and> (\<forall>r<w_neps w. complete_moves (ep_State (w_eps w r)) (ep_State (w_eps w' r)))"
      using frame_ep_all [OF w'(2)] by blast
  qed
qed

end
