(* ===== verification/Lookout.thy ===== *)
theory Lookout
  imports ContainerInv
begin

text \<open>
  The handler of \<open>lookout.go\<close>: the scan of the processes' open files, the monitor loop, the decoding of
  the bytes \<open>read\<close> returns from the inotify descriptor into events, the dispatch of an event, and the
  start-up.
\<close>

section \<open>Scanning open files\<close>

text \<open>The links of one process; only the first one under the endpoint directory that names a uuid counts.\<close>

fun lsof_fds :: "env \<Rightarrow> string \<Rightarrow> string list \<Rightarrow> world \<Rightarrow> world res" where
  "lsof_fds e fdDir [] w = Inr w"
| "lsof_fds e fdDir (fd # fds) w =
     (case e_readlink e (PathJoin [fdDir, fd]) of
        Inl _ \<Rightarrow> lsof_fds e fdDir fds w
      | Inr lnk \<Rightarrow>
          if \<not> HasPrefix lnk (lh_CTLPath (w_lh w)) then lsof_fds e fdDir fds w
          else case e_uuid_Parse e (Base (Dir lnk)) of
                 Inr u \<Rightarrow> LsofGenAddOrUpdateEp e u w
               | Inl _ \<Rightarrow> lsof_fds e fdDir fds w)"

definition lsof_entry :: "env \<Rightarrow> string \<times> bool \<Rightarrow> world \<Rightarrow> world res" where
  "lsof_entry e en w =
     (let pid = fst en in
      if \<not> snd en then Inr w
      else case pid of
        [] \<Rightarrow> Inl index_panic
      | c # _ \<Rightarrow>
          if (of_char c :: nat) < of_char (CHR ''0'') \<or> of_char (CHR ''9'') < (of_char c :: nat) then Inr w
          else let fdDir = PathJoin [''/proc'', pid, ''fd''] in
               case e_readdir e fdDir of
                 Inl _ \<Rightarrow> Inr w
               | Inr fds \<Rightarrow> lsof_fds e fdDir (map fst fds) w)"

definition bump_gen :: "world \<Rightarrow> world" where
  "bump_gen w = w\<lparr>w_lh := (w_lh w)\<lparr>lh_lsofGen := w_gen w + 1\<rparr>\<rparr>"

definition lookoutLsof :: "env \<Rightarrow> world \<Rightarrow> (goerr option \<times> world) res" where
  "lookoutLsof e w =
     (case e_readdir e ''/proc'' of
        Inl err \<Rightarrow> Inr (Some err, w)
      | Inr procEntries \<Rightarrow>
          bindr (for_each (lsof_entry e) procEntries (bump_gen w)) (\<lambda>w. Inr (None, w)))"

section \<open>The monitor loop\<close>

text \<open>
  \<open>LOOKOUT_SLEEP\<close> and what \<open>time.ParseDuration\<close> makes of it: the time between two rounds and the error
  \<open>monitor\<close> would return.
\<close>

definition monitor_sleep :: "(string \<Rightarrow> goerr + gotime) \<Rightarrow> string \<Rightarrow> goerr option \<times> gotime" where
  "monitor_sleep ParseDuration sleepEnv =
     (let (err, sleepTime) =
        (if sleepEnv \<noteq> [] then
           (case ParseDuration sleepEnv of Inl err \<Rightarrow> (Some err, 0) | Inr t \<Rightarrow> (None, t))
         else (None, 0))
      in (err, if sleepTime = 0 then 20 * second else sleepTime))"

definition monitor_start :: "world \<Rightarrow> world res" where
  "monitor_start w =
     (if lh_state (w_lh w) \<noteq> BOOTING then Inl (Panic ''Invalid lookoutState'')
      else Inr (w\<lparr>w_lh := (w_lh w)\<lparr>lh_state := RUNNING\<rparr>\<rparr>))"

text \<open>
  One round of the loop; \<open>None\<close> when the loop ends. The two visiting orders are those of the two ranges.
\<close>

definition monitor_round :: "env \<Rightarrow> uuid list \<Rightarrow> uuid list \<Rightarrow> world \<Rightarrow> world option res" where
  "monitor_round e ord1 ord2 w =
     (if lh_state (w_lh w) = SHUTDOWN then Inr None
      else bindr (CleanEPs e ord1 w) (\<lambda>w. bindr (PollEPs e ord2 w) (\<lambda>w. Inr (Some w))))"

section \<open>Events\<close>

text \<open>\<open>unix.InotifyEvent\<close> with the name that follows it.\<close>

record inotifyEvent =
  ev_Name :: string
  ev_Wd :: i32
  ev_Mask :: "32 word"
  ev_Cookie :: "32 word"
  ev_Len :: "32 word"

definition processEvent :: "env \<Rightarrow> inotifyEvent \<Rightarrow> world \<Rightarrow> world res" where
  "processEvent e ev w =
     (if ev_Wd ev = ino_wd (w_ino w) then
        (case e_uuid_Parse e (ev_Name ev) of
           Inl _ \<Rightarrow> Inr w
         | Inr epUuid \<Rightarrow> bindr (AddEp e epUuid w) (\<lambda>(_, w). Inr w))
      else
        let evfile = ev_Name ev in
        case epWatchLookup w (ev_Wd ev) of
          None \<Rightarrow> Inr w
        | Some ep \<Rightarrow>
            if HasPrefix evfile ''.'' then Inr w
            else if \<not> HasPrefix evfile LookoutPrefixStr then Inr w
            else case e_uuid_Parse e (drop (length LookoutPrefixStr) evfile) of
                   Inl _ \<Rightarrow> Inr w
                 | Inr cmdUuid \<Rightarrow> bindr (Complete e ep cmdUuid None w) (\<lambda>(_, w). Inr w))"

section \<open>Start-up\<close>

definition writePromPath :: "env \<Rightarrow> world \<Rightarrow> goerr option \<times> world" where
  "writePromPath e w =
     (let path = lh_PromPath (w_lh w); s = Itoa (lh_HttpPort (w_lh w)) in
      case e_open_append e path of
        Some err \<Rightarrow> (Some err, w)
      | None \<Rightarrow>
          let w = sys (SysAppendFile path s) w in
          (case e_append e path s of
             Some err \<Rightarrow> (Some err, w)
           | None \<Rightarrow> (e_close e path, w)))"

definition epInotifyStart :: "env \<Rightarrow> world \<Rightarrow> world res" where
  "epInotifyStart e w =
     (let w = upd_ino (\<lambda>i. i\<lparr>ino_ifd := -1, ino_wd := -1, ino_wmap := []\<rparr>) w in
      case e_inotify_init e of
        Inl err \<Rightarrow> Inl (Exit ''unix.InotifyInit()'')
      | Inr fd \<Rightarrow>
          if fd < 0 then Inl (Exit ''unix.InotifyInit()'')
          else
            let w = upd_ino (\<lambda>i. i\<lparr>ino_ifd := fd\<rparr>) w;
                path = lh_CTLPath (w_lh w);
                w = sys (SysAddWatch path (IN_CREATE + IN_ATTRIB)) w
            in case e_add_watch e path of
                 Inl err \<Rightarrow> Inl (Exit ''unix.InotifyAddWatch()'')
               | Inr wid \<Rightarrow>
                   if wid < 0 then Inl (Exit ''unix.InotifyAddWatch()'')
                   else Inr (upd_ino (\<lambda>i. i\<lparr>ino_wd := word_of_int wid\<rparr>) w))"

text \<open>\<open>Start\<close> up to the monitor loop: an error is returned, else the loop begins in the state returned.\<close>

definition Start :: "env \<Rightarrow> world \<Rightarrow> (goerr option \<times> world) res" where
  "Start e w =
     (case e_stat e (lh_CTLPath (w_lh w)) of
        Inl err \<Rightarrow> Inr (Some err, w)
      | Inr _ \<Rightarrow>
          bindr (epInotifyStart e (InitializeEpMap w)) (\<lambda>w.
          let (err, w) = writePromPath e w in
          case err of
            Some er \<Rightarrow> Inr (Some er, w)
          | None \<Rightarrow>
              bindr (lookoutLsof e w) (\<lambda>(_, w).
              bindr (monitor_start w) (\<lambda>w. Inr (None, w)))))"

end
