(* ===== verification/InotifyBuf.thy ===== *)
theory InotifyBuf
  imports Lookout
begin

text \<open>
  \<open>epInotifyWatch\<close> of \<open>lookout.go\<close>: the events in the bytes that \<open>read\<close> leaves in its buffer. Offsets are
  \<open>uint32\<close>; a buffer is the list of its bytes. The loop is total: a slice beyond the buffer panics, so
  the offset grows with each event.
\<close>

section \<open>The code\<close>

abbreviation (input) SizeofInotifyEvent :: "32 word" where "SizeofInotifyEvent \<equiv> 16"

text \<open>\<open>make([]byte, 4096)\<close>.\<close>

definition ev_bufsize :: nat where "ev_bufsize = 4096"

text \<open>An event that fits moves the offset forward.\<close>

lemma ev_off_grows:
  assumes "unat off + 16 \<le> ev_bufsize" and "\<not> hi < off + SizeofInotifyEvent"
  shows "unat off + 16 \<le> unat hi"
proof -
  have "unat (off + 16) = unat off + 16"
    using assms(1) by (subst unat_add_lem [THEN iffD1]) (simp_all add: ev_bufsize_def)
  with assms(2) show ?thesis by (simp add: word_less_nat_alt)
qed

text \<open>
  A range of the buffer \<open>buf[lo:hi]\<close> panics unless \<open>lo \<le> hi \<le> cap\<close>. An event header that reaches beyond
  the buffer is read through an unsafe pointer; the slice that follows starts beyond the buffer then
  and panics whatever was read. Lists of another length than the buffer's are not buffers; the first
  line only makes the function total.
\<close>

function ev_loop :: "string \<Rightarrow> 32 word \<Rightarrow> 32 word \<Rightarrow> inotifyEvent list \<times> halt option" where
  "ev_loop buf lim off =
     (if length buf \<noteq> ev_bufsize \<or> lim < off then ([], None)
      else if length buf \<le> unat off then ([], Some index_panic)
      else if length buf < unat off + 16 then ([], Some (Panic ''slice bounds out of range''))
      else
        let len = get32 buf (unat off + 12);
            lo = off + SizeofInotifyEvent;
            hi = off + SizeofInotifyEvent + len
        in if hi < lo \<or> length buf < unat hi then ([], Some (Panic ''slice bounds out of range''))
           else
             let ev = \<lparr>ev_Name = TrimRight (CHR 0x00) (take (unat hi - unat lo) (drop (unat lo) buf)),
                       ev_Wd = get32 buf (unat off), ev_Mask = get32 buf (unat off + 4),
                       ev_Cookie = get32 buf (unat off + 8), ev_Len = len\<rparr>;
                 (evs, h) = ev_loop buf lim hi
             in (ev # evs, h))"
  by pat_completeness auto

termination ev_loop
  by (relation "measure (\<lambda>(buf, lim, off). ev_bufsize + 1 - unat off)")
     (use ev_off_grows in \<open>force simp: word_le_nat_alt not_less\<close>)+

declare ev_loop.simps [simp del]

text \<open>
  One iteration of the outer loop on what \<open>read\<close> returned: the number of bytes and the buffer, or an
  error; \<open>None\<close> for the state when the loop ends.
\<close>

definition EAGAIN :: goerr where "EAGAIN = OsErr 11"

definition EINTR :: goerr where "EINTR = OsErr 4"

definition epInotifyWatch_iter :: "env \<Rightarrow> goerr + int \<times> string \<Rightarrow> world \<Rightarrow> world option res" where
  "epInotifyWatch_iter e rd w =
     (if lh_state (w_lh w) = SHUTDOWN then Inr None
      else case rd of
        Inl err \<Rightarrow> if err = EAGAIN \<or> err = EINTR then Inr (Some w) else Inl (Exit ''unix.Read()'')
      | Inr (n, buf) \<Rightarrow>
          let (evs, h) = ev_loop buf (word_of_int (n - 16)) 0 in
          bindr (for_each (processEvent e) evs w) (\<lambda>w.
            case h of None \<Rightarrow> Inr (Some w) | Some x \<Rightarrow> Inl x))"

section \<open>What the kernel writes\<close>

text \<open>An event as \<open>inotify(7)\<close> lays it out: the header and the name padded with NUL bytes to \<open>ev_Len\<close>.\<close>

definition ev_bytes :: "inotifyEvent \<Rightarrow> string" where
  "ev_bytes ev =
     put32 (ev_Wd ev) @ put32 (ev_Mask ev) @ put32 (ev_Cookie ev) @ put32 (ev_Len ev) @
     ev_Name ev @ replicate (unat (ev_Len ev) - length (ev_Name ev)) (CHR 0x00)"

definition ev_valid :: "inotifyEvent \<Rightarrow> bool" where
  "ev_valid ev = (length (ev_Name ev) \<le> unat (ev_Len ev) \<and> CHR 0x00 \<notin> set (ev_Name ev))"

lemma length_ev_bytes: "ev_valid ev \<Longrightarrow> length (ev_bytes ev) = 16 + unat (ev_Len ev)"
  by (simp add: ev_bytes_def ev_valid_def)

text \<open>
  Reading back: a buffer that starts with the bytes of valid events gives those events, and the loop
  stops at the end of the last one; what an earlier read has left behind it is not looked at.
\<close>

lemma ev_loop_done: "length buf = ev_bufsize \<Longrightarrow> lim < off \<Longrightarrow> ev_loop buf lim off = ([], None)"
  by (simp add: ev_loop.simps [of buf lim off])

lemma ev_loop_step:
  assumes buf: "buf = pre @ ev_bytes ev @ post" and len: "length buf = ev_bufsize"
    and ev: "ev_valid ev" and off: "unat off = length pre" and lim: "off \<le> lim"
  shows "ev_loop buf lim off =
    (let (evs, h) = ev_loop buf lim (of_nat (length pre + length (ev_bytes ev))) in (ev # evs, h))"
proof -
  let ?o = "length pre"
  note lb = length_ev_bytes [OF ev]
  have bound: "?o + 16 + unat (ev_Len ev) \<le> ev_bufsize" using buf len lb by simp
  have parts: "buf = pre @ put32 (ev_Wd ev) @ (put32 (ev_Mask ev) @ put32 (ev_Cookie ev) @ put32 (ev_Len ev) @
      ev_Name ev @ replicate (unat (ev_Len ev) - length (ev_Name ev)) (CHR 0x00) @ post)"
    by (simp add: buf ev_bytes_def)
  have fields: "get32 buf ?o = ev_Wd ev"
    by (rule get32_put32) (simp_all add: parts)
  have fields2: "get32 buf (?o + 4) = ev_Mask ev"
    by (rule get32_put32 [where xs = "pre @ put32 (ev_Wd ev)"]) (simp_all add: parts)
  have fields3: "get32 buf (?o + 8) = ev_Cookie ev"
    by (rule get32_put32 [where xs = "pre @ put32 (ev_Wd ev) @ put32 (ev_Mask ev)"]) (simp_all add: parts)
  have fields4: "get32 buf (?o + 12) = ev_Len ev"
    by (rule get32_put32 [where xs = "pre @ put32 (ev_Wd ev) @ put32 (ev_Mask ev) @ put32 (ev_Cookie ev)"])
       (simp_all add: parts)
  have lo: "unat (off + 16) = ?o + 16"
    using bound off by (subst unat_add_lem [THEN iffD1]) (simp_all add: ev_bufsize_def)
  have hi: "unat (off + 16 + ev_Len ev) = ?o + 16 + unat (ev_Len ev)"
    using bound lo by (subst unat_add_lem [THEN iffD1]) (simp_all add: ev_bufsize_def)
  have hi': "off + 16 + ev_Len ev = of_nat (?o + length (ev_bytes ev))"
    using lb hi [symmetric] by (simp add: add.assoc [symmetric])
  have name: "TrimRight (CHR 0x00) (take (unat (ev_Len ev)) (drop (?o + 16) buf)) = ev_Name ev"
  proof -
    have "drop (?o + 16) buf = ev_Name ev @ replicate (unat (ev_Len ev) - length (ev_Name ev)) (CHR 0x00) @ post"
      by (simp add: parts)
    then have "take (unat (ev_Len ev)) (drop (?o + 16) buf) =
        ev_Name ev @ replicate (unat (ev_Len ev) - length (ev_Name ev)) (CHR 0x00)"
      using ev by (simp add: ev_valid_def)
    moreover have "ev_Name ev = [] \<or> last (ev_Name ev) \<noteq> CHR 0x00"
      using ev last_in_set [of "ev_Name ev"] unfolding ev_valid_def by metis
    ultimately show ?thesis by simp
  qed
  have self: "\<lparr>ev_Name = ev_Name ev, ev_Wd = ev_Wd ev, ev_Mask = ev_Mask ev, ev_Cookie = ev_Cookie ev,
      ev_Len = ev_Len ev\<rparr> = ev" by simp
  from bound off lim len lo hi fields fields2 fields3 fields4 name hi' show ?thesis
    by (subst ev_loop.simps) (simp add: Let_def word_less_nat_alt word_le_nat_alt self)
qed

lemma ev_loop_events_aux:
  assumes "buf = pre @ concat (map ev_bytes evs) @ post" and "length buf = ev_bufsize"
    and "list_all ev_valid evs" and "unat lim + 16 = length pre + length (concat (map ev_bytes evs))"
  shows "ev_loop buf lim (of_nat (length pre)) = (evs, None)"
  using assms
proof (induction evs arbitrary: pre)
  case Nil
  have le: "length pre < 2 ^ 32" using Nil by (simp add: ev_bufsize_def)
  then have "unat (of_nat (length pre) :: 32 word) = length pre" by (simp add: unat_of_nat take_bit_nat_eq_self)
  with Nil have "lim < of_nat (length pre)" by (simp add: word_less_nat_alt)
  with Nil show ?case by (simp add: ev_loop_done)
next
  case (Cons ev evs)
  have ev: "ev_valid ev" using Cons.prems by simp
  let ?pre = "pre @ ev_bytes ev"
  have le: "length pre + 16 \<le> ev_bufsize" using Cons.prems length_ev_bytes [OF ev] by simp
  then have u: "unat (of_nat (length pre) :: 32 word) = length pre" by (simp add: ev_bufsize_def unat_of_nat take_bit_nat_eq_self)
  have "of_nat (length pre) \<le> lim"
    using u Cons.prems(4) length_ev_bytes [OF ev] by (simp add: word_le_nat_alt)
  from ev_loop_step [OF _ Cons.prems(2) ev u this, of "concat (map ev_bytes evs) @ post"]
  have "ev_loop buf lim (of_nat (length pre)) =
      (let (evs, h) = ev_loop buf lim (of_nat (length ?pre)) in (ev # evs, h))"
    using Cons.prems(1) by simp
  moreover have "ev_loop buf lim (of_nat (length ?pre)) = (evs, None)"
    by (rule Cons.IH) (use Cons.prems in auto)
  ultimately show ?case by simp
qed

lemma ev_loop_events:
  assumes "list_all ev_valid evs" and "evs \<noteq> []"
    and "length (concat (map ev_bytes evs) @ old) = ev_bufsize"
  shows "ev_loop (concat (map ev_bytes evs) @ old) (word_of_int (int (length (concat (map ev_bytes evs))) - 16)) 0 =
    (evs, None)"
proof -
  let ?n = "length (concat (map ev_bytes evs))"
  obtain ev rest where e: "evs = ev # rest" "ev_valid ev" using assms by (cases evs) auto
  have n: "16 \<le> ?n" "?n \<le> ev_bufsize" using e length_ev_bytes assms(3) by auto
  then have "word_of_int (int ?n - 16) = (of_nat (?n - 16) :: 32 word)" by (simp add: of_nat_diff)
  moreover have "unat (of_nat (?n - 16) :: 32 word) = ?n - 16"
    using n by (simp del: of_nat_diff add: ev_bufsize_def unat_of_nat take_bit_nat_eq_self)
  ultimately have "unat (word_of_int (int ?n - 16) :: 32 word) + 16 = ?n" using n by simp
  with ev_loop_events_aux [of _ "[]" evs old] assms show ?thesis by simp
qed

text \<open>
  A read of fewer bytes than a header makes the limit wrap around: the loop then runs over what is left
  in the buffer until it panics.
\<close>

lemma ev_loop_big_limit:
  assumes "length buf = ev_bufsize" and "unat lim \<ge> ev_bufsize"
  shows "snd (ev_loop buf lim off) \<noteq> None \<or> unat off > unat lim"
  using assms
proof (induction buf lim off rule: ev_loop.induct)
  case (1 buf lim off)
  have lim: "ev_bufsize \<le> unat lim" by (rule 1)
  let ?hi = "off + 16 + get32 buf (unat off + 12)"
  show ?case
  proof (cases "lim < off")
    case False
    show ?thesis
    proof (cases "length buf < unat off + 16 \<or> ?hi < off + 16 \<or> length buf < unat ?hi")
      case True
      with False 1 show ?thesis by (subst ev_loop.simps) (auto simp: Let_def)
    next
      case inside: False
      have "snd (ev_loop buf lim ?hi) \<noteq> None \<or> unat ?hi > unat lim"
        by (rule "1.IH") (use False inside "1.prems" in auto)
      moreover have "unat ?hi \<le> unat lim" using inside "1.prems" by simp
      ultimately have "snd (ev_loop buf lim ?hi) \<noteq> None" by simp
      with False inside "1.prems" show ?thesis
        by (subst ev_loop.simps) (simp add: Let_def split_beta)
    qed
  qed (simp add: word_less_nat_alt)
qed

lemma ev_loop_short_read:
  assumes "length buf = ev_bufsize" and "0 \<le> n" and "n < 16"
  shows "snd (ev_loop buf (word_of_int (n - 16)) 0) \<noteq> None"
proof -
  have "(n - 16) mod 2 ^ 32 = n - 16 + 2 ^ 32"
    using assms mod_add_self2 [of "n - 16" "2 ^ 32"] mod_pos_pos_trivial [of "n - 16 + 2 ^ 32" "2 ^ 32"]
    by simp
  then have "ev_bufsize \<le> unat (word_of_int (n - 16) :: 32 word)"
    unfolding unat_eq_nat_uint uint_word_of_int using assms by (simp add: ev_bufsize_def)
  from ev_loop_big_limit [OF assms(1) this, of 0] show ?thesis by simp
qed

end
