(* ===== verification/LookoutInv.thy ===== *)
theory LookoutInv
  imports InotifyBuf
begin

text \<open>
  The handler's operations keep the state well-formed; what a scan does to the generations; where an
  event is delivered; what the start-up establishes.
\<close>

section \<open>Scans\<close>

text \<open>The uuid a process contributes to a scan, and the uuids a scan sees, in order.\<close>

fun fds_uuid :: "env \<Rightarrow> string \<Rightarrow> string \<Rightarrow> string list \<Rightarrow> uuid option" where
  "fds_uuid e ctl fdDir [] = None"
| "fds_uuid e ctl fdDir (fd # fds) =
     (case e_readlink e (PathJoin [fdDir, fd]) of
        Inl _ \<Rightarrow> fds_uuid e ctl fdDir fds
      | Inr lnk \<Rightarrow>
          if HasPrefix lnk ctl
          then (case e_uuid_Parse e (Base (Dir lnk)) of Inr u \<Rightarrow> Some u | Inl _ \<Rightarrow> fds_uuid e ctl fdDir fds)
          else fds_uuid e ctl fdDir fds)"

definition is_pid :: "string \<Rightarrow> bool" where
  "is_pid s = (case s of [] \<Rightarrow> False
     | c # _ \<Rightarrow> (of_char (CHR ''0'') :: nat) \<le> of_char c \<and> (of_char c :: nat) \<le> of_char (CHR ''9''))"

definition entry_uuid :: "env \<Rightarrow> string \<Rightarrow> string \<times> bool \<Rightarrow> uuid option" where
  "entry_uuid e ctl en =
     (if snd en \<and> is_pid (fst en) then
        (case e_readdir e (PathJoin [''/proc'', fst en, ''fd'']) of
           Inl _ \<Rightarrow> None
         | Inr fds \<Rightarrow> fds_uuid e ctl (PathJoin [''/proc'', fst en, ''fd'']) (map fst fds))
      else None)"

definition lsof_seen :: "env \<Rightarrow> string \<Rightarrow> (string \<times> bool) list \<Rightarrow> uuid list" where
  "lsof_seen e ctl entries = List.map_filter (entry_uuid e ctl) entries"

lemma lsof_fds_eq:
  "lsof_fds e fdDir fds w =
     (case fds_uuid e (lh_CTLPath (w_lh w)) fdDir fds of None \<Rightarrow> Inr w | Some u \<Rightarrow> LsofGenAddOrUpdateEp e u w)"
  by (induction fds) (auto split: sum.splits)

lemma lsof_entry_eq:
  assumes "fst en \<noteq> []"
  shows "lsof_entry e en w =
     (case entry_uuid e (lh_CTLPath (w_lh w)) en of None \<Rightarrow> Inr w | Some u \<Rightarrow> LsofGenAddOrUpdateEp e u w)"
  using assms
  by (auto simp: lsof_entry_def entry_uuid_def is_pid_def lsof_fds_eq Let_def split: list.splits sum.splits)

lemma bump_gen_fields [simp]:
  "w_gen (bump_gen w) = w_gen w + 1" "w_eps (bump_gen w) = w_eps w" "w_neps (bump_gen w) = w_neps w"
  "w_epc (bump_gen w) = w_epc w" "w_cmds (bump_gen w) = w_cmds w" "w_ncmds (bump_gen w) = w_ncmds w"
  "w_ino (bump_gen w) = w_ino w" "lh_CTLPath (w_lh (bump_gen w)) = lh_CTLPath (w_lh w)"
  "lh_state (w_lh (bump_gen w)) = lh_state (w_lh w)"
  by (simp_all add: bump_gen_def)

lemma bump_gen_inv:
  assumes inv: "linv w" and g: "w_gen w \<noteq> - 1"
  shows "linv (bump_gen w)"
proof -
  have le: "w_gen w \<le> w_gen w + 1"
  proof -
    have "1 + w_gen w \<noteq> 0" using g by (simp add: add_eq_0_iff)
    from unatSuc [OF this] show ?thesis by (simp add: word_le_nat_alt add.commute)
  qed
  have "ep_ok (bump_gen w) r" if "r < w_neps w" for r
  proof -
    have "ep_ok w r" using inv that by (simp add: linv_def)
    moreover have "cmd_ok (bump_gen w) r = cmd_ok w r" by (simp add: cmd_ok_def fun_eq_iff)
    ultimately show ?thesis using le
      by (auto simp: ep_ok_def watch_ok_def app_ok_def pend_ok_def Let_def)
  qed
  with inv show ?thesis by (simp add: linv_def maps_ok_def)
qed

text \<open>
  After a scan the endpoints it has seen are in the map and carry the new generation; the others keep
  theirs and their state.
\<close>

definition scanned :: "uuid set \<Rightarrow> world \<Rightarrow> world \<Rightarrow> bool" where
  "scanned us w w' =
     (w_gen w' = w_gen w + 1 \<and> w_neps w \<le> w_neps w' \<and>
      lh_CTLPath (w_lh w') = lh_CTLPath (w_lh w) \<and> lh_state (w_lh w') = lh_state (w_lh w) \<and>
      ino_wd (w_ino w') = ino_wd (w_ino w) \<and>
      (\<forall>u. map_of (w_epMap w') u \<noteq> None \<longleftrightarrow> map_of (w_epMap w) u \<noteq> None \<or> u \<in> us) \<and>
      (\<forall>q < w_neps w. ep_Uuid (w_eps w q) \<notin> us \<longrightarrow> w_eps w' q = w_eps w q) \<and>
      (\<forall>q < w_neps w. ep_Uuid (w_eps w q) \<in> us \<longrightarrow> ep_Uuid (w_eps w' q) = ep_Uuid (w_eps w q) \<and>
         ep_State (w_eps w' q) = found (ep_State (w_eps w q))) \<and>
      (\<forall>q < w_neps w'. ep_Uuid (w_eps w' q) \<in> us \<longrightarrow> ep_lsofGen (w_eps w' q) = w_gen w') \<and>
      (\<forall>q. w_neps w \<le> q \<and> q < w_neps w' \<longrightarrow> ep_State (w_eps w' q) = EPstateInit))"

lemma found_found [simp]: "found (found s) = found s"
  by (simp add: found_def)

text \<open>What one discovery changes, by the endpoint it looks at.\<close>

lemma discoveredD:
  assumes "discovered u w1 w2"
  shows "same_lh w1 w2" "w_neps w1 \<le> w_neps w2"
    "\<And>v. v \<noteq> u \<Longrightarrow> map_of (w_epMap w2) v = map_of (w_epMap w1) v"
    "\<exists>r < w_neps w2. map_of (w_epMap w2) u = Some r \<and> ep_lsofGen (w_eps w2 r) = w_gen w2"
    "\<And>q. q < w_neps w1 \<Longrightarrow> ep_Uuid (w_eps w1 q) \<noteq> u \<Longrightarrow> w_eps w2 q = w_eps w1 q"
    "\<And>q. q < w_neps w1 \<Longrightarrow> ep_Uuid (w_eps w1 q) = u \<Longrightarrow>
       ep_Uuid (w_eps w2 q) = u \<and> ep_State (w_eps w2 q) = found (ep_State (w_eps w1 q))"
    "\<And>q. w_neps w1 \<le> q \<Longrightarrow> q < w_neps w2 \<Longrightarrow>
       ep_Uuid (w_eps w2 q) = u \<and> ep_State (w_eps w2 q) = EPstateInit"
  using assms by (simp_all add: discovered_def)

lemma scanned_same_uuid:
  "scanned us w w1 \<Longrightarrow> q < w_neps w \<Longrightarrow> q < w_neps w1 \<and> ep_Uuid (w_eps w1 q) = ep_Uuid (w_eps w q)"
  by (cases "ep_Uuid (w_eps w q) \<in> us") (auto simp: scanned_def)

lemma scanned_found:
  assumes sc: "scanned us w w1" and d: "discovered u w1 w2"
    and q: "q < w_neps w" "ep_Uuid (w_eps w q) \<in> insert u us"
  shows "ep_Uuid (w_eps w2 q) = ep_Uuid (w_eps w q) \<and> ep_State (w_eps w2 q) = found (ep_State (w_eps w q))"
proof -
  note same = scanned_same_uuid [OF sc q(1)]
  show ?thesis
  proof (cases "ep_Uuid (w_eps w q) = u")
    case True
    have "ep_State (w_eps w1 q) = ep_State (w_eps w q) \<or> ep_State (w_eps w1 q) = found (ep_State (w_eps w q))"
      using sc q(1) by (cases "ep_Uuid (w_eps w q) \<in> us") (auto simp: scanned_def)
    with True discoveredD(6) [OF d, of q] same show ?thesis by auto
  next
    case False
    with q have "ep_Uuid (w_eps w q) \<in> us" by simp
    then have "ep_State (w_eps w1 q) = found (ep_State (w_eps w q))" using sc q(1) by (simp add: scanned_def)
    with False discoveredD(5) [OF d, of q] same show ?thesis by simp
  qed
qed

lemma scanned_gen:
  assumes inv: "linv w2" and sc: "scanned us w w1" and d: "discovered u w1 w2"
    and q: "q < w_neps w2" "ep_Uuid (w_eps w2 q) \<in> insert u us"
  shows "ep_lsofGen (w_eps w2 q) = w_gen w2"
proof (cases "ep_Uuid (w_eps w2 q) = u")
  case True
  then show ?thesis using discoveredD(4) [OF d] inv_in_map [OF inv q(1)] by auto
next
  case False
  then have q1: "q < w_neps w1" using discoveredD(7) [OF d, of q] q(1) by fastforce
  then have "ep_Uuid (w_eps w1 q) \<noteq> u" using discoveredD(6) [OF d] False by blast
  then have "w_eps w2 q = w_eps w1 q" by (rule discoveredD(5) [OF d q1])
  with q False q1 sc same_lh_fields(1) [OF discoveredD(1) [OF d]] show ?thesis by (auto simp: scanned_def)
qed

lemma scanned_new:
  assumes sc: "scanned us w w1" and d: "discovered u w1 w2" and q: "w_neps w \<le> q" "q < w_neps w2"
  shows "ep_State (w_eps w2 q) = EPstateInit"
proof (cases "q < w_neps w1")
  case True
  then have "ep_State (w_eps w1 q) = EPstateInit" using sc q by (simp add: scanned_def)
  with discoveredD(5,6) [OF d True] show ?thesis
    by (cases "ep_Uuid (w_eps w1 q) = u") (auto simp: found_def)
qed (use discoveredD(7) [OF d] q in auto)

lemma scanned_step:
  assumes inv: "linv w1" "linv w2" and sc: "scanned us w w1" and d: "discovered u w1 w2"
  shows "scanned (insert u us) w w2"
  unfolding scanned_def
proof (intro conjI allI impI)
  note D = discoveredD [OF d]
  show "w_gen w2 = w_gen w + 1" "lh_CTLPath (w_lh w2) = lh_CTLPath (w_lh w)"
    "lh_state (w_lh w2) = lh_state (w_lh w)" "ino_wd (w_ino w2) = ino_wd (w_ino w)"
    using sc same_lh_fields [OF D(1)] by (auto simp: scanned_def)
  show "w_neps w \<le> w_neps w2" using D(2) sc by (simp add: scanned_def)
  show "map_of (w_epMap w2) v \<noteq> None \<longleftrightarrow> map_of (w_epMap w) v \<noteq> None \<or> v \<in> insert u us" for v
    using sc D(3) [of v] D(4) by (cases "v = u") (auto simp: scanned_def)
next
  fix q assume q: "q < w_neps w" "ep_Uuid (w_eps w q) \<notin> insert u us"
  then have "w_eps w1 q = w_eps w q" using sc by (simp add: scanned_def)
  with q scanned_same_uuid [OF sc q(1)] discoveredD(5) [OF d, of q] show "w_eps w2 q = w_eps w q" by auto
qed (use scanned_found [OF sc d] scanned_gen [OF inv(2) sc d] scanned_new [OF sc d] in auto)

text \<open>
  What can stop a scan: an endpoint it sees that is not watched and whose directory cannot be watched, or shares a
  descriptor with the directory of another endpoint it sees.
\<close>

definition scan_blocked :: "env \<Rightarrow> world \<Rightarrow> uuid set \<Rightarrow> bool" where
  "scan_blocked e w us =
     (\<exists>u \<in> us. unwatched w u \<and>
        (unwatchable e w (ep_dir e w u) \<or> (\<exists>v \<in> us. v \<noteq> u \<and> same_watch e (ep_dir e w u) (ep_dir e w v))))"

text \<open>The state in the middle of a scan that has seen the endpoints \<open>us\<close>.\<close>

definition scanning :: "env \<Rightarrow> uuid set \<Rightarrow> world \<Rightarrow> world \<Rightarrow> bool" where
  "scanning e us w w' =
     (linv w' \<and> scanned us w w' \<and> (\<forall>u. unwatched w' u \<longrightarrow> unwatched w u \<and> u \<notin> us) \<and>
      (\<forall>d q. map_of (w_wmap w') d = Some q \<longrightarrow> map_of (w_wmap w) d = Some q \<or>
         (\<exists>v \<in> us. \<exists>c. e_add_watch e (ep_dir e w v) = Inr c \<and> d = word_of_int c)))"

lemma i32_inj: "0 \<le> c \<Longrightarrow> c < 2 ^ 31 \<Longrightarrow> 0 \<le> d \<Longrightarrow> d < 2 ^ 31 \<Longrightarrow> (word_of_int c :: i32) = word_of_int d \<Longrightarrow> c = d"
  by (simp add: word_of_int_eq_iff take_bit_int_eq_self)

lemma scanning_dir: "scanning e us w w' \<Longrightarrow> ep_dir e w' = ep_dir e w"
  by (simp add: scanning_def scanned_def ep_dir_def fun_eq_iff)

lemma scanning_blocked:
  assumes sc: "scanning e us w w'" and ino: "inotify_ok e" and b: "blocked e w' u"
  shows "scan_blocked e w (insert u us)"
proof -
  note dir = scanning_dir [OF sc]
  have u: "unwatched w u" "u \<notin> us" using sc b by (auto simp: scanning_def blocked_def)
  have "unwatchable e w (ep_dir e w u) \<or> (\<exists>v \<in> us. same_watch e (ep_dir e w u) (ep_dir e w v))"
  proof (cases "e_add_watch e (ep_dir e w u)")
    case (Inr d)
    then obtain q where "map_of (w_wmap w') (word_of_int d) = Some q"
      using b by (auto simp: blocked_def unwatchable_cases dir)
    then consider "map_of (w_wmap w) (word_of_int d) = Some q"
      | v c where "v \<in> us" "e_add_watch e (ep_dir e w v) = Inr c" "(word_of_int d :: i32) = word_of_int c"
      using sc unfolding scanning_def by blast
    then show ?thesis
    proof cases
      case (2 v c)
      have "0 \<le> d" "d < 2 ^ 31" "0 \<le> c" "c < 2 ^ 31" using ino Inr 2(2) by (auto simp: inotify_ok_def)
      then have "d = c" using 2(3) by (rule i32_inj)
      with 2 Inr show ?thesis by (auto simp: same_watch_def)
    qed (use Inr in \<open>simp add: unwatchable_cases\<close>)
  qed (simp add: unwatchable_cases)
  with u show ?thesis unfolding scan_blocked_def by (intro bexI [of _ u]) auto
qed

lemma scan_blocked_mono: "scan_blocked e w us \<Longrightarrow> us \<subseteq> vs \<Longrightarrow> scan_blocked e w vs"
  unfolding scan_blocked_def by blast

lemma scanning_step:
  assumes sc: "scanning e us w w1" and inv: "linv w2" and d: "discovered u w1 w2" and g: "grows e u w1 w2"
  shows "scanning e (insert u us) w w2"
  unfolding scanning_def
proof (intro conjI allI impI)
  have inv1: "linv w1" and sc1: "scanned us w w1" using sc by (simp_all add: scanning_def)
  show "linv w2" by (rule inv)
  show "scanned (insert u us) w w2" by (rule scanned_step [OF inv1 inv sc1 d])
  fix v assume "unwatched w2 v"
  with discovered_unwatched [OF inv1 inv d] sc show "unwatched w v" "v \<notin> insert u us"
    by (auto simp: scanning_def)
next
  fix c q assume "map_of (w_wmap w2) c = Some q"
  then have "map_of (w_wmap w1) c = Some q \<or> (\<exists>x. e_add_watch e (ep_dir e w u) = Inr x \<and> c = word_of_int x)"
    using g by (simp add: grows_def scanning_dir [OF sc])
  then show "map_of (w_wmap w) c = Some q \<or>
      (\<exists>v \<in> insert u us. \<exists>x. e_add_watch e (ep_dir e w v) = Inr x \<and> c = word_of_int x)"
    using sc unfolding scanning_def by blast
qed

lemma scan_entry:
  assumes sc: "scanning e us w w'" and ino: "inotify_ok e" and ne: "fst en \<noteq> []"
  shows "ends (lsof_entry e en w')
     (\<lambda>_. \<exists>u. entry_uuid e (lh_CTLPath (w_lh w)) en = Some u \<and> scan_blocked e w (insert u us))
     (scanning e (set_option (entry_uuid e (lh_CTLPath (w_lh w)) en) \<union> us) w)"
proof (cases "entry_uuid e (lh_CTLPath (w_lh w)) en")
  case None
  with sc show ?thesis by (simp add: lsof_entry_eq [OF ne] scanning_def scanned_def)
next
  case (Some u)
  have inv': "linv w'" and ctl: "lh_CTLPath (w_lh w') = lh_CTLPath (w_lh w)"
    using sc by (simp_all add: scanning_def scanned_def)
  have "ends (AddEp e u w') (\<lambda>_. scan_blocked e w (insert u us)) (\<lambda>(_, w''). scanning e (insert u us) w w'')"
    by (rule ends_mono [OF AddEp_inv [OF inv' ino]])
       (use scanning_blocked [OF sc ino] scanning_step [OF sc] in auto)
  then show ?thesis
    by (simp add: lsof_entry_eq [OF ne] ctl Some LsofGenAddOrUpdateEp_def) (erule ends_mono, auto)
qed

lemma lookoutLsof_inv:
  assumes inv: "linv w" and ino: "inotify_ok e" and g: "w_gen w \<noteq> - 1"
    and names: "e_readdir e ''/proc'' = Inr entries" "\<And>en. en \<in> set entries \<Longrightarrow> fst en \<noteq> []"
  shows "ends (lookoutLsof e w)
     (\<lambda>_. scan_blocked e w (set (lsof_seen e (lh_CTLPath (w_lh w)) entries)))
     (\<lambda>(err, w'). err = None \<and> linv w' \<and> scanned (set (lsof_seen e (lh_CTLPath (w_lh w)) entries)) w w')"
proof -
  let ?ctl = "lh_CTLPath (w_lh w)"
  let ?us = "\<lambda>vis. set (lsof_seen e ?ctl vis)"
  let ?H = "\<lambda>_. scan_blocked e w (?us entries)"
  have "ends (for_each (lsof_entry e) entries (bump_gen w)) ?H (scanning e (?us entries) w)"
  proof (rule for_each_prefix)
    show "scanning e (?us []) w (bump_gen w)"
      using bump_gen_inv [OF inv g] by (auto simp: scanning_def scanned_def lsof_seen_def unwatched_def map_filter_def
          split: option.splits)
  next
    fix vis en rest w'
    assume split: "entries = vis @ en # rest" and J: "scanning e (?us vis) w w'"
    have ne: "fst en \<noteq> []" using names(2) split by simp
    have seen: "?us (vis @ [en]) = set_option (entry_uuid e ?ctl en) \<union> ?us vis"
      by (auto simp: lsof_seen_def map_filter_def split: option.splits)
    moreover have "?us (vis @ [en]) \<subseteq> ?us entries"
      by (auto simp: split lsof_seen_def map_filter_def)
    ultimately have "insert u (?us vis) \<subseteq> ?us entries" if "entry_uuid e ?ctl en = Some u" for u
      using that by auto
    then show "ends (lsof_entry e en w') ?H (scanning e (?us (vis @ [en])) w)"
      unfolding seen by (intro ends_mono [OF scan_entry [OF J ino ne]]) (auto intro: scan_blocked_mono)
  qed
  then show ?thesis by (simp add: lookoutLsof_def names) (erule ends_mono, auto simp: scanning_def)
qed

section \<open>The monitor\<close>

lemma monitor_round_inv:
  assumes inv: "linv w" and ord: "range_order ord1 (w_epMap w)" "range_order ord2 (w_epMap w)"
  shows "ends (monitor_round e ord1 ord2 w) (\<lambda>_. False)
     (\<lambda>x. case x of None \<Rightarrow> lh_state (w_lh w) = SHUTDOWN
        | Some w' \<Rightarrow> linv w' \<and> frame_all w w' \<and>
            (\<forall>r < w_neps w. poll_moves e (cleaned e (w_gen w) (w_cmds w) (w_eps w r)) (w_eps w' r)))"
proof (cases "lh_state (w_lh w) = SHUTDOWN")
  case False
  have "ends (PollEPs e ord2 w1) (\<lambda>_. False) (\<lambda>w'. linv w' \<and> frame_all w w' \<and>
      (\<forall>r < w_neps w. poll_moves e (cleaned e (w_gen w) (w_cmds w) (w_eps w r)) (w_eps w' r)))"
    if w1: "linv w1" "frame_all w w1" "\<forall>r < w_neps w. w_eps w1 r = cleaned e (w_gen w) (w_cmds w) (w_eps w r)" for w1
  proof -
    have f: "w_epMap w1 = w_epMap w" "w_neps w1 = w_neps w" using w1(2) by (simp_all add: frame_all_def)
    show ?thesis
      by (rule ends_mono [OF PollEPs_inv [OF w1(1)]]) (use ord w1 f in \<open>auto intro: frame_all_trans\<close>)
  qed
  then have "ends (CleanEPs e ord1 w) (\<lambda>_. False) (\<lambda>w1. ends (PollEPs e ord2 w1) (\<lambda>_. False)
      (\<lambda>w'. linv w' \<and> frame_all w w' \<and>
        (\<forall>r < w_neps w. poll_moves e (cleaned e (w_gen w) (w_cmds w) (w_eps w r)) (w_eps w' r))))"
    by (intro ends_mono [OF CleanEPs_eq [OF inv ord(1), of e]]) auto
  with False show ?thesis by (simp add: monitor_round_def)
qed (simp add: monitor_round_def)

section \<open>Events\<close>

lemma processEvent_root:
  assumes "ev_Wd ev = ino_wd (w_ino w)"
  shows "processEvent e ev w =
     (case e_uuid_Parse e (ev_Name ev) of Inl _ \<Rightarrow> Inr w | Inr u \<Rightarrow> bindr (AddEp e u w) (\<lambda>(_, w). Inr w))"
  using assms by (simp add: processEvent_def)

text \<open>
  What an event makes of the state: nothing, a discovery, or the completion of a command of the
  endpoint whose directory the event comes from.
\<close>

definition event_step :: "inotifyEvent \<Rightarrow> world \<Rightarrow> world \<Rightarrow> bool" where
  "event_step ev w w' =
     (w' = w \<or>
      ev_Wd ev = ino_wd (w_ino w) \<and> (\<exists>u. discovered u w w') \<or>
      (\<exists>r < w_neps w. ep_watched (w_eps w r) \<and> ep_wid (w_eps w r) = ev_Wd ev \<and> frame_ep r w w' \<and>
         complete_moves (ep_State (w_eps w r)) (ep_State (w_eps w' r))))"

lemma processEvent_inv:
  assumes inv: "linv w" and ino: "inotify_ok e"
  shows "ends (processEvent e ev w)
     (\<lambda>_. ev_Wd ev = ino_wd (w_ino w) \<and> (\<exists>u. e_uuid_Parse e (ev_Name ev) = Inr u \<and> blocked e w u))
     (\<lambda>w'. linv w' \<and> event_step ev w w')"
proof (cases "ev_Wd ev = ino_wd (w_ino w)")
  case True
  show ?thesis
  proof (cases "e_uuid_Parse e (ev_Name ev)")
    case (Inl err)
    with True inv show ?thesis by (simp add: processEvent_def event_step_def)
  next
    case (Inr u)
    have "ends (AddEp e u w) (\<lambda>_. ev_Wd ev = ino_wd (w_ino w) \<and>
          (\<exists>u. e_uuid_Parse e (ev_Name ev) = Inr u \<and> blocked e w u))
        (\<lambda>(_, w'). linv w' \<and> event_step ev w w')"
      by (rule ends_mono [OF AddEp_inv [OF inv ino]]) (use True Inr in \<open>auto simp: event_step_def\<close>)
    with True Inr show ?thesis by (simp add: processEvent_def) (erule ends_mono, auto)
  qed
next
  case False
  have skip: "linv w \<and> event_step ev w w" using inv by (simp add: event_step_def)
  show ?thesis
  proof (cases "epWatchLookup w (ev_Wd ev)")
    case None
    with False skip show ?thesis by (simp add: processEvent_def)
  next
    case (Some r)
    then have r: "r < w_neps w" "ep_watched (w_eps w r)" "ep_wid (w_eps w r) = ev_Wd ev"
      using inv_reg [OF inv] by (auto simp: epWatchLookup_def)
    have "isWatchedState (ep_State (w_eps w r))"
      using inv r by (simp add: linv_def ep_ok_def watch_ok_def Let_def)
    then have c: "ends (Complete e r u None w) (\<lambda>_. False) (\<lambda>(_, w'). linv w' \<and> event_step ev w w')" for u
      by (intro ends_mono [OF Complete_inv [OF inv r(1), of e u None]])
         (use r in \<open>auto simp: event_step_def\<close>)
    have "ends (bindr (Complete e r u None w) (\<lambda>(_, w). Inr w)) (\<lambda>_. False)
        (\<lambda>w'. linv w' \<and> event_step ev w w')" for u
      using c [of u] by simp (erule ends_mono, auto)
    with False Some skip show ?thesis
      by (auto simp: processEvent_def Let_def split: sum.splits)
  qed
qed

section \<open>Start-up\<close>

definition init_fails :: "env \<Rightarrow> bool" where
  "init_fails e = ((\<exists>err. e_inotify_init e = Inl err) \<or> (\<exists>fd. e_inotify_init e = Inr fd \<and> fd < 0))"

lemma i32_neq_minus1: "0 \<le> d \<Longrightarrow> d < 2 ^ 31 \<Longrightarrow> word_of_int d \<noteq> (-1 :: i32)"
proof
  assume d: "0 \<le> d" "d < 2 ^ 31" and "word_of_int d = (-1 :: i32)"
  then have "sint (word_of_int d :: i32) = -1" by simp
  with d show False by (simp add: signed_of_int signed_take_bit_int_eq_self)
qed

lemma epInotifyStart_inv:
  assumes ino: "inotify_ok e" and empty: "w_neps w = 0" "w_epMap w = []"
  shows "ends (epInotifyStart e w) (\<lambda>h. (\<exists>s. h = Exit s) \<and> (refuses e (lh_CTLPath (w_lh w)) \<or> init_fails e))
     (\<lambda>w'. linv w' \<and> w_wmap w' = [] \<and> w_neps w' = 0 \<and> w_epMap w' = [] \<and> w_gen w' = w_gen w \<and>
        lh_state (w_lh w') = lh_state (w_lh w) \<and> lh_CTLPath (w_lh w') = lh_CTLPath (w_lh w))"
proof (cases "e_inotify_init e")
  case (Inl err)
  then show ?thesis by (simp add: epInotifyStart_def init_fails_def)
next
  case (Inr fd)
  show ?thesis
  proof (cases "e_add_watch e (lh_CTLPath (w_lh w))")
    case (Inl err)
    then have "refuses e (lh_CTLPath (w_lh w))" by (auto simp: refuses_def)
    with Inl Inr show ?thesis by (simp add: epInotifyStart_def init_fails_def)
  next
    case d: (Inr d)
    have r: "0 \<le> d" "d < 2 ^ 31" using ino d by (auto simp: inotify_ok_def)
    define w' where "w' = upd_ino (\<lambda>i. i\<lparr>ino_ifd := fd, ino_wd := word_of_int d, ino_wmap := []\<rparr>)
        (sys (SysAddWatch (lh_CTLPath (w_lh w)) (IN_CREATE + IN_ATTRIB)) w)"
    have f: "w_neps w' = 0" "w_epMap w' = []" "w_wmap w' = []" "ino_ifd (w_ino w') = fd"
      "ino_wd (w_ino w') = word_of_int d" "w_gen w' = w_gen w" "lh_state (w_lh w') = lh_state (w_lh w)"
      "lh_CTLPath (w_lh w') = lh_CTLPath (w_lh w)"
      by (simp_all add: w'_def empty)
    have "linv w'" if "0 \<le> fd"
      using that i32_neq_minus1 [OF r] by (simp add: linv_def maps_ok_def f)
    moreover have "epInotifyStart e w = (if fd < 0 then Inl (Exit ''unix.InotifyInit()'') else Inr w')"
      using Inr d r by (simp add: epInotifyStart_def w'_def upd_ino_def sys_def)
    ultimately show ?thesis using f Inr by (auto simp: init_fails_def)
  qed
qed

lemma linv_cong:
  assumes "linv w" and "w_eps w' = w_eps w" "w_neps w' = w_neps w" "w_cmds w' = w_cmds w"
    "w_ncmds w' = w_ncmds w" "w_epc w' = w_epc w" "w_ino w' = w_ino w" "w_gen w' = w_gen w"
  shows "linv w'"
proof -
  have "cmd_ok w' = cmd_ok w" using assms(2-) by (simp add: cmd_ok_def fun_eq_iff)
  then have "pend_ok w' = pend_ok w" using assms(2-) by (simp add: pend_ok_def fun_eq_iff)
  moreover have "watch_ok w' = watch_ok w" "app_ok w' = app_ok w"
    using assms(2-) by (simp_all add: watch_ok_def app_ok_def fun_eq_iff)
  ultimately have "ep_ok w' = ep_ok w" using assms(2-) by (simp add: ep_ok_def fun_eq_iff)
  moreover have "maps_ok w' = maps_ok w" using assms(2-) by (simp add: maps_ok_def)
  ultimately show ?thesis using assms(1,3) by (simp add: linv_def)
qed

lemma writePromPath_inv:
  assumes "writePromPath e w = (err, w')"
  shows "linv w' = linv w" "w_lh w' = w_lh w" "w_neps w' = w_neps w" "w_epc w' = w_epc w"
proof -
  have "w' = w \<or> (\<exists>x. w' = sys x w)"
    using assms by (auto simp: writePromPath_def Let_def split: option.splits)
  moreover have "linv (sys x w) = linv w" for x
    by (auto elim!: linv_cong)
  ultimately show "linv w' = linv w" "w_lh w' = w_lh w" "w_neps w' = w_neps w" "w_epc w' = w_epc w"
    by auto
qed

lemma monitor_start_inv: "lh_state (w_lh w) = BOOTING \<Longrightarrow> linv w \<Longrightarrow>
    ends (monitor_start w) (\<lambda>_. False) (\<lambda>w'. linv w' \<and> lh_state (w_lh w') = RUNNING)"
  by (auto simp: monitor_start_def elim!: linv_cong)

text \<open>
  What can stop the start-up: the inotify descriptor, the endpoint directory, or the output directory
  of an endpoint the first scan sees, which is refused or is that of another endpoint as well.
\<close>

definition start_refused :: "env \<Rightarrow> string \<Rightarrow> bool" where
  "start_refused e ctl =
     (let dir = (\<lambda>u. ctl @ ''/'' @ e_uuid_String e u @ EP_PATH_OUTPUT) in
      init_fails e \<or> refuses e ctl \<or>
      (\<exists>entries. e_readdir e ''/proc'' = Inr entries \<and>
         (\<exists>u \<in> set (lsof_seen e ctl entries). refuses e (dir u) \<or>
            (\<exists>v \<in> set (lsof_seen e ctl entries). v \<noteq> u \<and> same_watch e (dir u) (dir v)))))"

text \<open>A handler that halts here does so by a fatal log call; the panics of the start-up are out of reach.\<close>

definition exits_only :: "'a res \<Rightarrow> bool" where
  "exits_only r = (\<forall>h. r = Inl h \<longrightarrow> (\<exists>s. h = Exit s))"

lemma exits_only_simps [simp]: "exits_only (Inr x)" "exits_only (Inl (Exit s))"
  by (simp_all add: exits_only_def)

lemma exits_only_bindr: "exits_only r \<Longrightarrow> (\<And>x. exits_only (f x)) \<Longrightarrow> exits_only (bindr r f)"
  by (cases r) (simp_all add: exits_only_def)

lemma ChangeState_exits: "exits_only (ChangeState e r s w)"
  by (auto simp: ChangeState_def ensureWatchedState_def watchCtl_def EpWatchAdd_def EpWatchRemove_def Let_def
      intro!: exits_only_bindr split: option.splits sum.splits)

lemma AddEp_exits: "exits_only (AddEp e u w)"
  by (auto simp: AddEp_def LsofGenUpdate_def Let_def intro!: exits_only_bindr ChangeState_exits split: option.splits prod.splits)

lemma lsof_entry_exits: "fst en \<noteq> [] \<Longrightarrow> exits_only (lsof_entry e en w)"
  by (auto simp: lsof_entry_eq LsofGenAddOrUpdateEp_def intro!: exits_only_bindr AddEp_exits split: option.splits)

lemma for_each_exits: "(\<And>k s. k \<in> set ks \<Longrightarrow> exits_only (f k s)) \<Longrightarrow> exits_only (for_each f ks s)"
proof (induction ks arbitrary: s)
  case (Cons k ks)
  then show ?case by (simp add: exits_only_bindr)
qed simp

lemma lookoutLsof_exits:
  assumes "\<And>entries en. e_readdir e ''/proc'' = Inr entries \<Longrightarrow> en \<in> set entries \<Longrightarrow> fst en \<noteq> []"
  shows "exits_only (lookoutLsof e w)"
  using assms by (auto simp: lookoutLsof_def intro!: exits_only_bindr for_each_exits lsof_entry_exits split: sum.splits)

lemma ends_exits: "ends r H P \<Longrightarrow> exits_only r \<Longrightarrow> ends r (\<lambda>h. (\<exists>s. h = Exit s) \<and> H h) P"
  by (cases r) (simp_all add: exits_only_def)

text \<open>The first scan of a start and the change to \<open>RUNNING\<close>, after the watch of the endpoint directory.\<close>

lemma first_scan_inv:
  assumes w: "linv w" "w_wmap w = []" "w_gen w = 0" "lh_state (w_lh w) = BOOTING" "lh_CTLPath (w_lh w) = ctl"
    and ino: "inotify_ok e"
    and names: "\<And>entries en. e_readdir e ''/proc'' = Inr entries \<Longrightarrow> en \<in> set entries \<Longrightarrow> fst en \<noteq> []"
  shows "ends (bindr (lookoutLsof e w) (\<lambda>(_, w). bindr (monitor_start w) (\<lambda>w. Inr (None :: goerr option, w))))
      (\<lambda>h. (\<exists>s. h = Exit s) \<and> start_refused e ctl)
      (\<lambda>(err, w'). err = None \<longrightarrow> linv w' \<and> lh_state (w_lh w') = RUNNING)"
proof -
  have "ends (lookoutLsof e w) (\<lambda>_. start_refused e ctl) (\<lambda>(_, w'). linv w' \<and> lh_state (w_lh w') = BOOTING)"
  proof (cases "e_readdir e ''/proc''")
    case (Inl err)
    with w show ?thesis by (simp add: lookoutLsof_def)
  next
    case (Inr entries)
    show ?thesis
      by (rule ends_mono [OF lookoutLsof_inv [OF w(1) ino _ Inr names [OF Inr]]])
         (use w Inr in \<open>auto simp: scanned_def start_refused_def scan_blocked_def unwatchable_def ep_dir_def Let_def\<close>)
  qed
  from ends_exits [OF this lookoutLsof_exits] names show ?thesis
    by simp (erule ends_mono, auto dest!: monitor_start_inv elim!: ends_mono)
qed

lemma Start_inv:
  assumes ino: "inotify_ok e" and w: "w_neps w = 0" "lh_state (w_lh w) = BOOTING" "w_gen w = 0"
    and names: "\<And>entries en. e_readdir e ''/proc'' = Inr entries \<Longrightarrow> en \<in> set entries \<Longrightarrow> fst en \<noteq> []"
  shows "ends (Start e w) (\<lambda>h. (\<exists>s. h = Exit s) \<and> start_refused e (lh_CTLPath (w_lh w)))
     (\<lambda>(err, w'). err = None \<longrightarrow> linv w' \<and> lh_state (w_lh w') = RUNNING)"
proof (cases "e_stat e (lh_CTLPath (w_lh w))")
  case (Inl err)
  then show ?thesis by (simp add: Start_def)
next
  case (Inr st)
  let ?H = "\<lambda>h. (\<exists>s. h = Exit s) \<and> start_refused e (lh_CTLPath (w_lh w))"
  let ?P = "\<lambda>(err, w'). err = None \<longrightarrow> linv w' \<and> lh_state (w_lh w') = RUNNING"
  note rest = first_scan_inv [OF _ _ _ _ _ ino names]
  have i: "w_neps (InitializeEpMap w) = 0" "w_epMap (InitializeEpMap w) = []" "w_lh (InitializeEpMap w) = w_lh w"
    using w by (simp_all add: InitializeEpMap_def)
  have tail: "ends (let (err, w) = writePromPath e w1 in
          case err of Some er \<Rightarrow> Inr (Some er, w)
          | None \<Rightarrow> bindr (lookoutLsof e w) (\<lambda>(_, w). bindr (monitor_start w) (\<lambda>w. Inr (None, w)))) ?H ?P"
    if w1: "linv w1" "w_wmap w1 = []" "w_gen w1 = 0" "lh_state (w_lh w1) = BOOTING"
      "lh_CTLPath (w_lh w1) = lh_CTLPath (w_lh w)" for w1
  proof -
    obtain err w2 where p: "writePromPath e w1 = (err, w2)" by force
    note p2 = writePromPath_inv [OF p]
    show ?thesis
    proof (cases err)
      case None
      with p rest [of w2] p2 w1 show ?thesis by (simp del: ends_bindr)
    next
      case (Some er)
      with p show ?thesis by simp
    qed
  qed
  have "ends (epInotifyStart e (InitializeEpMap w)) ?H
      (\<lambda>w1. linv w1 \<and> w_wmap w1 = [] \<and> w_gen w1 = 0 \<and> lh_state (w_lh w1) = BOOTING \<and>
        lh_CTLPath (w_lh w1) = lh_CTLPath (w_lh w))"
    by (rule ends_mono [OF epInotifyStart_inv [OF ino i(1,2)]]) (use w i in \<open>auto simp: start_refused_def Let_def\<close>)
  then have "ends (bindr (epInotifyStart e (InitializeEpMap w)) (\<lambda>w1. let (err, w) = writePromPath e w1 in
          case err of Some er \<Rightarrow> Inr (Some er, w)
          | None \<Rightarrow> bindr (lookoutLsof e w) (\<lambda>(_, w). bindr (monitor_start w) (\<lambda>w. Inr (None, w))))) ?H ?P"
    unfolding ends_bindr by (rule ends_mono) (blast intro: tail)+
  with Inr show ?thesis by (simp add: Start_def del: ends_bindr)
qed

end
