(* ===== verification/LookoutSystem.thy ===== *)
theory LookoutSystem
  imports LookoutInv
begin

text \<open>
  The running lookout as a transition system. A step is one run of a handler: a scan
  (\<open>monitorLsof\<close>), a round of the monitor, an inotify event, or a liveness mark from the UDP listener,
  each in an environment of its own, in which a watch descriptor is a non-negative \<open>int\<close>. Steps of different goroutines interleave at handler granularity.
\<close>

section \<open>Invariants of transition systems\<close>

locale invariant_system =
  fixes init :: "'s \<Rightarrow> bool" and step :: "'s \<Rightarrow> 's \<Rightarrow> bool" and I :: "'s \<Rightarrow> bool"
  assumes init_I: "init s \<Longrightarrow> I s"
    and step_I: "I s \<Longrightarrow> step s s' \<Longrightarrow> I s'"
begin

lemma path_I: "I s \<Longrightarrow> step\<^sup>*\<^sup>* s s' \<Longrightarrow> I s'"
  by (erule rtranclp_induct) (auto intro: step_I)

lemma reach_I: "init s \<Longrightarrow> step\<^sup>*\<^sup>* s s' \<Longrightarrow> I s'"
  by (rule path_I) (rule init_I)

text \<open>A relation of states that every step from a state with the invariant keeps, holds along paths.\<close>

lemma path_rel:
  assumes "I s" and "step\<^sup>*\<^sup>* s s'" and "\<And>s. R s s" and "\<And>a b c. R a b \<Longrightarrow> R b c \<Longrightarrow> R a c"
    and "\<And>a b. I a \<Longrightarrow> step a b \<Longrightarrow> R a b"
  shows "R s s'"
  using assms(2)
proof (induction rule: rtranclp_induct)
  case (step y z)
  then show ?case using assms path_I by blast
qed (rule assms(3))

end

section \<open>The steps\<close>

text \<open>
  \<open>os.ReadDir\<close> returns no empty names. The generation counter has 64 bits; a step is a scan only while it
  does not wrap around.
\<close>

definition proc_ok :: "env \<Rightarrow> bool" where
  "proc_ok e = (\<forall>entries. e_readdir e ''/proc'' = Inr entries \<longrightarrow> (\<forall>en \<in> set entries. fst en \<noteq> []))"

definition started :: "world \<Rightarrow> bool" where
  "started w = (\<exists>e w0. inotify_ok e \<and> proc_ok e \<and> w_neps w0 = 0 \<and>
     lh_state (w_lh w0) = BOOTING \<and> w_gen w0 = 0 \<and> Start e w0 = Inr (None, w))"

inductive lstep :: "world \<Rightarrow> world \<Rightarrow> bool" where
  scan: "\<lbrakk>inotify_ok e; proc_ok e; w_gen w \<noteq> -1; lookoutLsof e w = Inr (err, w')\<rbrakk> \<Longrightarrow> lstep w w'"
| round: "\<lbrakk>range_order ord1 (w_epMap w); range_order ord2 (w_epMap w);
     monitor_round e ord1 ord2 w = Inr (Some w')\<rbrakk> \<Longrightarrow> lstep w w'"
| event: "\<lbrakk>inotify_ok e; processEvent e ev w = Inr w'\<rbrakk> \<Longrightarrow> lstep w w'"
| mark: "MarkAlive e s w = Inr err \<Longrightarrow> lstep w w"

inductive_cases lstepE: "lstep w w'"

text \<open>Every step is one of three: a scan, a round, an event (the mark changes nothing).\<close>

lemma lstep_cases:
  assumes inv: "linv w" and "lstep w w'"
  obtains (same) "w' = w"
    | (scan_step) us where "scanned us w w'" "linv w'"
    | (round_step) e where "frame_all w w'" "linv w'"
        "\<forall>r < w_neps w. poll_moves e (cleaned e (w_gen w) (w_cmds w) (w_eps w r)) (w_eps w' r)"
    | (event_step) ev where "event_step ev w w'" "linv w'"
  using assms(2)
proof (cases rule: lstep.cases)
  case (scan e err)
  show ?thesis
  proof (cases "e_readdir e ''/proc''")
    case (Inl er)
    with scan same show ?thesis by (simp add: lookoutLsof_def)
  next
    case (Inr entries)
    then have "fst en \<noteq> []" if "en \<in> set entries" for en using scan(2) that by (simp add: proc_ok_def)
    from lookoutLsof_inv [OF inv scan(1,3) Inr this] scan_step scan(4) show ?thesis by auto
  qed
next
  case (round ord1 ord2 e)
  from monitor_round_inv [OF inv round(1,2), of e] round(3) round_step show ?thesis by auto
next
  case (event e ev)
  from processEvent_inv [OF inv event(1), of ev] event(2) event_step show ?thesis by auto
qed (use same in auto)

lemma lstep_inv:
  assumes "linv w" and "lstep w w'"
  shows "linv w'"
  using assms by (cases rule: lstep_cases [OF assms]) simp_all

lemma started_inv: "started w \<Longrightarrow> linv w"
  unfolding started_def proc_ok_def by (auto dest!: Start_inv)

interpretation lk: invariant_system started lstep linv
  by unfold_locales (auto intro: started_inv lstep_inv)

section \<open>The life of an endpoint\<close>

text \<open>
  The abstract state is the table of endpoints with their states, as \<open>/v0/all\<close> shows it. The edges are
  the moves the code makes: discovery, identification, the first answer, a time-out and an answer
  after it, the removal of what no process holds open any more, and the rediscovery of that.
\<close>

definition life_edge :: "Epstate \<Rightarrow> Epstate \<Rightarrow> bool" where
  "life_edge s s' =
     ((s, s') \<in> {(EPstateInit, EPstateHasIdentity), (EPstateInit, EPstateRunning),
        (EPstateHasIdentity, EPstateRunning), (EPstateRunning, EPstateDown), (EPstateDown, EPstateRunning),
        (EPstateInit, EPstateRemoving), (EPstateHasIdentity, EPstateRemoving), (EPstateDown, EPstateRemoving),
        (EPstateRemoving, EPstateInit)})"

definition ep_table :: "world \<Rightarrow> uuid \<Rightarrow> Epstate option" where
  "ep_table w u = map_option (\<lambda>r. ep_State (w_eps w r)) (map_of (w_epMap w) u)"

definition life_step :: "(uuid \<Rightarrow> Epstate option) \<Rightarrow> (uuid \<Rightarrow> Epstate option) \<Rightarrow> bool" where
  "life_step t t' =
     (\<forall>u. case t u of
        None \<Rightarrow> t' u \<in> {None, Some EPstateInit}
      | Some s \<Rightarrow> (\<exists>s'. t' u = Some s' \<and> (s' = s \<or> life_edge s s')))"

lemma life_step_refl [simp]: "life_step t t"
  by (auto simp: life_step_def split: option.splits)

lemma table_Some: "linv w \<Longrightarrow> r < w_neps w \<Longrightarrow> ep_table w (ep_Uuid (w_eps w r)) = Some (ep_State (w_eps w r))"
  by (simp add: ep_table_def inv_in_map)

lemma table_cases:
  assumes "linv w"
  obtains "ep_table w u = None" "map_of (w_epMap w) u = None"
    | r where "r < w_neps w" "ep_Uuid (w_eps w r) = u" "map_of (w_epMap w) u = Some r"
        "ep_table w u = Some (ep_State (w_eps w r))"
  using inv_lookup [OF assms] by (cases "map_of (w_epMap w) u") (auto simp: ep_table_def)

text \<open>A step simulates when it moves every known endpoint along an edge and adds only new ones in \<open>init\<close>.\<close>

lemma life_stepI:
  assumes inv: "linv w" "linv w'"
    and known: "\<And>r. r < w_neps w \<Longrightarrow> r < w_neps w' \<and> ep_Uuid (w_eps w' r) = ep_Uuid (w_eps w r) \<and>
        (ep_State (w_eps w' r) = ep_State (w_eps w r) \<or> life_edge (ep_State (w_eps w r)) (ep_State (w_eps w' r)))"
    and new: "\<And>r. w_neps w \<le> r \<Longrightarrow> r < w_neps w' \<Longrightarrow> ep_State (w_eps w' r) = EPstateInit"
  shows "life_step (ep_table w) (ep_table w')"
  unfolding life_step_def
proof
  fix u
  show "case ep_table w u of None \<Rightarrow> ep_table w' u \<in> {None, Some EPstateInit}
      | Some s \<Rightarrow> \<exists>s'. ep_table w' u = Some s' \<and> (s' = s \<or> life_edge s s')"
  proof (cases rule: table_cases [OF inv(1), of u])
    case 1
    have "ep_table w' u \<in> {None, Some EPstateInit}"
    proof (cases rule: table_cases [OF inv(2), of u])
      case (2 r)
      have "\<not> r < w_neps w"
      proof
        assume r: "r < w_neps w"
        with 2 known have "ep_Uuid (w_eps w r) = u" by auto
        with inv_in_map [OF inv(1) r] \<open>map_of (w_epMap w) u = None\<close> show False by simp
      qed
      with 2 new show ?thesis by simp
    qed simp
    with 1 show ?thesis by simp
  next
    case (2 r)
    with known [of r] table_Some [OF inv(2), of r] show ?thesis by auto
  qed
qed

lemma edge_complete:
  "isWatchedState s \<Longrightarrow> s \<noteq> EPstateUnknown \<Longrightarrow> complete_moves s s' \<Longrightarrow> s' = s \<or> life_edge s s'"
  by (cases s) (auto simp: complete_moves_def life_edge_def)

lemma edge_found: "found s = s \<or> life_edge s (found s)"
  by (simp add: found_def life_edge_def)

lemma edge_round:
  assumes "app_ok w r" and "poll_moves e (cleaned e g c (w_eps w r)) x'"
  shows "ep_State x' = ep_State (w_eps w r) \<or> life_edge (ep_State (w_eps w r)) (ep_State x')"
  using assms
  by (cases "ep_State (w_eps w r)")
     (auto simp: poll_moves_def cleaned_def life_edge_def app_ok_def Let_def split: if_splits)

lemma discovered_life:
  assumes "linv w" "linv w'" "discovered u w w'"
  shows "life_step (ep_table w) (ep_table w')"
proof (rule life_stepI [OF assms(1,2)])
  fix r assume r: "r < w_neps w"
  then have "r < w_neps w'" using assms(3) by (simp add: discovered_def)
  moreover have "w_eps w' r = w_eps w r \<or> ep_Uuid (w_eps w r) = u \<and> ep_Uuid (w_eps w' r) = u \<and>
      ep_State (w_eps w' r) = found (ep_State (w_eps w r))"
    using assms(3) r by (cases "ep_Uuid (w_eps w r) = u") (simp_all add: discovered_def)
  ultimately show "r < w_neps w' \<and> ep_Uuid (w_eps w' r) = ep_Uuid (w_eps w r) \<and>
      (ep_State (w_eps w' r) = ep_State (w_eps w r) \<or> life_edge (ep_State (w_eps w r)) (ep_State (w_eps w' r)))"
    using edge_found [of "ep_State (w_eps w r)"] by auto
qed (use assms(3) in \<open>simp add: discovered_def\<close>)

lemma scanned_life:
  assumes "linv w" "linv w'" "scanned us w w'"
  shows "life_step (ep_table w) (ep_table w')"
proof (rule life_stepI [OF assms(1,2)])
  fix r assume r: "r < w_neps w"
  then have "r < w_neps w'" using assms(3) by (simp add: scanned_def)
  moreover have "w_eps w' r = w_eps w r \<or> ep_Uuid (w_eps w' r) = ep_Uuid (w_eps w r) \<and>
      ep_State (w_eps w' r) = found (ep_State (w_eps w r))"
    using assms(3) r by (cases "ep_Uuid (w_eps w r) \<in> us") (simp_all add: scanned_def)
  ultimately show "r < w_neps w' \<and> ep_Uuid (w_eps w' r) = ep_Uuid (w_eps w r) \<and>
      (ep_State (w_eps w' r) = ep_State (w_eps w r) \<or> life_edge (ep_State (w_eps w r)) (ep_State (w_eps w' r)))"
    using edge_found [of "ep_State (w_eps w r)"] by auto
qed (use assms(3) in \<open>simp add: scanned_def\<close>)

lemma event_life:
  assumes inv: "linv w" "linv w'" and ev: "event_step ev w w'"
  shows "life_step (ep_table w) (ep_table w')"
  using ev unfolding event_step_def
proof (elim disjE exE conjE)
  fix r assume r: "r < w_neps w" "ep_watched (w_eps w r)" "frame_ep r w w'"
    "complete_moves (ep_State (w_eps w r)) (ep_State (w_eps w' r))"
  have s: "isWatchedState (ep_State (w_eps w r))" using inv(1) r by (simp add: linv_def ep_ok_def watch_ok_def Let_def)
  then have "ep_State (w_eps w' r) = ep_State (w_eps w r) \<or> life_edge (ep_State (w_eps w r)) (ep_State (w_eps w' r))"
    by (intro edge_complete r(4)) auto
  then show ?thesis using r(3) by (intro life_stepI [OF inv]) (auto simp: frame_ep_def)
qed (use inv discovered_life in auto)

lemma lstep_life:
  assumes inv: "linv w" and step: "lstep w w'"
  shows "life_step (ep_table w) (ep_table w')"
proof (cases rule: lstep_cases [OF inv step])
  case (3 e)
  have "app_ok w r" if "r < w_neps w" for r using inv that by (simp add: linv_def ep_ok_def)
  then have "ep_State (w_eps w' r) = ep_State (w_eps w r) \<or> life_edge (ep_State (w_eps w r)) (ep_State (w_eps w' r))"
    if "r < w_neps w" for r
    using edge_round [of w r e "w_gen w" "w_cmds w" "w_eps w' r"] 3(3) that by blast
  with 3(1,2) show ?thesis by (intro life_stepI [OF inv]) (auto simp: frame_all_def)
qed (use inv scanned_life event_life in auto)

end
