(* ===== verification/LookoutLoops.thy ===== *)
theory LookoutLoops
  imports LookoutSystem
begin

text \<open>
  The loops of \<open>lookout.go\<close> that run for as long as the lookout does: \<open>monitorLsof\<close>, and
  \<open>LookoutWaitUntilState\<close>, which waits for a state of the handler. The handler's states are ordered as they
  are declared; nothing a running lookout does changes its state.
\<close>

section \<open>The order of the states\<close>

fun lookoutState_rank :: "lookoutState \<Rightarrow> nat" where
  "lookoutState_rank BOOTING = 0"
| "lookoutState_rank RUNNING = 1"
| "lookoutState_rank SHUTDOWN = 2"

lemma lookoutState_rank_inj: "lookoutState_rank s = lookoutState_rank t \<longleftrightarrow> s = t"
  by (cases s; cases t) simp_all

instantiation lookoutState :: linorder
begin

definition less_eq_lookoutState :: "lookoutState \<Rightarrow> lookoutState \<Rightarrow> bool" where
  "less_eq_lookoutState s t = (lookoutState_rank s \<le> lookoutState_rank t)"

definition less_lookoutState :: "lookoutState \<Rightarrow> lookoutState \<Rightarrow> bool" where
  "less_lookoutState s t = (lookoutState_rank s < lookoutState_rank t)"

instance
  by standard (auto simp: less_eq_lookoutState_def less_lookoutState_def lookoutState_rank_inj)

end

section \<open>The loops\<close>

text \<open>
  \<open>monitorLsof\<close> over the environments of its rounds, one a minute; the test is before the sleep, the error of
  a scan is not looked at.
\<close>

fun monitorLsof :: "env list \<Rightarrow> world \<Rightarrow> world res" where
  "monitorLsof [] w = Inr w"
| "monitorLsof (e # es) w =
     (if lh_state (w_lh w) = SHUTDOWN then Inr w
      else bindr (lookoutLsof e w) (\<lambda>(_, w). monitorLsof es w))"

text \<open>\<open>LookoutWaitUntilState\<close> on the states it sees, one a second: the number of seconds it waits.\<close>

fun LookoutWaitUntilState :: "lookoutState \<Rightarrow> lookoutState list \<Rightarrow> nat option" where
  "LookoutWaitUntilState s [] = None"
| "LookoutWaitUntilState s (t # ts) = (if t = s then Some 0 else map_option Suc (LookoutWaitUntilState s ts))"

section \<open>A lookout that runs keeps running\<close>

lemma same_lh_state:
  assumes "same_lh w w'"
  shows "lh_state (w_lh w') = lh_state (w_lh w)"
proof -
  have "lh_state ((w_lh w')\<lparr>lh_inotify := w_ino w\<rparr>) = lh_state (w_lh w')" by simp
  with assms show ?thesis by (simp add: same_lh_def)
qed

lemma lstep_state:
  assumes "linv w" and "lstep w w'"
  shows "lh_state (w_lh w') = lh_state (w_lh w)"
  using assms(2)
proof (cases rule: lstep_cases [OF assms])
  case (2 us)
  then show ?thesis by (simp add: scanned_def)
next
  case (3 e)
  then show ?thesis by (simp add: frame_all_def same_lh_state)
next
  case (4 ev)
  then show ?thesis by (auto simp: event_step_def discovered_def same_lh_state dest!: frame_ep_same_lh)
qed simp

lemma started_running: "started w \<Longrightarrow> lh_state (w_lh w) = RUNNING"
  unfolding started_def proc_ok_def by (auto dest!: Start_inv)

lemma reachable_running:
  assumes "started w0" and "lstep\<^sup>*\<^sup>* w0 w"
  shows "lh_state (w_lh w) = RUNNING"
proof -
  have "lh_state (w_lh w) = lh_state (w_lh w0)"
    using lk.path_rel [OF started_inv [OF assms(1)] assms(2), of "\<lambda>a b. lh_state (w_lh b) = lh_state (w_lh a)"]
      lstep_state by simp
  then show ?thesis using started_running [OF assms(1)] by simp
qed

text \<open>Waiting along a run: at once for the state that is there, for ever for any other.\<close>

lemma waits_forever: "\<forall>t \<in> set ts. t \<noteq> s \<Longrightarrow> LookoutWaitUntilState s ts = None"
  by (induction ts) auto

section \<open>The scanner\<close>

text \<open>The environments in which every round is a step: the contracts hold and the generation does not wrap around.\<close>

fun scans_ok :: "env list \<Rightarrow> world \<Rightarrow> bool" where
  "scans_ok [] w = True"
| "scans_ok (e # es) w =
     (inotify_ok e \<and> proc_ok e \<and> w_gen w \<noteq> -1 \<and>
      (case lookoutLsof e w of Inl h \<Rightarrow> True | Inr (_, w') \<Rightarrow> scans_ok es w'))"

lemma monitorLsof_path:
  assumes "scans_ok es w" and "monitorLsof es w = Inr w'"
  shows "lstep\<^sup>*\<^sup>* w w'"
  using assms
proof (induction es arbitrary: w)
  case (Cons e es)
  show ?case
  proof (cases "lh_state (w_lh w) = SHUTDOWN")
    case False
    with Cons.prems(2) obtain err w1 where w1: "lookoutLsof e w = Inr (err, w1)" "monitorLsof es w1 = Inr w'"
      by (cases "lookoutLsof e w") auto
    then have "lstep w w1" using Cons.prems(1) by (auto intro: lstep.scan)
    moreover have "lstep\<^sup>*\<^sup>* w1 w'" using Cons w1 by simp
    ultimately show ?thesis by (rule converse_rtranclp_into_rtranclp)
  qed (use Cons.prems in simp)
qed simp

end
