(* ===== verification/EndpointOps.thy ===== *)
theory EndpointOps
  imports EndpointInv
begin

text \<open>
  What the endpoint's operations compute, branch by branch: the query of an idle endpoint and its
  fallback, the identification poll, and the completion of each kind of command.
\<close>

section \<open>Queries\<close>

text \<open>The state after an idle endpoint has been given a new command.\<close>

definition asked :: "env \<Rightarrow> ep_ref \<Rightarrow> string \<Rightarrow> EPcmdType \<Rightarrow> world \<Rightarrow> world" where
  "asked e r s op w =
     (let u = e_uuid_New e (w_uuids w); c = w_ncmds w;
          fnam = Xpath e w r EP_PATH_INPUT @ LookoutPrefixStr @ e_uuid_String e u;
          buf = s @ outfile_line e u
      in w\<lparr>w_uuids := Suc (w_uuids w), w_ncmds := Suc c,
           w_eps := (w_eps w)(r := (w_eps w r)\<lparr>ep_pendingCmds := [(u, c)]\<rparr>),
           w_sys := w_sys w @ [SysWriteFile fnam buf],
           w_cmds := (w_cmds w)(c := \<lparr>c_ep = r, c_cmd = buf, c_id = u, c_outJSON = [],
             c_err = e_write e fnam buf, c_op = op, c_start = e_now e\<rparr>)\<rparr>)"

definition query_file :: "env \<Rightarrow> world \<Rightarrow> ep_ref \<Rightarrow> string" where
  "query_file e w r =
     Xpath e w r EP_PATH_INPUT @ LookoutPrefixStr @ e_uuid_String e (e_uuid_New e (w_uuids w))"

definition query_text :: "env \<Rightarrow> world \<Rightarrow> string \<Rightarrow> string" where
  "query_text e w s = s @ outfile_line e (e_uuid_New e (w_uuids w))"

lemma submit_new:
  assumes "ep_pendingCmds (w_eps w r) = []"
    and "new_cmd \<lparr>c_ep = r, c_cmd = s, c_id = i, c_outJSON = [], c_err = None, c_op = op, c_start = t\<rparr> w = (c, w1)"
  shows "submit e c w1 = asked e r s op w" and "c = w_ncmds w"
proof -
  from assms(2) have c: "c = w_ncmds w"
    and w1: "w1 = w\<lparr>w_cmds := (w_cmds w)(c := \<lparr>c_ep = r, c_cmd = s, c_id = i, c_outJSON = [], c_err = None,
        c_op = op, c_start = t\<rparr>), w_ncmds := Suc (w_ncmds w)\<rparr>"
    by (auto simp: new_cmd_def)
  have "ep_pendingCmds (w_eps w1 r) = []" "c_ep (w_cmds w1 c) = r" using assms(1) by (simp_all add: w1)
  from submit_idle [OF this, of e] show "submit e c w1 = asked e r s op w"
    by (simp add: w1 c asked_def Let_def Xpath_def)
  show "c = w_ncmds w" by (rule c)
qed

lemma asked_fields:
  "ep_pendingCmds (w_eps (asked e r s op w) r) = [(e_uuid_New e (w_uuids w), w_ncmds w)]"
  "c_op (w_cmds (asked e r s op w) (w_ncmds w)) = op"
  "c_err (w_cmds (asked e r s op w) (w_ncmds w)) = e_write e (query_file e w r) (query_text e w s)"
  "w_sys (asked e r s op w) = w_sys w @ [SysWriteFile (query_file e w r) (query_text e w s)]"
  "ep_State (w_eps (asked e r s op w) r) = ep_State (w_eps w r)"
  "ep_App (w_eps (asked e r s op w) r) = ep_App (w_eps w r)"
  by (simp_all add: asked_def Let_def query_file_def query_text_def)

lemma queryApp_idle:
  assumes "ep_pendingCmds (w_eps w r) = []" and "ep_App (w_eps w r) = Some a"
    and "GetAppDetectInfo a False = (s, op)"
    and "e_write e (query_file e w r) (query_text e w s) = None \<or> op \<noteq> SystemInfoOp"
  shows "queryApp e r w = Inr (None, asked e r s op w)"
proof -
  obtain c w1 where n: "new_cmd \<lparr>c_ep = r, c_cmd = s, c_id = 0, c_outJSON = [], c_err = None, c_op = op,
      c_start = zero_time\<rparr> w = (c, w1)" by force
  note sub = submit_new(1) [OF assms(1) n, of e] submit_new(2) [OF assms(1) n]
  have "c_err (w_cmds (asked e r s op w) c) = None \<or> c_op (w_cmds (asked e r s op w) c) \<noteq> SystemInfoOp"
    unfolding sub(2) asked_fields(2,3) using assms(4) .
  then show ?thesis by (auto simp: queryApp_def assms(2,3) n sub(1) Let_def)
qed

lemma queryApp_busy:
  assumes "ep_pendingCmds (w_eps w r) \<noteq> []" and "ep_App (w_eps w r) = Some a"
  shows "\<exists>w'. queryApp e r w = Inr (None, w') \<and> w_eps w' = w_eps w \<and> w_sys w' = w_sys w \<and>
     (\<forall>c < w_ncmds w. w_cmds w' c = w_cmds w c)"
proof -
  obtain s op where d: "GetAppDetectInfo a False = (s, op)" by force
  obtain c w1 where n: "new_cmd \<lparr>c_ep = r, c_cmd = s, c_id = 0, c_outJSON = [], c_err = None, c_op = op,
      c_start = zero_time\<rparr> w = (c, w1)" by force
  then have c: "c = w_ncmds w" and w1: "w1 = w\<lparr>w_cmds := (w_cmds w)(c := \<lparr>c_ep = r, c_cmd = s, c_id = 0,
      c_outJSON = [], c_err = None, c_op = op, c_start = zero_time\<rparr>), w_ncmds := Suc (w_ncmds w)\<rparr>"
    by (auto simp: new_cmd_def)
  have "submit e c w1 = w1" by (rule submit_busy) (simp add: w1 assms(1))
  with n c w1 assms(2) d show ?thesis by (simp add: queryApp_def)
qed

text \<open>
  The first write of a \<open>SystemInfoOp\<close> query fails: the fallback overwrites the queued command through
  the shared variable and is refused by \<open>mayQueueCmd\<close>, as the queue holds that very command. Nothing is
  written for it, the error is lost, and the queue is blocked by a command no answer can complete.
\<close>

lemma queryApp_fallback:
  assumes "ep_pendingCmds (w_eps w r) = []" and "ep_App (w_eps w r) = Some a"
    and "GetAppDetectInfo a False = (s, SystemInfoOp)" and "GetAppDetectInfo a True = (s', op')"
    and "e_write e (query_file e w r) (query_text e w s) \<noteq> None"
  shows "\<exists>w'. queryApp e r w = Inr (None, w') \<and>
     ep_pendingCmds (w_eps w' r) = [(e_uuid_New e (w_uuids w), w_ncmds w)] \<and>
     w_cmds w' (w_ncmds w) = \<lparr>c_ep = r, c_cmd = s', c_id = 0, c_outJSON = [], c_err = None, c_op = op',
                               c_start = zero_time\<rparr> \<and>
     w_sys w' = w_sys w @ [SysWriteFile (query_file e w r) (query_text e w s)]"
proof -
  obtain c w1 where n: "new_cmd \<lparr>c_ep = r, c_cmd = s, c_id = 0, c_outJSON = [], c_err = None,
      c_op = SystemInfoOp, c_start = zero_time\<rparr> w = (c, w1)" by force
  note sub = submit_new(1) [OF assms(1) n, of e] submit_new(2) [OF assms(1) n]
  let ?w2 = "asked e r s SystemInfoOp w"
  let ?cmd = "\<lparr>c_ep = r, c_cmd = s', c_id = 0, c_outJSON = [], c_err = None, c_op = op', c_start = zero_time\<rparr>"
  let ?w3 = "upd_cmd c (\<lambda>_. ?cmd) ?w2"
  have "c_err (w_cmds ?w2 c) \<noteq> None" "c_op (w_cmds ?w2 c) = SystemInfoOp"
    unfolding sub(2) asked_fields(2,3) using assms(5) by simp_all
  moreover have "submit e c ?w3 = ?w3"
    by (rule submit_busy) (simp add: asked_fields)
  ultimately have "queryApp e r w = Inr (None, ?w3)"
    by (simp add: queryApp_def assms(2-4) n sub(1) Let_def)
  then show ?thesis using asked_fields(1,4) by (simp add: sub(2))
qed

section \<open>Polling an endpoint that is not identified\<close>

lemma Poll_Init:
  assumes "ep_State (w_eps w r) = EPstateInit" and "ep_pendingCmds (w_eps w r) = []"
  shows "Poll e r w = Inr (None, asked e r ''GET /.*'' IdentifyOp (w\<lparr>w_uuids := Suc (w_uuids w)\<rparr>))"
proof -
  let ?w = "w\<lparr>w_uuids := Suc (w_uuids w)\<rparr>"
  obtain c w1 where n: "new_cmd \<lparr>c_ep = r, c_cmd = ''GET /.*'', c_id = e_uuid_New e (w_uuids w), c_outJSON = [],
      c_err = None, c_op = IdentifyOp, c_start = zero_time\<rparr> ?w = (c, w1)" by force
  have "submit e c w1 = asked e r ''GET /.*'' IdentifyOp ?w"
    by (rule submit_new(1) [OF _ n]) (simp add: assms(2))
  with assms(1) n show ?thesis by (simp add: Poll_def new_uuid_def)
qed

section \<open>Completing a command\<close>

text \<open>The output file of a command as the completion reads it.\<close>

definition answer :: "env \<Rightarrow> world \<Rightarrow> cmd_ref \<Rightarrow> goerr + string" where
  "answer e w c =
     (case checkOutFile e w c of Some err \<Rightarrow> Inl err | None \<Rightarrow> e_read e (getOutFnam e w c))"

lemma loadOutfile_answer:
  "loadOutfile e c w =
     (case answer e w c of
        Inr out \<Rightarrow> upd_cmd c (\<lambda>x. x\<lparr>c_err := None, c_outJSON := out\<rparr>) w
      | Inl err \<Rightarrow> loadOutfile e c w)"
  by (auto simp: loadOutfile_def answer_def split: option.splits sum.splits)

lemma answer_removed: "removeCmd e r u f w = (x, w1) \<Longrightarrow> answer e w1 c = answer e w c"
  by (auto simp: removeCmd_def answer_def checkOutFile_def getOutFnam_def Xpath_def upd_ep_def
      split: option.splits if_splits)

lemma Complete_unknown:
  "map_of (ep_pendingCmds (w_eps w r)) u = None \<Longrightarrow> Complete e r u output w = Inr ((Some ENOENT, output), w)"
  by (simp add: Complete_handle removeCmd_def)

text \<open>
  The branches of a completion after the file has been read: the state in which the command is out of
  the queue and its output is in the command.
\<close>

definition received :: "ep_ref \<Rightarrow> uuid \<Rightarrow> cmd_ref \<Rightarrow> string \<Rightarrow> world \<Rightarrow> world" where
  "received r u c out w =
     upd_cmd c (\<lambda>x. x\<lparr>c_err := None, c_outJSON := out\<rparr>)
       (upd_ep r (\<lambda>x. x\<lparr>ep_pendingCmds := mdel u (ep_pendingCmds x)\<rparr>) w)"

lemma received_fields [simp]:
  "ep_State (w_eps (received r u c out w) r) = ep_State (w_eps w r)"
  "ep_App (w_eps (received r u c out w) r) = ep_App (w_eps w r)"
  "ep_Uuid (w_eps (received r u c out w) r) = ep_Uuid (w_eps w r)"
  "ep_watched (w_eps (received r u c out w) r) = ep_watched (w_eps w r)"
  "ep_pendingCmds (w_eps (received r u c out w) r) = mdel u (ep_pendingCmds (w_eps w r))"
  "w_uuids (received r u c out w) = w_uuids w" "w_ncmds (received r u c out w) = w_ncmds w"
  "w_sys (received r u c out w) = w_sys w"
  by (simp_all add: received_def)

lemma Complete_loaded:
  assumes "map_of (ep_pendingCmds (w_eps w r)) u = Some c" and "answer e w c = Inr out"
  shows "Complete e r u output w =
     bindr (if ep_State (w_eps w r) = EPstateDown then ChangeState e r EPstateRunning (received r u c out w)
            else Inr (received r u c out w))
       (\<lambda>w. handle e r (c_op (w_cmds w c)) (c_outJSON (w_cmds w c)) output w)"
proof -
  let ?w1 = "upd_ep r (\<lambda>x. x\<lparr>ep_pendingCmds := mdel u (ep_pendingCmds x)\<rparr>) w"
  have rem: "removeCmd e r u True w = (Some c, ?w1)" using assms(1) by (simp add: removeCmd_def)
  have "loadOutfile e c ?w1 = received r u c out w"
    using answer_removed [OF rem, of c] assms(2) by (subst loadOutfile_answer) (simp add: received_def)
  with rem show ?thesis by (simp add: Complete_handle received_def)
qed

lemma Complete_answered:
  assumes "map_of (ep_pendingCmds (w_eps w r)) u = Some c" and "answer e w c = Inr out"
    and "ep_State (w_eps w r) \<noteq> EPstateDown"
  shows "Complete e r u output w = handle e r (c_op (w_cmds w c)) out output (received r u c out w)"
  using Complete_loaded [OF assms(1,2)] assms(3) by (simp add: received_def)

text \<open>An endpoint whose only pending command is the one completed.\<close>

lemma mdel_single: "mwf m \<Longrightarrow> length m \<le> 1 \<Longrightarrow> map_of m u = Some c \<Longrightarrow> mdel u m = []"
  using length_mdel [of m u] by (cases "mdel u m") simp_all

lemma watched_step:
  assumes "ep_watched (w_eps w r) = isWatchedState (ep_State (w_eps w r))"
    and "isWatchedState (ep_State (w_eps w r))" and "isWatchedState s" and "ep_State (w_eps w r) \<noteq> s"
  shows "ChangeState e r s w =
     Inr (upd_ep r (\<lambda>x. x\<lparr>ep_State := s, ep_LastSeen :=
        (if s \<in> {EPstateInit, EPstateRunning, EPstateHasIdentity} then e_now e else ep_LastSeen x)\<rparr>) w)"
proof -
  have "s \<noteq> EPstateAny" using assms(3) by auto
  then show ?thesis using assms
    by (simp add: ChangeState_def ensureWatchedState_def watchCtl_def upd_ep_def Let_def)
qed

lemma Complete_identify:
  assumes "linv w" and "r < w_neps w" and "map_of (ep_pendingCmds (w_eps w r)) u = Some c"
    and "c_op (w_cmds w c) = IdentifyOp" and "ep_State (w_eps w r) = EPstateInit"
    and "answer e w c = Inr out" and "DetermineApp e out = (a, None)"
    and "e_write e (query_file e w r)
           (query_text e w (fst (GetAppDetectInfo (SetUUID (ep_Uuid (w_eps w r)) a) False))) = None"
  shows "\<exists>w'. Complete e r u output w = Inr ((None, output), w') \<and>
     ep_State (w_eps w' r) = EPstateHasIdentity \<and>
     ep_App (w_eps w' r) = Some (SetUUID (ep_Uuid (w_eps w r)) a) \<and>
     ep_NiovaSvcType (w_eps w' r) = GetAppName (SetUUID (ep_Uuid (w_eps w r)) a) \<and>
     ep_LastSeen (w_eps w' r) = e_now e \<and>
     ep_pendingCmds (w_eps w' r) = [(e_uuid_New e (w_uuids w), w_ncmds w)] \<and>
     c_op (w_cmds w' (w_ncmds w)) = snd (GetAppDetectInfo (SetUUID (ep_Uuid (w_eps w r)) a) False)"
proof -
  let ?u = "ep_Uuid (w_eps w r)" and ?a = "SetUUID (ep_Uuid (w_eps w r)) a"
  let ?w2 = "received r u c out w" and ?w3 = "set_identity e r a (received r u c out w)"
  obtain s op where d: "GetAppDetectInfo ?a False = (s, op)" by force
  have ok: "watch_ok w r" "pend_ok w r" using assms(1,2) by (auto simp: linv_def ep_ok_def)
  have empty: "mdel u (ep_pendingCmds (w_eps w r)) = []"
    using ok(2) assms(3) by (intro mdel_single) (auto simp: pend_ok_def Let_def)
  define w4 where "w4 = upd_ep r (\<lambda>x. x\<lparr>ep_State := EPstateHasIdentity, ep_LastSeen := e_now e\<rparr>) ?w3"
  have f: "ep_State (w_eps ?w3 r) = EPstateInit" "ep_watched (w_eps ?w3 r)"
    using ok(1) assms(5) by (simp_all add: set_identity_def watch_ok_def Let_def)
  have st: "ChangeState e r EPstateHasIdentity ?w3 = Inr w4"
    using watched_step [of ?w3 r EPstateHasIdentity e] f by (simp add: w4_def)
  have w4: "ep_pendingCmds (w_eps w4 r) = []" "ep_App (w_eps w4 r) = Some ?a"
    "ep_State (w_eps w4 r) = EPstateHasIdentity" "ep_LastSeen (w_eps w4 r) = e_now e"
    "ep_NiovaSvcType (w_eps w4 r) = GetAppName ?a" "w_uuids w4 = w_uuids w" "w_ncmds w4 = w_ncmds w"
    "query_file e w4 r = query_file e w r" "query_text e w4 = query_text e w"
    using empty by (simp_all add: w4_def set_identity_def Let_def query_file_def query_text_def Xpath_def
        received_def fun_eq_iff)
  have q: "queryApp e r w4 = Inr (None, asked e r s op w4)"
    using assms(8) d by (intro queryApp_idle [OF w4(1,2) d]) (simp add: w4)
  have "Complete e r u output w = Inr ((None, output), asked e r s op w4)"
    using assms(4-7) st q
    by (simp add: Complete_answered [OF assms(3,6)] handle_def)
  moreover have "ep_NiovaSvcType (w_eps (asked e r s op w4) r) = GetAppName ?a"
    "ep_LastSeen (w_eps (asked e r s op w4) r) = e_now e"
    using w4 by (simp_all add: asked_def Let_def)
  ultimately show ?thesis using asked_fields(1,2,5,6) [of e r s op w4] w4 d by simp
qed

text \<open>The states that are asked for data.\<close>

definition asking :: "Epstate \<Rightarrow> bool" where
  "asking s = (s \<in> {EPstateHasIdentity, EPstateRunning, EPstateDown})"

lemma Complete_info:
  assumes "linv w" and "r < w_neps w" and "map_of (ep_pendingCmds (w_eps w r)) u = Some c"
    and "c_op (w_cmds w c) \<in> {SystemInfoOp, NISDInfoOp, NCLIENTInfoOp}"
    and "asking (ep_State (w_eps w r))" and "ep_App (w_eps w r) = Some a"
    and "answer e w c = Inr out" and "Unmarshal_ctl e out = Inr ctl"
  shows "\<exists>w'. Complete e r u output w = Inr ((None, output), w') \<and>
     ep_State (w_eps w' r) = EPstateRunning \<and> ep_App (w_eps w' r) = Some (SetCtlIfOut ctl a) \<and>
     ep_EPInfo (w_eps w' r) = GetCtlIfOut (SetCtlIfOut ctl a) \<and> ep_LastSeen (w_eps w' r) = e_now e \<and>
     ep_pendingCmds (w_eps w' r) = [] \<and> w_sys w' = w_sys w"
proof -
  let ?w2 = "received r u c out w" and ?a = "SetCtlIfOut ctl a"
  have ok: "watch_ok w r" "pend_ok w r" using assms(1,2) by (auto simp: linv_def ep_ok_def)
  have empty: "mdel u (ep_pendingCmds (w_eps w r)) = []"
    using ok(2) assms(3) by (intro mdel_single) (auto simp: pend_ok_def Let_def)
  have wat: "ep_watched (w_eps w r) = isWatchedState (ep_State (w_eps w r))"
    using ok(1) by (simp add: watch_ok_def Let_def)
  note [simp] = watched_step isWatchedState_simps upd_ep_def
  have hd: "handle e r (c_op (w_cmds w c)) out output w' =
      bindr (update e r ctl w') (\<lambda>w. Inr ((None, output), w))" for w'
    using assms(4,8) by (auto simp: handle_def)
  show ?thesis
  proof (cases "ep_State (w_eps w r) = EPstateDown")
    case False
    then have "ep_State (w_eps w r) \<in> {EPstateHasIdentity, EPstateRunning}" using assms(5) by (auto simp: asking_def)
    moreover have "Complete e r u output w = handle e r (c_op (w_cmds w c)) out output ?w2"
      using Complete_answered [OF assms(3,7) False] .
    ultimately show ?thesis using assms(6) wat empty by (auto simp: hd update_def received_def Let_def)
  next
    case True
    let ?w3 = "upd_ep r (\<lambda>x. x\<lparr>ep_State := EPstateRunning, ep_LastSeen := e_now e\<rparr>) ?w2"
    have "ChangeState e r EPstateRunning ?w2 = Inr ?w3"
      using watched_step [of ?w2 r EPstateRunning e] True wat by simp
    with Complete_loaded [OF assms(3,7)] True have "Complete e r u output w = handle e r (c_op (w_cmds w c)) out output ?w3"
      by (simp add: received_def)
    then show ?thesis using assms(6) empty by (simp add: hd update_def received_def Let_def)
  qed
qed

end
