(* ===== verification/Json.thy ===== *)
theory Json
  imports Container "HOL-Library.Char_ord" "HOL-Library.List_Lexorder"
begin

text \<open>
  The JSON documents of \<open>/v0/\<close>: \<open>json.MarshalIndent(x, "", "\t")\<close> on the endpoint map, on one endpoint and
  on the data of the applications, which it reads by reflection through the \<open>json\<close> tags of the
  structure tables. Floats and times are formatted by parameters.
\<close>

section \<open>Structures\<close>

record jenv =
  j_float :: "64 word \<Rightarrow> string"
  j_time :: "gotime \<Rightarrow> string"

text \<open>A \<open>json\<close> tag is a name and options; only the option \<open>omitempty\<close> is known.\<close>

definition tag_omitempty :: "string \<Rightarrow> bool" where
  "tag_omitempty t = (''omitempty'' \<in> set (tl (Split t '','')))"

text \<open>What \<open>omitempty\<close> calls empty: zero numbers, empty strings and slices, but never a structure.\<close>

fun is_empty_value :: "goval \<Rightarrow> bool" where
  "is_empty_value (GInt i) = (i = 0)"
| "is_empty_value (GUint u) = (u = 0)"
| "is_empty_value (GString s) = (s = [])"
| "is_empty_value (GBool b) = (\<not> b)"
| "is_empty_value (GFloat f) = (f = 0 \<or> f = push_bit 63 1)"
| "is_empty_value (GHist _) = False"
| "is_empty_value (GTime _) = False"
| "is_empty_value (GUUID _) = False"
| "is_empty_value (GSlice xs) = (xs = [])"

definition struct_members :: "(goval \<Rightarrow> json) \<Rightarrow> sfield list \<Rightarrow> gostruct \<Rightarrow> (string \<times> json) list" where
  "struct_members enc fs vs =
     map (\<lambda>(f, v). (tag_name (f_json f), enc v))
       (filter (\<lambda>(f, v). \<not> (tag_omitempty (f_json f) \<and> is_empty_value v)) (zip fs vs))"

text \<open>A leaf of the tables; \<open>GSlice\<close> occurs only as \<open>RaftInfo.FollowerStats\<close>, whose fields are leaves.\<close>

fun enc_leaf :: "jenv \<Rightarrow> env \<Rightarrow> goval \<Rightarrow> json" where
  "enc_leaf je e (GInt i) = JNum (Itoa (sint i))"
| "enc_leaf je e (GUint u) = JNum (Itoa (uint u))"
| "enc_leaf je e (GString s) = JStr s"
| "enc_leaf je e (GBool b) = JBool b"
| "enc_leaf je e (GFloat f) = JNum (j_float je f)"
| "enc_leaf je e (GHist bs) =
     JObj (struct_members (\<lambda>v. case v of GInt i \<Rightarrow> JNum (Itoa (sint i)) | _ \<Rightarrow> JNull) Histogram_fields (map GInt bs))"
| "enc_leaf je e (GTime t) = JObj [(''time'', JStr (j_time je t))]"
| "enc_leaf je e (GUUID u) = JStr (e_uuid_String e u)"
| "enc_leaf je e (GSlice xs) = JNull"

fun enc_value :: "jenv \<Rightarrow> env \<Rightarrow> goval \<Rightarrow> json" where
  "enc_value je e (GSlice xs) = JArr (map (\<lambda>s. JObj (struct_members (enc_leaf je e) FollowerStats_fields s)) xs)"
| "enc_value je e v = enc_leaf je e v"

definition enc_struct :: "jenv \<Rightarrow> env \<Rightarrow> sfield list \<Rightarrow> gostruct \<Rightarrow> json" where
  "enc_struct je e fs vs = JObj (struct_members (enc_value je e) fs vs)"

definition slice_member :: "jenv \<Rightarrow> env \<Rightarrow> string \<Rightarrow> sfield list \<Rightarrow> gostruct list \<Rightarrow> (string \<times> json) list" where
  "slice_member je e k fs xs = (if xs = [] then [] else [(k, JArr (map (enc_struct je e fs) xs))])"

definition enc_hist :: "jenv \<Rightarrow> env \<Rightarrow> i64 list \<Rightarrow> json" where
  "enc_hist je e bs = enc_leaf je e (GHist bs)"

text \<open>
  \<open>CtlIfOut\<close>: the tag of \<open>SysInfo\<close> has an unknown option, so a nil pointer is written as \<open>null\<close>; a
  structure is never empty, so \<open>chunk_defrag\<close> is always there.
\<close>

definition enc_ctl :: "jenv \<Rightarrow> env \<Rightarrow> CtlIfOut \<Rightarrow> json" where
  "enc_ctl je e c =
     JObj ([(''system_info'', case SysInfo c of None \<Rightarrow> JNull | Some s \<Rightarrow> enc_struct je e SystemInfo_fields s)] @
       slice_member je e ''raft_root_entry'' RaftInfo_fields (RaftRootEntry c) @
       slice_member je e ''niorq_mgr_root_entry'' NiorqMgr_fields (NiorqMgr c) @
       slice_member je e ''nisd_root_entry'' NISDRoot_fields (NISDRootEntry c) @
       slice_member je e ''nisd_chunks'' NISDChunkInfo_fields (NISDChunk c) @
       slice_member je e ''mb_merge_root_entry'' MbMerge_fields (MbMerge c) @
       slice_member je e ''tasks'' TaskInfo_fields (Tasks c) @
       slice_member je e ''buffer_set_nodes'' BufferSetNodes_fields (BufSetNodes c) @
       [(''chunk_defrag'', JObj [(tag_name (f_json (ChunkDefrag_fields ! 0)), enc_hist je e (fst (Defrag c))),
                               (tag_name (f_json (ChunkDefrag_fields ! 1)), enc_hist je e (snd (Defrag c)))])] @
       (case Nclient c of None \<Rightarrow> [] | Some n \<Rightarrow> [(''nclient_root_entry'', enc_struct je e NclientInfo_fields n)]))"

section \<open>Endpoints\<close>

definition enc_ep :: "jenv \<Rightarrow> env \<Rightarrow> NcsiEP \<Rightarrow> json" where
  "enc_ep je e ep =
     JObj [(''uuid'', JStr (e_uuid_String e (ep_Uuid ep))), (''name'', JStr (ep_Name ep)),
           (''type'', JStr (ep_NiovaSvcType ep)), (''port'', JNum (Itoa (ep_Port ep))),
           (''last_seen'', JStr (j_time je (ep_LastSeen ep))), (''state'', JStr (Epstate_String (ep_State ep))),
           (''ep_info'', enc_ctl je e (ep_EPInfo ep))]"

text \<open>A map becomes an object with its keys as text, in the order of the text.\<close>

definition enc_eps :: "jenv \<Rightarrow> env \<Rightarrow> world \<Rightarrow> (uuid, ep_ref) gomap \<Rightarrow> json" where
  "enc_eps je e w m =
     JObj (sort_key fst (map (\<lambda>(u, r). (e_uuid_String e u, enc_ep je e (w_eps w r))) m))"

definition JsonMarshal :: "jenv \<Rightarrow> env \<Rightarrow> Epstate \<Rightarrow> uuid list \<Rightarrow> world \<Rightarrow> string" where
  "JsonMarshal je e state ord w = indent 0 (enc_eps je e w (JsonMarshal_select state ord w))"

definition JsonMarshalUUID :: "jenv \<Rightarrow> env \<Rightarrow> uuid \<Rightarrow> world \<Rightarrow> string" where
  "JsonMarshalUUID je e u w =
     (case Lookup u w of
        Some r \<Rightarrow> indent 0 (enc_ep je e (w_eps w r))
      | None \<Rightarrow> ''{}'')"

section \<open>What a document holds\<close>

text \<open>The selection for one state, whatever the order the map is visited in.\<close>

lemma select_map_of:
  assumes "range_order ord (w_epMap w)"
  shows "map_of (JsonMarshal_select state ord w) u =
    (case map_of (w_epMap w) u of
       None \<Rightarrow> None
     | Some r \<Rightarrow> if state = EPstateAny \<or> ep_State (w_eps w r) = state then Some r else None)"
proof (cases "state = EPstateAny")
  case True
  then show ?thesis by (auto simp: JsonMarshal_select_def split: option.splits)
next
  case False
  let ?f = "\<lambda>k filtered. case map_of (w_epMap w) k of
             None \<Rightarrow> filtered
           | Some v \<Rightarrow> if ep_State (w_eps w v) = state then mput k v filtered else filtered"
  have "map_of (fold ?f ks m) u = (if u \<in> set ks then
       (case map_of (w_epMap w) u of
          None \<Rightarrow> map_of m u
        | Some r \<Rightarrow> if ep_State (w_eps w r) = state then Some r else map_of m u)
      else map_of m u)" for ks m
    by (induction ks arbitrary: m) (auto split: option.splits)
  with False range_order_lookup [OF assms, of u] show ?thesis
    by (auto simp: JsonMarshal_select_def split: option.splits)
qed

lemma select_mwf:
  assumes "mwf (w_epMap w)"
  shows "mwf (JsonMarshal_select state ord w)"
proof -
  have "mwf (fold (\<lambda>k filtered. case map_of (w_epMap w) k of
             None \<Rightarrow> filtered
           | Some v \<Rightarrow> if ep_State (w_eps w v) = state then mput k v filtered else filtered) ks m)"
    if "mwf m" for ks m
    using that by (induction ks arbitrary: m) (auto split: option.splits)
  with assms show ?thesis by (simp add: JsonMarshal_select_def)
qed

lemma sort_key_unique:
  assumes "set xs = set ys" and "distinct (map fst xs)" and "distinct (map fst ys)"
  shows "sort_key fst xs = sort_key fst (ys :: (string \<times> 'b) list)"
proof -
  have "inj_on fst (set (sort_key fst xs) \<union> set (sort_key fst ys))" "distinct (sort_key fst xs)"
    "distinct (sort_key fst ys)" "sorted (map fst (sort_key fst xs))" "sorted (map fst (sort_key fst ys))"
    using assms by (auto simp: distinct_map distinct_sort)
  then have "distinct (map fst (sort_key fst xs))" "distinct (map fst (sort_key fst ys))"
    by (auto simp: distinct_map inj_on_Un)
  with \<open>inj_on fst _\<close> show ?thesis
    using assms(1) by (intro map_sorted_distinct_set_unique [of fst]) auto
qed

lemma mwf_set: "mwf m \<Longrightarrow> mwf m' \<Longrightarrow> map_of m = map_of m' \<Longrightarrow> set m = set m'"
  by (auto simp: mwf_def) (metis map_of_eq_Some_iff)+

lemma JsonMarshal_order:
  assumes inv: "linv w" and pkg: "uuid_pkg e"
    and ord: "range_order ord (w_epMap w)" "range_order ord' (w_epMap w)"
  shows "JsonMarshal je e state ord w = JsonMarshal je e state ord' w"
proof -
  let ?m = "JsonMarshal_select state ord w" and ?m' = "JsonMarshal_select state ord' w"
  let ?g = "\<lambda>(u, r). (e_uuid_String e u, enc_ep je e (w_eps w r))"
  have wf: "mwf ?m" "mwf ?m'" using inv by (simp_all add: select_mwf linv_def maps_ok_def)
  have "set ?m = set ?m'" using wf by (rule mwf_set) (simp add: fun_eq_iff select_map_of ord)
  moreover have inj: "inj (e_uuid_String e)" using pkg by (metis injI uuid_pkg_def sum.inject(2))
  have keys: "map fst (map ?g m) = map (e_uuid_String e) (map fst m)" for m by auto
  have dist: "distinct (map fst (map ?g m))" if "mwf m" for m
    unfolding keys using that inj by (simp only: mwf_def distinct_map [of "e_uuid_String e"] inj_on_subset [OF inj] subset_UNIV)
  have "set (map ?g ?m) = set (map ?g ?m')" if "set ?m = set ?m'" using that by simp
  with sort_key_unique [of "map ?g ?m" "map ?g ?m'"] dist [OF wf(1)] dist [OF wf(2)]
  have "sort_key fst (map ?g ?m) = sort_key fst (map ?g ?m')" if "set ?m = set ?m'" using that by blast
  ultimately show ?thesis by (simp add: JsonMarshal_def enc_eps_def)
qed

end
