(* ===== verification/Xlog.thy ===== *)
theory Xlog
  imports GoLib
begin

text \<open>
  \<open>pkg/xlog/xlog.go\<close>: the levels, the dispatch of a message to the logger's methods, the choice of the
  call site and the layout of a line. The logger itself (logrus) is third-party: a call of it is a
  value, its level a number.
\<close>

section \<open>Levels\<close>

definition TRACE :: int where "TRACE = 0"
definition DEBUG :: int where "DEBUG = 1"
definition INFO :: int where "INFO = 2"
definition WARN :: int where "WARN = 3"
definition ERROR :: int where "ERROR = 4"
definition FATAL :: int where "FATAL = 5"

lemmas level_defs = TRACE_def DEBUG_def INFO_def WARN_def ERROR_def FATAL_def

text \<open>logrus numbers its levels from the most severe; a logger shows a level up to its own.\<close>

datatype llevel = PanicLevel | FatalLevel | ErrorLevel | WarnLevel | InfoLevel | DebugLevel | TraceLevel

fun lnum :: "llevel \<Rightarrow> nat" where
  "lnum PanicLevel = 0" | "lnum FatalLevel = 1" | "lnum ErrorLevel = 2" | "lnum WarnLevel = 3"
| "lnum InfoLevel = 4" | "lnum DebugLevel = 5" | "lnum TraceLevel = 6"

definition logger_enabled :: "llevel \<Rightarrow> llevel \<Rightarrow> bool" where
  "logger_enabled own l = (lnum l \<le> lnum own)"

definition IsLevelEnabled :: "llevel \<Rightarrow> int \<Rightarrow> bool" where
  "IsLevelEnabled own level =
     (if level = TRACE then logger_enabled own TraceLevel
      else if level = DEBUG then logger_enabled own DebugLevel
      else if level = INFO then logger_enabled own InfoLevel
      else if level = WARN then logger_enabled own WarnLevel
      else if level = ERROR then logger_enabled own ErrorLevel
      else if level = FATAL then logger_enabled own FatalLevel
      else False)"

section \<open>Calls of the logger\<close>

text \<open>An argument is a string, a number, a duration or, where a whole argument slice is passed as one argument, a slice.\<close>

datatype garg = AVal string | AInt int | ADuration int | ASlice "garg list"

datatype lmethod = MTrace | MDebug | MInfo | MWarn | MError | MFatal
  | MTracef | MDebugf | MInfof | MWarnf | MErrorf | MFatalf | MPrintf

record lcall =
  lc_method :: lmethod
  lc_depth :: "int option"
  lc_format :: string
  lc_args :: "garg list"

text \<open>The package's functions named after a level; a method without a format has the empty one.\<close>

definition plain_call :: "lmethod \<Rightarrow> garg list \<Rightarrow> lcall" where
  "plain_call m args = \<lparr>lc_method = m, lc_depth = None, lc_format = [], lc_args = args\<rparr>"

definition format_call :: "lmethod \<Rightarrow> string \<Rightarrow> garg list \<Rightarrow> lcall" where
  "format_call m format args = \<lparr>lc_method = m, lc_depth = None, lc_format = format, lc_args = args\<rparr>"

definition Trace :: "garg list \<Rightarrow> lcall" where
  "Trace args = plain_call MTrace args"

definition Debug :: "garg list \<Rightarrow> lcall" where
  "Debug args = plain_call MDebug args"

definition Info :: "garg list \<Rightarrow> lcall" where
  "Info args = plain_call MInfo args"

definition Warn :: "garg list \<Rightarrow> lcall" where
  "Warn args = plain_call MWarn args"

definition Error :: "garg list \<Rightarrow> lcall" where
  "Error args = plain_call MError args"

definition Fatal :: "garg list \<Rightarrow> lcall" where
  "Fatal args = plain_call MFatal args"

definition Tracef :: "string \<Rightarrow> garg list \<Rightarrow> lcall" where
  "Tracef format args = format_call MTracef format args"

definition Debugf :: "string \<Rightarrow> garg list \<Rightarrow> lcall" where
  "Debugf format args = format_call MDebugf format args"

definition Infof :: "string \<Rightarrow> garg list \<Rightarrow> lcall" where
  "Infof format args = format_call MInfof format args"

definition Warnf :: "string \<Rightarrow> garg list \<Rightarrow> lcall" where
  "Warnf format args = format_call MWarnf format args"

definition Errorf :: "string \<Rightarrow> garg list \<Rightarrow> lcall" where
  "Errorf format args = format_call MErrorf format args"

definition Fatalf :: "string \<Rightarrow> garg list \<Rightarrow> lcall" where
  "Fatalf format args = format_call MFatalf format args"

definition level_method :: "int \<Rightarrow> lmethod" where
  "level_method level =
     (if level = TRACE then MTracef else if level = DEBUG then MDebugf
      else if level = INFO then MInfof else if level = WARN then MWarnf
      else if level = ERROR then MErrorf else if level = FATAL then MFatalf else MPrintf)"

definition WithLevel :: "int \<Rightarrow> string \<Rightarrow> garg list \<Rightarrow> lcall" where
  "WithLevel level format args =
     format_call (level_method level) format args"

lemma WithLevel_named:
  "WithLevel TRACE = Tracef" "WithLevel DEBUG = Debugf" "WithLevel INFO = Infof"
  "WithLevel WARN = Warnf" "WithLevel ERROR = Errorf" "WithLevel FATAL = Fatalf"
  by (simp_all add: fun_eq_iff WithLevel_def level_method_def level_defs Tracef_def Debugf_def Infof_def Warnf_def
      Errorf_def Fatalf_def)

definition WithErr :: "'e option \<Rightarrow> int \<Rightarrow> int \<Rightarrow> string \<Rightarrow> garg list \<Rightarrow> lcall" where
  "WithErr err errLevel okLevel format args =
     (let level = (if err \<noteq> None then errLevel else okLevel) in WithLevel level format [ASlice args])"

definition WithDepth :: "int \<Rightarrow> int \<Rightarrow> string \<Rightarrow> garg list \<Rightarrow> lcall" where
  "WithDepth level depth format args =
     \<lparr>lc_method = level_method level, lc_depth = Some depth, lc_format = format, lc_args = args\<rparr>"

definition FatalIfErr :: "'e option \<Rightarrow> string \<Rightarrow> garg list \<Rightarrow> lcall option" where
  "FatalIfErr err format args = (if err \<noteq> None then Some (WithDepth FATAL 1 format [ASlice args]) else None)"

definition FatalIF :: "bool \<Rightarrow> string \<Rightarrow> garg list \<Rightarrow> lcall option" where
  "FatalIF cond format args = (if cond then Some (WithDepth FATAL 1 format args) else None)"

section \<open>The call site\<close>

record frame =
  fr_func :: string
  fr_file :: string
  fr_line :: int

definition external :: "frame \<Rightarrow> bool" where
  "external f =
     (\<not> Contains (fr_func f) ''logrus'' \<and> \<not> Contains (fr_func f) ''Logger'' \<and> \<not> Contains (fr_func f) ''xlog'')"

text \<open>The loop over at most \<open>k\<close> stack frames; \<open>None\<close> leaves the site unknown.\<close>

fun find_site :: "nat \<Rightarrow> int \<Rightarrow> frame list \<Rightarrow> frame option" where
  "find_site 0 depth fs = None"
| "find_site (Suc k) depth [] = None"
| "find_site (Suc k) depth (f # fs) =
     (if external f then (if depth = 0 then Some f else find_site k (depth - 1) fs)
      else find_site k depth fs)"

lemma find_site_eq:
  "0 \<le> depth \<Longrightarrow> find_site k depth fs =
     (let xs = filter external (take k fs)
      in if nat depth < length xs then Some (xs ! nat depth) else None)"
  by (induction k depth fs rule: find_site.induct) (auto simp: Let_def nth_Cons' nat_diff_distrib)

section \<open>A line\<close>

definition level_text :: "string \<Rightarrow> string" where
  "level_text name =
     (let lvl = ToUpper name;
          lvl = (if length lvl > 4 then take 4 lvl else lvl)
      in lvl @ replicate (4 - length lvl) (CHR '' ''))"

text \<open>\<open>strconv.ParseUint(s, 10, 64)\<close> without its error, and the goroutine number of a stack dump.\<close>

definition ParseUint :: "string \<Rightarrow> int" where
  "ParseUint s =
     (case (if s = [] then None else digits_val 0 s) of
        None \<Rightarrow> 0
      | Some n \<Rightarrow> if int n \<le> 2 ^ 64 - 1 then int n else 2 ^ 64 - 1)"

definition goroutineID :: "string \<Rightarrow> int res" where
  "goroutineID buf =
     (let line = SplitN buf '' '' 3
      in if length line < 2 then Inl index_panic else Inr (ParseUint (line ! 1)))"

definition Format :: "string \<Rightarrow> string \<Rightarrow> int \<Rightarrow> string \<Rightarrow> int option \<Rightarrow> frame list \<Rightarrow> string \<Rightarrow> string res" where
  "Format ts level tid stack depth frames message =
     (let site = find_site 100 (case depth of None \<Rightarrow> 0 | Some d \<Rightarrow> d) frames;
          (file, func, line) =
            (case site of
               None \<Rightarrow> (''unknown'', ''unknown'', 0)
             | Some f \<Rightarrow> (Base (fr_file f), Base (fr_func f), fr_line f))
      in bindr (goroutineID stack) (\<lambda>gid.
           Inr (level_text level @ ''['' @ ts @ '']['' @ Itoa tid @ '':'' @ Itoa gid @ '']'' @ file @ '':'' @
                Itoa line @ '' '' @ func @ '' :: '' @ TrimSpace message @ nl)))"

section \<open>Set-up\<close>

text \<open>
  \<open>ParseLevel\<close> is logrus's; the result is the level and whether the output is the file.
\<close>

definition InitXlog ::
  "(string \<Rightarrow> llevel option) \<Rightarrow> (string \<Rightarrow> string option) \<Rightarrow> string \<Rightarrow> string \<Rightarrow> (llevel \<times> bool) res" where
  "InitXlog ParseLevel open_file logFilePath logLevel =
     bindr (case ParseLevel logLevel of
              Some l \<Rightarrow> Inr l
            | None \<Rightarrow> (case ParseLevel ''warn'' of
                 Some l \<Rightarrow> Inr l | None \<Rightarrow> Inl (Panic ''failed to set default log level''))) (\<lambda>level.
       if logFilePath \<noteq> [] then
         (case open_file logFilePath of
            Some err \<Rightarrow> Inl (Panic (''Error opening log file: '' @ err))
          | None \<Rightarrow> Inr (level, True))
       else Inr (level, False))"

end
