(* ===== verification/NetIP.thy ===== *)
theory NetIP
  imports JsonText
begin

text \<open>
  \<open>net.ParseIP\<close> and \<open>IP.String\<close>, through which the addresses of the gossip file and of the command line pass:
  dotted IPv4, IPv6 with \<open>::\<close> and an IPv4 tail, the sixteen bytes of a \<open>net.IP\<close> and its text; what is written
  is read back.
\<close>

section \<open>Addresses\<close>

text \<open>A \<open>net.IP\<close> as \<open>ParseIP\<close> makes it: sixteen bytes, \<open>None\<close> for nil.\<close>

type_synonym byte = "8 word"

type_synonym ip = "byte list option"

definition ip_ok :: "ip \<Rightarrow> bool" where
  "ip_ok x = (case x of None \<Rightarrow> True | Some bs \<Rightarrow> length bs = 16)"

definition v4_prefix :: "byte list" where
  "v4_prefix = replicate 10 0 @ [0xFF, 0xFF]"

text \<open>The bytes of 16-bit groups, and the groups of bytes.\<close>

definition group_bytes :: "nat \<Rightarrow> byte list" where
  "group_bytes g = [word_of_nat (g div 256), word_of_nat (g mod 256)]"

fun groups :: "byte list \<Rightarrow> nat list" where
  "groups (a # b # bs) = (256 * unat a + unat b) # groups bs"
| "groups _ = []"

section \<open>Reading\<close>

definition parse_octet :: "string \<Rightarrow> byte option" where
  "parse_octet s =
     (case (if s = [] then None else digits_val 0 s) of
        None \<Rightarrow> None
      | Some n \<Rightarrow> if 1 < length s \<and> hd s = CHR ''0'' \<or> 255 < n then None else Some (word_of_nat n))"

definition parseIPv4 :: "string \<Rightarrow> byte list option" where
  "parseIPv4 s =
     (case map parse_octet (Split s ''.'') of
        [Some a, Some b, Some c, Some d] \<Rightarrow> Some [a, b, c, d]
      | _ \<Rightarrow> None)"

definition is_hex :: "char \<Rightarrow> bool" where
  "is_hex c = (hex_digit c \<noteq> None)"

fun hex_val :: "nat \<Rightarrow> string \<Rightarrow> nat" where
  "hex_val a [] = a"
| "hex_val a (c # cs) = hex_val (16 * a + the (hex_digit c)) cs"

text \<open>
  The loop over the groups: \<open>k\<close> is how many still fit, \<open>el\<close> where the bytes that \<open>::\<close> stands for go. It gives the
  bytes, that position and what is left of the text.
\<close>

fun groups6 :: "nat \<Rightarrow> byte list \<Rightarrow> nat option \<Rightarrow> string \<Rightarrow> (byte list \<times> nat option \<times> string) option" where
  "groups6 0 bs el s = Some (bs, el, s)"
| "groups6 (Suc k) bs el s =
     (let hx = takeWhile is_hex s;
          rest = dropWhile is_hex s
      in if hx = [] \<or> 4 < length hx then None
         else if rest \<noteq> [] \<and> hd rest = CHR ''.'' then
           (if el = None \<and> length bs \<noteq> 12 \<or> 16 < length bs + 4 then None
            else map_option (\<lambda>q. (bs @ q, el, [])) (parseIPv4 s))
         else
           let bs = bs @ group_bytes (hex_val 0 hx)
           in case rest of
                [] \<Rightarrow> Some (bs, el, [])
              | c # t \<Rightarrow>
                  if c \<noteq> CHR '':'' \<or> t = [] then None
                  else if hd t = CHR '':'' then
                    (if el \<noteq> None then None
                     else if tl t = [] then Some (bs, Some (length bs), [])
                     else groups6 k bs (Some (length bs)) (tl t))
                  else groups6 k bs el t)"

definition parseIPv6 :: "string \<Rightarrow> byte list option" where
  "parseIPv6 s =
     (let lead = HasPrefix s ''::''; el = (if lead then Some 0 else None); s = (if lead then drop 2 s else s)
      in if lead \<and> s = [] then Some (replicate 16 0)
         else case groups6 8 [] el s of
           None \<Rightarrow> None
         | Some (bs, el, rest) \<Rightarrow>
             if rest \<noteq> [] then None
             else (case el of
                 None \<Rightarrow> if length bs < 16 then None else Some bs
               | Some j \<Rightarrow>
                   if length bs < 16 then Some (take j bs @ replicate (16 - length bs) 0 @ drop j bs) else None))"

text \<open>The first of three characters decides on the kind; an address with a zone is not one for \<open>ParseIP\<close>.\<close>

definition ParseIP :: "string \<Rightarrow> ip" where
  "ParseIP s =
     (case find (\<lambda>c. c \<in> {CHR ''.'', CHR '':'', CHR ''%''}) s of
        None \<Rightarrow> None
      | Some c \<Rightarrow>
          if c = CHR ''.'' then map_option (\<lambda>q. v4_prefix @ q) (parseIPv4 s)
          else if CHR ''%'' \<in> set s then None
          else parseIPv6 s)"

section \<open>Writing\<close>

definition hex_char :: "nat \<Rightarrow> char" where
  "hex_char d = ''0123456789abcdef'' ! d"

fun hex_text :: "nat \<Rightarrow> string" where
  "hex_text n = (if n < 16 then [hex_char n] else hex_text (n div 16) @ [hex_char (n mod 16)])"

declare hex_text.simps [simp del]

text \<open>The first longest run of at least two zero groups.\<close>

definition run_end :: "nat list \<Rightarrow> nat \<Rightarrow> nat" where
  "run_end gs i = i + length (takeWhile (\<lambda>g. g = 0) (drop i gs))"

definition zero_run :: "nat list \<Rightarrow> (nat \<times> nat) option" where
  "zero_run gs =
     fold (\<lambda>i best. let j = run_end gs i in
         if 2 \<le> j - i \<and> (case best of None \<Rightarrow> True | Some (a, b) \<Rightarrow> b - a < j - i) then Some (i, j) else best)
       [0..<length gs] None"

definition v6_text :: "nat list \<Rightarrow> string" where
  "v6_text gs =
     (case zero_run gs of
        None \<Rightarrow> Join (map hex_text gs) '':''
      | Some (a, b) \<Rightarrow> Join (map hex_text (take a gs)) '':'' @ ''::'' @ Join (map hex_text (drop b gs)) '':'')"

definition ip_String :: "ip \<Rightarrow> string" where
  "ip_String x =
     (case x of
        None \<Rightarrow> ''<nil>''
      | Some bs \<Rightarrow>
          if take 12 bs = v4_prefix then Join (map (\<lambda>b. nat_digits (unat b)) (drop 12 bs)) ''.''
          else v6_text (groups bs))"

section \<open>Dotted addresses\<close>

lemma split_acc_piece:
  assumes "c \<notin> set x"
  shows "split_acc [c] None (x @ t) acc = split_acc [c] None t (rev x @ acc)"
  using assms by (induction x arbitrary: acc) (auto simp: HasPrefix_def)

lemma Split_Join:
  assumes "xs \<noteq> []" and "\<forall>x \<in> set xs. c \<notin> set x"
  shows "Split (Join xs [c]) [c] = xs"
  using assms
proof (induction xs rule: list_nonempty_induct)
  case (single x)
  then show ?case using split_acc_piece [of c x "[]" "[]"] by (simp add: Split_def)
next
  case (cons x xs)
  then have "split_acc [c] None (x @ c # Join xs [c]) [] = x # split_acc [c] None (Join xs [c]) []"
    by (simp add: split_acc_piece HasPrefix_def)
  with cons show ?case by (simp add: Split_def Join_Cons)
qed

lemma nat_digits_chars: "c \<in> set (nat_digits n) \<Longrightarrow> digit_val c \<noteq> None"
  using digits_val_nat_digits [of n]
proof -
  have "digits_val a s \<noteq> None \<Longrightarrow> c \<in> set s \<Longrightarrow> digit_val c \<noteq> None" for a s
    by (induction s arbitrary: a) (auto split: option.splits)
  then show "c \<in> set (nat_digits n) \<Longrightarrow> digit_val c \<noteq> None" using digits_val_nat_digits [of n] by force
qed

lemma parse_octet_digits: "parse_octet (nat_digits (unat (b :: byte))) = Some b"
proof -
  have "unat b < 256" using unsigned_less [of b] by simp
  moreover have "length (nat_digits (unat b)) = 1" if "hd (nat_digits (unat b)) = CHR ''0''"
    using nat_digits_zero [OF that] by simp
  ultimately show ?thesis by (auto simp: parse_octet_def digits_val_nat_digits)
qed

definition v4_text :: "byte list \<Rightarrow> string" where
  "v4_text q = Join (map (\<lambda>b. nat_digits (unat b)) q) ''.''"

lemma parseIPv4_text: "length q = 4 \<Longrightarrow> parseIPv4 (v4_text q) = Some q"
proof -
  assume q: "length q = 4"
  then have "Split (v4_text q) ''.'' = map (\<lambda>b. nat_digits (unat b)) q"
    unfolding v4_text_def by (intro Split_Join) (auto dest!: nat_digits_chars simp: digit_val_def)
  moreover obtain a b c d where "q = [a, b, c, d]" using q by (auto simp: numeral_eq_Suc length_Suc_conv)
  ultimately show ?thesis by (simp add: parseIPv4_def parse_octet_digits)
qed

lemma find_skip: "(\<forall>c \<in> set x. \<not> P c) \<Longrightarrow> find P (x @ y) = find P y"
  by (induction x) auto

lemma ParseIP_v4: "length q = 4 \<Longrightarrow> ParseIP (v4_text q) = Some (v4_prefix @ q)"
proof -
  assume q: "length q = 4"
  then obtain a r where r: "q = a # r" "r \<noteq> []" by (auto simp: numeral_eq_Suc length_Suc_conv)
  then have t: "v4_text q = nat_digits (unat a) @ ''.'' @ v4_text r" by (simp add: v4_text_def Join_Cons)
  have "find (\<lambda>c. c \<in> {CHR ''.'', CHR '':'', CHR ''%''}) (v4_text q) = Some (CHR ''.'')"
    unfolding t by (subst find_skip) (auto dest!: nat_digits_chars simp: digit_val_def)
  then show ?thesis by (simp add: ParseIP_def parseIPv4_text [OF q])
qed

section \<open>Groups\<close>

lemma hex_char_digit: "d < 16 \<Longrightarrow> hex_digit (hex_char d) = Some d"
proof -
  have "list_all (\<lambda>d. hex_digit (hex_char d) = Some d) [0..<16]" by code_simp
  then show "d < 16 \<Longrightarrow> hex_digit (hex_char d) = Some d" unfolding list_all_iff by simp
qed

lemma hex_text_not_Nil [simp]: "hex_text n \<noteq> []"
  by (subst hex_text.simps) simp

lemma hex_text_chars: "c \<in> set (hex_text n) \<Longrightarrow> is_hex c"
proof (induction n rule: hex_text.induct)
  case (1 n)
  show ?case
  proof (cases "n < 16")
    case True
    with 1(2) show ?thesis by (simp add: hex_text.simps [of n] hex_char_digit is_hex_def)
  next
    case False
    then have "c \<in> set (hex_text (n div 16)) \<or> c = hex_char (n mod 16)"
      using 1(2) by (auto simp: hex_text.simps [of n])
    with 1(1) [OF False] show ?thesis by (auto simp: hex_char_digit is_hex_def)
  qed
qed

lemma hex_val_append: "hex_val a (xs @ ys) = hex_val (hex_val a xs) ys"
  by (induction xs arbitrary: a) auto

lemma hex_val_text: "hex_val 0 (hex_text n) = n"
  by (induction n rule: hex_text.induct)
     (subst hex_text.simps, simp add: hex_val_append hex_char_digit)

lemma length_hex_text: "n < 16 ^ k \<Longrightarrow> 0 < k \<Longrightarrow> length (hex_text n) \<le> k"
proof (induction k arbitrary: n)
  case (Suc k)
  show ?case
  proof (cases "n < 16")
    case False
    then have k: "0 < k" using Suc.prems(1) by (cases k) auto
    have "n div 16 < 16 ^ k" using Suc.prems(1) by (simp add: less_mult_imp_div_less)
    with Suc.IH k False show ?thesis by (simp add: hex_text.simps [of n])
  qed (simp add: hex_text.simps [of n])
qed simp

lemma take_hex:
  assumes "rest = [] \<or> \<not> is_hex (hd rest)"
  shows "takeWhile is_hex (hex_text n @ rest) = hex_text n"
    "dropWhile is_hex (hex_text n @ rest) = rest"
proof -
  have "takeWhile is_hex rest = []" "dropWhile is_hex rest = rest"
    using assms by (cases rest; auto)+
  then show "takeWhile is_hex (hex_text n @ rest) = hex_text n"
    "dropWhile is_hex (hex_text n @ rest) = rest"
    using hex_text_chars by (simp_all add: takeWhile_append2 dropWhile_append2)
qed

lemma Join_map_Cons: "gs \<noteq> [] \<Longrightarrow> Join (f g # map f gs) sep = f g @ sep @ Join (map f gs) sep"
  by (cases gs) simp_all

lemma hd_Join: "gs \<noteq> [] \<Longrightarrow> is_hex (hd (Join (map hex_text gs) '':'' @ t)) \<and> Join (map hex_text gs) '':'' \<noteq> []"
proof (induction gs)
  case (Cons g gs)
  have "is_hex (hd (hex_text g @ u))" for u using hex_text_chars [of "hd (hex_text g)" g] by simp
  then show ?case by (cases gs) simp_all
qed simp

text \<open>One group of the loop, and the groups that are joined by colons.\<close>

lemma groups6_group:
  assumes "g < 65536"
  shows "groups6 (Suc k) bs el (hex_text g) = Some (bs @ group_bytes g, el, [])"
    and "t \<noteq> [] \<Longrightarrow> hd t \<noteq> CHR '':'' \<Longrightarrow>
      groups6 (Suc k) bs el (hex_text g @ CHR '':'' # t) = groups6 k (bs @ group_bytes g) el t"
    and "groups6 (Suc k) bs None (hex_text g @ ''::'' @ t) =
      (if t = [] then Some (bs @ group_bytes g, Some (length bs + 2), [])
       else groups6 k (bs @ group_bytes g) (Some (length bs + 2)) t)"
proof -
  have len: "length (hex_text g) \<le> 4" using assms by (intro length_hex_text) simp_all
  have h: "\<not> is_hex (CHR '':'')" by (simp add: hex_digit_def is_hex_def)
  have gb: "length (group_bytes g) = 2" by (simp add: group_bytes_def)
  show "groups6 (Suc k) bs el (hex_text g) = Some (bs @ group_bytes g, el, [])"
    using len by (simp add: take_hex [of "[]" g, unfolded append_Nil2, OF disjI1 [OF refl]] hex_val_text Let_def)
  show "groups6 (Suc k) bs el (hex_text g @ CHR '':'' # t) = groups6 k (bs @ group_bytes g) el t"
    if "t \<noteq> []" "hd t \<noteq> CHR '':''"
    using take_hex [of "CHR '':'' # t" g] len h that by (simp add: hex_val_text Let_def)
  show "groups6 (Suc k) bs None (hex_text g @ ''::'' @ t) =
      (if t = [] then Some (bs @ group_bytes g, Some (length bs + 2), [])
       else groups6 k (bs @ group_bytes g) (Some (length bs + 2)) t)"
    using take_hex [of "CHR '':'' # CHR '':'' # t" g] len h gb by (simp add: hex_val_text Let_def)
qed

lemma length_group_bytes [simp]: "length (group_bytes g) = 2"
  by (simp add: group_bytes_def)

lemma length_concat_bytes [simp]: "length (concat (map group_bytes gs)) = 2 * length gs"
  by (induction gs) simp_all

lemma groups6_last:
  assumes "gs \<noteq> []" and "length gs \<le> k" and "\<forall>g \<in> set gs. g < 65536"
  shows "groups6 k bs el (Join (map hex_text gs) '':'') = Some (bs @ concat (map group_bytes gs), el, [])"
  using assms
proof (induction gs arbitrary: k bs rule: list_nonempty_induct)
  case (single g)
  then show ?case using groups6_group(1) [of g "k - 1"] by (cases k) simp_all
next
  case (cons g gs)
  then obtain k' where k: "k = Suc k'" "length gs \<le> k'" by (cases k) auto
  have "is_hex (hd (Join (map hex_text gs) '':''))" "Join (map hex_text gs) '':'' \<noteq> []"
    using hd_Join [OF cons.hyps(1), of "[]"] by simp_all
  then have "hd (Join (map hex_text gs) '':'') \<noteq> CHR '':''" by (auto simp: hex_digit_def is_hex_def)
  with groups6_group(2) [of g] cons \<open>Join (map hex_text gs) '':'' \<noteq> []\<close> k show ?case
    by (simp add: Join_map_Cons del: groups6.simps)
qed

lemma groups6_first:
  assumes "gs \<noteq> []" and "length gs \<le> k" and "\<forall>g \<in> set gs. g < 65536"
  shows "groups6 k bs None (Join (map hex_text gs) '':'' @ ''::'' @ t) =
    (let bs' = bs @ concat (map group_bytes gs) in
     if t = [] then Some (bs', Some (length bs'), []) else groups6 (k - length gs) bs' (Some (length bs')) t)"
  using assms
proof (induction gs arbitrary: k bs rule: list_nonempty_induct)
  case (single g)
  then show ?case using groups6_group(3) [of g "k - 1" bs t] by (cases k) (simp_all add: group_bytes_def del: groups6.simps)
next
  case (cons g gs)
  then obtain k' where k: "k = Suc k'" "length gs \<le> k'" by (cases k) auto
  let ?r = "Join (map hex_text gs) '':'' @ ''::'' @ t"
  have "is_hex (hd ?r)" using hd_Join [OF cons.hyps(1), of "''::'' @ t"] by blast
  moreover have "?r \<noteq> []" by simp
  ultimately have "hd ?r \<noteq> CHR '':''" by (auto simp: hex_digit_def is_hex_def)
  then have "groups6 k bs None (hex_text g @ '':'' @ ?r) = groups6 k' (bs @ group_bytes g) None ?r"
    using groups6_group(2) [of g ?r k' bs None] cons.prems(2) \<open>?r \<noteq> []\<close> k by (simp del: groups6.simps)
  with cons k show ?case by (simp add: Join_map_Cons Let_def del: groups6.simps)
qed

section \<open>The run of zeros\<close>

definition run_ok :: "nat list \<Rightarrow> (nat \<times> nat) option \<Rightarrow> bool" where
  "run_ok gs r = (case r of None \<Rightarrow> True | Some (a, b) \<Rightarrow> a + 2 \<le> b \<and> b \<le> length gs \<and>
     gs = take a gs @ replicate (b - a) 0 @ drop b gs)"

lemma run_end_ok:
  assumes "i < length gs" and "2 \<le> run_end gs i - i"
  shows "run_ok gs (Some (i, run_end gs i))"
proof -
  let ?z = "takeWhile (\<lambda>g. g = 0) (drop i gs)"
  have "?z = replicate (length ?z) 0" by (rule replicate_eqI) (auto dest: set_takeWhileD)
  moreover have "drop i gs = ?z @ drop (length ?z) (drop i gs)"
    by (metis takeWhile_dropWhile_id dropWhile_eq_drop)
  ultimately have "drop i gs = replicate (length ?z) 0 @ drop (run_end gs i) gs"
    by (simp add: run_end_def add.commute)
  then have "gs = take i gs @ replicate (length ?z) 0 @ drop (run_end gs i) gs"
    by (metis append_take_drop_id)
  moreover have "length ?z \<le> length gs - i" using length_takeWhile_le [of "\<lambda>g. g = 0" "drop i gs"] by simp
  ultimately show ?thesis using assms by (simp add: run_ok_def run_end_def)
qed

lemma zero_run_ok: "run_ok gs (zero_run gs)"
proof -
  have "run_ok gs (fold (\<lambda>i best. let j = run_end gs i in
         if 2 \<le> j - i \<and> (case best of None \<Rightarrow> True | Some (a, b) \<Rightarrow> b - a < j - i) then Some (i, j) else best)
       ks r)" if "\<forall>i \<in> set ks. i < length gs" "run_ok gs r" for ks r
    using that
  proof (induction ks arbitrary: r)
    case (Cons i ks)
    then show ?case using run_end_ok [of i gs] by (auto simp: Let_def)
  qed simp
  from this [of "[0..<length gs]" None] show ?thesis by (simp add: zero_run_def run_ok_def)
qed

section \<open>What is written is read back\<close>

lemma zero_bytes: "concat (replicate n (group_bytes 0)) = replicate (2 * n) 0"
  by (induction n) (simp_all add: group_bytes_def)

lemma not_led: "s \<noteq> [] \<Longrightarrow> is_hex (hd s) \<Longrightarrow> \<not> HasPrefix s ''::''"
  by (cases s) (auto simp: HasPrefix_def hex_digit_def is_hex_def)

text \<open>A text with all its groups, one whose run of zeros leads, and one with groups before the run.\<close>

lemma parseIPv6_full:
  assumes "length gs = 8" and "\<forall>g \<in> set gs. g < 65536"
  shows "parseIPv6 (Join (map hex_text gs) '':'') = Some (concat (map group_bytes gs))"
proof -
  have ne: "gs \<noteq> []" using assms(1) by auto
  have "\<not> HasPrefix (Join (map hex_text gs) '':'') ''::''"
    using hd_Join [OF ne, of "[]"] by (intro not_led) simp_all
  with groups6_last [OF ne, of 8 "[]" None] assms show ?thesis by (simp add: parseIPv6_def)
qed

lemma parseIPv6_led:
  assumes "length post \<le> 6" and "\<forall>g \<in> set post. g < 65536"
  shows "parseIPv6 (''::'' @ Join (map hex_text post) '':'') =
    Some (replicate (16 - 2 * length post) 0 @ concat (map group_bytes post))"
proof (cases "post = []")
  case True
  then show ?thesis by (simp add: parseIPv6_def HasPrefix_def)
next
  case False
  then have "Join (map hex_text post) '':'' \<noteq> []" using hd_Join [OF False, of "[]"] by simp
  with groups6_last [OF False _ assms(2), of 8 "[]" "Some 0"] assms(1) show ?thesis
    by (simp add: parseIPv6_def HasPrefix_def del: groups6.simps)
qed

lemma parseIPv6_mid:
  assumes pre: "pre \<noteq> []" and n: "length pre + length post \<le> 6"
    and sm: "\<forall>g \<in> set pre. g < 65536" "\<forall>g \<in> set post. g < 65536"
  shows "parseIPv6 (Join (map hex_text pre) '':'' @ ''::'' @ Join (map hex_text post) '':'') =
    Some (concat (map group_bytes pre) @ replicate (16 - 2 * (length pre + length post)) 0 @
      concat (map group_bytes post))"
proof -
  let ?l = "Join (map hex_text post) '':''" and ?a = "length pre"
  let ?s = "Join (map hex_text pre) '':'' @ ''::'' @ ?l"
  let ?bs = "concat (map group_bytes pre)" and ?cs = "concat (map group_bytes post)"
  have nolead: "\<not> HasPrefix ?s ''::''" by (rule not_led) (use hd_Join [OF pre, of "''::'' @ ?l"] in \<open>simp, blast\<close>)
  note first = groups6_first [OF pre _ sm(1), of 8 "[]" ?l]
  have "groups6 8 [] None ?s = Some (?bs @ ?cs, Some (2 * ?a), [])"
  proof (cases "post = []")
    case True
    then show ?thesis using first n by (simp del: groups6.simps)
  next
    case False
    have "?l \<noteq> []" using hd_Join [OF False, of "[]"] by simp
    moreover have "groups6 (8 - ?a) ?bs (Some (2 * ?a)) ?l = Some (?bs @ ?cs, Some (2 * ?a), [])"
      by (rule groups6_last [OF False _ sm(2)]) (use n in simp)
    ultimately show ?thesis using first n by (simp del: groups6.simps)
  qed
  moreover have "length (?bs @ ?cs) < 16" "take (2 * ?a) (?bs @ ?cs) = ?bs" "drop (2 * ?a) (?bs @ ?cs) = ?cs"
    "16 - length (?bs @ ?cs) = 16 - 2 * (?a + length post)"
    using n by simp_all
  ultimately show ?thesis using nolead unfolding parseIPv6_def Let_def by (simp del: length_append)
qed

lemma parseIPv6_text:
  assumes n: "length gs = 8" and small: "\<forall>g \<in> set gs. g < 65536"
  shows "parseIPv6 (v6_text gs) = Some (concat (map group_bytes gs))"
proof (cases "zero_run gs")
  case None
  then show ?thesis using parseIPv6_full [OF assms] by (simp add: v6_text_def)
next
  case (Some r)
  obtain a b where r: "r = (a, b)" by force
  let ?pre = "take a gs" and ?post = "drop b gs"
  have ok: "a + 2 \<le> b" "b \<le> 8" "gs = ?pre @ replicate (b - a) 0 @ ?post"
    using zero_run_ok [of gs] Some r n by (simp_all add: run_ok_def)
  have bytes: "concat (map group_bytes gs) =
      concat (map group_bytes ?pre) @ replicate (2 * (b - a)) 0 @ concat (map group_bytes ?post)"
    by (subst ok(3)) (simp add: zero_bytes)
  have shape: "v6_text gs = Join (map hex_text ?pre) '':'' @ ''::'' @ Join (map hex_text ?post) '':''"
    using Some r by (simp add: v6_text_def)
  have sm: "\<forall>g \<in> set ?pre. g < 65536" "\<forall>g \<in> set ?post. g < 65536"
    using small by (auto dest: in_set_takeD in_set_dropD)
  have lens: "length ?pre = a" "length ?post = 8 - b" and zs: "16 - 2 * (a + (8 - b)) = 2 * (b - a)"
    using ok n by simp_all
  show ?thesis
  proof (cases "a = 0")
    case True
    then show ?thesis using parseIPv6_led [OF _ sm(2)] ok lens zs by (simp add: shape bytes)
  next
    case False
    then have "?pre \<noteq> []" using n by auto
    from parseIPv6_mid [OF this _ sm] show ?thesis unfolding shape bytes lens zs using ok by simp
  qed
qed

lemma groups_bytes: "even (length bs) \<Longrightarrow> concat (map group_bytes (groups bs)) = bs"
proof (induction bs rule: groups.induct)
  case (1 a b bs)
  have "unat a < 256" "unat b < 256" using unsigned_less [of a] unsigned_less [of b] by simp_all
  with 1 show ?case by (simp add: group_bytes_def)
qed simp_all

lemma groups_length: "length (groups bs) = length bs div 2"
  by (induction bs rule: groups.induct) simp_all

lemma groups_small: "g \<in> set (groups bs) \<Longrightarrow> g < 65536"
proof (induction bs rule: groups.induct)
  case (1 a b bs)
  have "unat a < 256" "unat b < 256" using unsigned_less [of a] unsigned_less [of b] by simp_all
  with 1 show ?case by auto
qed simp_all

lemma find_colon:
  "(\<forall>c \<in> set s. is_hex c \<or> c = CHR '':'') \<Longrightarrow> CHR '':'' \<in> set s \<Longrightarrow>
    find (\<lambda>c. c \<in> {CHR ''.'', CHR '':'', CHR ''%''}) s = Some (CHR '':'')"
  by (induction s) (auto simp: is_hex_def hex_digit_def)

lemma Join_chars: "c \<in> set (Join (map hex_text gs) '':'') \<Longrightarrow> is_hex c \<or> c = CHR '':''"
proof (induction gs)
  case (Cons g gs)
  then show ?case by (cases gs) (auto dest: hex_text_chars)
qed simp

lemma v6_text_chars:
  assumes "length gs = 8"
  shows "\<forall>c \<in> set (v6_text gs). is_hex c \<or> c = CHR '':''" "CHR '':'' \<in> set (v6_text gs)"
proof -
  show "\<forall>c \<in> set (v6_text gs). is_hex c \<or> c = CHR '':''"
    by (auto simp: v6_text_def dest: Join_chars split: option.splits)
  obtain g h hs where "gs = g # h # hs" using assms by (auto simp: numeral_eq_Suc length_Suc_conv)
  then show "CHR '':'' \<in> set (v6_text gs)" by (auto simp: v6_text_def split: option.splits)
qed

text \<open>Every address survives being written and read.\<close>

lemma ParseIP_String:
  assumes "ip_ok x"
  shows "ParseIP (ip_String x) = x"
proof (cases x)
  case None
  then show ?thesis by (simp add: ip_String_def) code_simp
next
  case (Some bs)
  then have n: "length bs = 16" using assms by (simp add: ip_ok_def)
  show ?thesis
  proof (cases "take 12 bs = v4_prefix")
    case True
    then have "ip_String x = v4_text (drop 12 bs)" using Some by (simp add: ip_String_def v4_text_def)
    moreover have "v4_prefix @ drop 12 bs = bs" using True by (metis append_take_drop_id)
    ultimately show ?thesis using ParseIP_v4 [of "drop 12 bs"] n Some by simp
  next
    case False
    then have t: "ip_String x = v6_text (groups bs)" using Some by (simp add: ip_String_def)
    have g: "length (groups bs) = 8" using n by (simp add: groups_length)
    note c = v6_text_chars [OF g]
    have "CHR ''%'' \<notin> set (v6_text (groups bs))" using c(1) by (auto simp: is_hex_def hex_digit_def)
    with find_colon [OF c] parseIPv6_text [OF g] groups_small groups_bytes n
    have "ParseIP (v6_text (groups bs)) = Some bs" by (simp add: ParseIP_def)
    then show ?thesis unfolding t by (simp add: Some)
  qed
qed

interpretation ipc: exact_codec ip_String ParseIP ip_ok "\<lambda>x. x"
  by unfold_locales (simp_all add: ParseIP_String)

text \<open>What is read is an address, and every text of an address is ASCII.\<close>

lemma parseIPv4_length: "parseIPv4 s = Some q \<Longrightarrow> length q = 4"
  by (auto simp: parseIPv4_def split: list.splits option.splits)

lemma groups6_length:
  "groups6 k bs el s = Some (bs', el', r) \<Longrightarrow> length bs + 2 * k = 16 \<Longrightarrow> (\<forall>j. el = Some j \<longrightarrow> j \<le> length bs) \<Longrightarrow>
    length bs' \<le> 16 \<and> (\<forall>j. el' = Some j \<longrightarrow> j \<le> length bs')"
proof (induction k arbitrary: bs el s)
  case (Suc k)
  have found: "length bs' \<le> 16 \<and> (\<forall>j. el' = Some j \<longrightarrow> j \<le> length bs')"
    if "groups6 k (bs @ group_bytes g) (Some (Suc (Suc (length bs)))) t = Some (bs', el', r)" for g t
    using Suc.IH [OF that] Suc.prems(2) by simp
  have later: "length bs' \<le> 16 \<and> (\<forall>j. el' = Some j \<longrightarrow> j \<le> length bs')"
    if "groups6 k (bs @ group_bytes g) el t = Some (bs', el', r)" for g t
    using Suc.IH [OF that] Suc.prems(2,3) by fastforce
  from Suc.prems show ?case
    by (auto simp: Let_def split: if_splits list.splits dest!: found later parseIPv4_length)
qed auto

lemma ParseIP_ok: "ip_ok (ParseIP s)"
proof -
  have "length bs = 16" if "parseIPv6 s = Some bs" for bs
  proof (cases "HasPrefix s ''::'' \<and> drop 2 s = []")
    case False
    define el where "el = (if HasPrefix s ''::'' then Some 0 else None :: nat option)"
    define t where "t = (if HasPrefix s ''::'' then drop 2 s else s)"
    have "parseIPv6 s = (case groups6 8 [] el t of
           None \<Rightarrow> None
         | Some (bs, el, rest) \<Rightarrow>
             if rest \<noteq> [] then None
             else (case el of
                 None \<Rightarrow> if length bs < 16 then None else Some bs
               | Some j \<Rightarrow>
                   if length bs < 16 then Some (take j bs @ replicate (16 - length bs) 0 @ drop j bs) else None))"
      using False by (auto simp: parseIPv6_def Let_def el_def t_def)
    with that obtain cs el' where r: "groups6 8 [] el t = Some (cs, el', [])"
      and bs: "bs = (case el' of None \<Rightarrow> cs | Some j \<Rightarrow> take j cs @ replicate (16 - length cs) 0 @ drop j cs)"
        "el' = None \<Longrightarrow> \<not> length cs < 16"
      by (auto split: option.splits if_splits)
    have "length cs \<le> 16 \<and> (\<forall>j. el' = Some j \<longrightarrow> j \<le> length cs)"
      by (rule groups6_length [OF r]) (simp_all add: el_def)
    with bs show ?thesis by (cases el') auto
  qed (use that in \<open>auto simp: parseIPv6_def\<close>)
  then show ?thesis
    by (auto simp: ip_ok_def ParseIP_def v4_prefix_def split: option.splits dest!: parseIPv4_length)
qed

lemma ip_String_ascii: "utf8_valid (ip_String x)"
proof (rule ascii_valid, rule ballI)
  fix c assume c: "c \<in> set (ip_String x)"
  have hex: "is_hex c \<Longrightarrow> (of_char c :: nat) < 128" for c by (auto simp: is_hex_def hex_digit_def Let_def split: if_splits)
  have dig: "digit_val c \<noteq> None \<Longrightarrow> (of_char c :: nat) < 128" for c by (auto simp: digit_val_def Let_def split: if_splits)
  have v4: "c \<in> set (Join (map (\<lambda>b. nat_digits (unat b)) q) ''.'') \<Longrightarrow> digit_val c \<noteq> None \<or> c = CHR ''.''" for q :: "byte list" and c
  proof (induction q)
    case (Cons b q)
    then show ?case by (cases q) (auto dest: nat_digits_chars)
  qed simp
  have v6: "c \<in> set (v6_text gs) \<Longrightarrow> is_hex c \<or> c = CHR '':''" for gs c
    by (auto simp: v6_text_def dest: Join_chars split: option.splits)
  from c show "(of_char c :: nat) < 128"
    by (auto simp: ip_String_def split: option.splits if_splits dest!: v4 v6 intro: hex dig)
qed

end
