(* ===== verification/Gossip.thy ===== *)
theory Gossip
  imports Container Xlog NetIP
begin

text \<open>
  \<open>gossip_comms.go\<close>: the gossip configuration file, the port range, the adapter of serf's log, the tags
  a lookout publishes and the table it builds from the tags of its peers. The uuid compressor is a
  third-party package and a parameter, as is the formatting of a time.
\<close>

section \<open>State\<close>

type_synonym u16 = "16 word"

record MonitoredApp =
  ma_Status :: string
  ma_Type :: string

text \<open>A nil list of addresses is \<open>None\<close>.\<close>

record LookoutInfo =
  li_IPAddrs :: "string list option"
  li_HTTPPort :: string
  li_PortRange :: string
  li_Apps :: "(uuid, MonitoredApp) gomap"
  li_LastSeen :: string

text \<open>The table of lookouts is a nil map (\<open>None\<close>) until \<open>GetTags\<close> makes it.\<close>

record CommHandler =
  cm_Addr :: ip
  cm_addrList :: "ip list"
  cm_PortRange :: "u16 list"
  cm_ServicePortRangeS :: u16
  cm_ServicePortRangeE :: u16
  cm_HttpPort :: int
  cm_LookoutUUID :: string
  cm_Lookouts :: "(string, LookoutInfo) gomap option"

record genv =
  g_CompressUUID :: "string \<Rightarrow> string"
  g_DecompressUUID :: "string \<Rightarrow> goerr + string"
  g_time :: "int \<Rightarrow> string"
  g_open :: "string \<Rightarrow> goerr + string"

section \<open>The configuration file\<close>

text \<open>
  \<open>g_open\<close> stands for \<open>os.OpenFile\<close>: an error, or the bytes that can be read from the file, which are none
  when reading fails (the scanner's error is not looked at).
\<close>

definition removeDuplicateStr :: "string list \<Rightarrow> string list" where
  "removeDuplicateStr strSlice =
     snd (fold (\<lambda>item (allKeys, xs).
         if map_of allKeys item = None then (mput item True allKeys, xs @ [item]) else (allKeys, xs))
       strSlice ([], []))"

definition makeRange :: "CommHandler \<Rightarrow> CommHandler" where
  "makeRange h =
     (let n = cm_ServicePortRangeE h - cm_ServicePortRangeS h + 1
      in h\<lparr>cm_PortRange := map (\<lambda>i. cm_ServicePortRangeS h + of_nat i) [0..<unat n]\<rparr>)"

text \<open>
  \<open>bufio.Scanner\<close> over the bytes that are left: one \<open>Scan\<close>, with what \<open>Text\<close> returns after it. A line of 64 KiB or
  more does not fit the buffer: the scan fails and has no text, and the next one returns the full buffer. At the end
  of the file the text is empty.
\<close>

definition drop_cr :: "string \<Rightarrow> string" where
  "drop_cr l = (if l \<noteq> [] \<and> last l = CHR 0x0D then butlast l else l)"

definition Scan :: "string \<times> bool \<Rightarrow> string \<times> (string \<times> bool)" where
  "Scan st =
     (let (buf, failed) = st in
      if failed then (drop_cr (take 65536 buf), ([], True))
      else let line = takeWhile (\<lambda>c. c \<noteq> CHR 0x0A) buf in
           if 65536 \<le> length line then ([], (buf, True))
           else (drop_cr line, (drop (Suc (length line)) buf, False)))"

fun scan_from :: "string \<times> bool \<Rightarrow> nat \<Rightarrow> string" where
  "scan_from st 0 = fst (Scan st)"
| "scan_from st (Suc k) = scan_from (snd (Scan st)) k"

text \<open>What \<open>Text\<close> returns after the \<open>k\<close>-th \<open>Scan\<close> of a file, from \<open>0\<close>.\<close>

definition scan_text :: "string \<Rightarrow> nat \<Rightarrow> string" where
  "scan_text content k = scan_from (content, False) k"

lemma takeWhile_line: "x \<notin> set l \<Longrightarrow> takeWhile (\<lambda>c. c \<noteq> x) (l @ x # rest) = l"
  by (induction l) auto

lemma Scan_line:
  "CHR 0x0A \<notin> set l \<Longrightarrow> length l < 65536 \<Longrightarrow> Scan (l @ CHR 0x0A # rest, False) = (drop_cr l, (rest, False))"
  using takeWhile_line [of "CHR 0x0A" l rest] by (simp del: takeWhile_append1 takeWhile_append2 add: Scan_def Let_def)

lemma Scan_long:
  "CHR 0x0A \<notin> set l \<Longrightarrow> 65536 \<le> length l \<Longrightarrow>
   Scan (l @ CHR 0x0A # rest, False) = ([], (l @ CHR 0x0A # rest, True))"
  using takeWhile_line [of "CHR 0x0A" l rest] by (simp del: takeWhile_append1 takeWhile_append2 add: Scan_def Let_def)

text \<open>The second line of a file, and what is read in its place when the first line is too long.\<close>

lemma scan_second_line:
  "CHR 0x0A \<notin> set l1 \<Longrightarrow> CHR 0x0A \<notin> set l2 \<Longrightarrow> length l1 < 65536 \<Longrightarrow> length l2 < 65536 \<Longrightarrow>
   scan_text (l1 @ CHR 0x0A # l2 @ CHR 0x0A # rest) 1 = drop_cr l2"
  by (simp add: scan_text_def Scan_line)

lemma scan_after_long_line:
  "CHR 0x0A \<notin> set l1 \<Longrightarrow> 65536 \<le> length l1 \<Longrightarrow> scan_text (l1 @ CHR 0x0A # rest) 1 = drop_cr (take 65536 l1)"
  by (simp add: scan_text_def Scan_long) (simp add: Scan_def)

definition LoadConfigInfo ::
  "env \<Rightarrow> genv \<Rightarrow> string \<Rightarrow> CommHandler \<Rightarrow> (goerr option \<times> CommHandler) res" where
  "LoadConfigInfo e g path h =
     (if e_stat e path = Inl ENOENT then Inr (Some ENOENT, h)
      else case g_open g path of
        Inl err \<Rightarrow> Inr (Some err, h)
      | Inr content \<Rightarrow>
          let IPAddrs = removeDuplicateStr (Split (scan_text content 0) '' '');
              h = h\<lparr>cm_addrList := cm_addrList h @ map ParseIP IPAddrs\<rparr>;
              h = h\<lparr>cm_Addr := ParseIP (hd IPAddrs)\<rparr>;
              Ports = Split (scan_text content 1) '' '';
              h = h\<lparr>cm_ServicePortRangeS := word_of_int (fst (Atoi (Ports ! 0)))\<rparr>
          in if length Ports < 2 then Inl index_panic
             else
               let h = h\<lparr>cm_ServicePortRangeE := word_of_int (fst (Atoi (Ports ! 1)))\<rparr>
               in Inr (None, makeRange h))"

section \<open>The tags of a lookout\<close>

definition marshal_app :: "MonitoredApp \<Rightarrow> string" where
  "marshal_app a = compact (JObj [(''Status'', JStr (ma_Status a)), (''Type'', JStr (ma_Type a))])"

definition MonitoredApp_fields :: "sfield list" where
  "MonitoredApp_fields = [Fld ''Status'' KString ''Status'' [] [], Fld ''Type'' KString ''Type'' [] []]"

definition Unmarshal_app :: "env \<Rightarrow> string \<Rightarrow> goerr + MonitoredApp" where
  "Unmarshal_app e s =
     or_err (Option.bind (json_parse s) (\<lambda>v.
       Option.bind (dec_struct (dec_leaf e) MonitoredApp_fields v (zero_struct MonitoredApp_fields)) (\<lambda>vs.
         case vs of [GString st, GString ty] \<Rightarrow> Some \<lparr>ma_Status = st, ma_Type = ty\<rparr> | _ \<Rightarrow> None)))"

definition marshal_strs :: "string list \<Rightarrow> string" where
  "marshal_strs xs = compact (JArr (map JStr xs))"

definition gossip_ep :: "env \<Rightarrow> genv \<Rightarrow> world \<Rightarrow> uuid \<Rightarrow> (string, string) gomap \<Rightarrow> (string, string) gomap res" where
  "gossip_ep e g w u gossipData =
     (case map_of (w_epMap w) u of
        None \<Rightarrow> Inr gossipData
      | Some r \<Rightarrow>
          (case ep_App (w_eps w r) of
             None \<Rightarrow> Inl nil_deref
           | Some a \<Rightarrow>
               if IsMonitoringEnabled a then
                 let epUUID = e_uuid_String e (ep_Uuid (w_eps w r));
                     cuuid = g_CompressUUID g epUUID;
                     cstatus = (if ep_State (w_eps w r) = EPstateRunning then ''1'' else ''0'');
                     gsd = \<lparr>ma_Status = cstatus, ma_Type = GetAppName a\<rparr>
                 in Inr (mput cuuid (marshal_app gsd) gossipData)
               else Inr gossipData))"

definition lo_tags :: "env \<Rightarrow> CommHandler \<Rightarrow> (string \<times> string) list" where
  "lo_tags e h =
     [(''LO-UUID'', cm_LookoutUUID h), (''LO-Type'', ''LOOKOUT''), (''LO-Hport'', Itoa (cm_HttpPort h)),
      (''LO-IPAddr'', marshal_strs (map ip_String (cm_addrList h))),
      (''LO-PortRange'', json_string (Itoa (uint (cm_ServicePortRangeS h)) @ '' '' @ Itoa (uint (cm_ServicePortRangeE h)))),
      (''LO-Time'', Itoa (e_now e div second))]"

definition GetCompressedGossipData ::
  "env \<Rightarrow> genv \<Rightarrow> CommHandler \<Rightarrow> uuid list \<Rightarrow> world \<Rightarrow> (string, string) gomap res" where
  "GetCompressedGossipData e g h ord w =
     bindr (for_each (gossip_ep e g w) ord []) (\<lambda>gossipData.
       Inr (fold (\<lambda>(k, v). mput k v) (lo_tags e h) gossipData))"

section \<open>The tags of the peers\<close>

definition tag :: "(string, string) gomap \<Rightarrow> string \<Rightarrow> string" where
  "tag addr k = (case map_of addr k of None \<Rightarrow> [] | Some v \<Rightarrow> v)"

text \<open>The applications among the tags, visited in the order \<open>ord\<close>.\<close>

definition tag_app :: "env \<Rightarrow> genv \<Rightarrow> (string, string) gomap \<Rightarrow> string \<Rightarrow> (uuid, MonitoredApp) gomap \<Rightarrow>
    (uuid, MonitoredApp) gomap" where
  "tag_app e g addr key apps =
     (if HasPrefix key ''LO-'' then apps
      else case g_DecompressUUID g key of
        Inl _ \<Rightarrow> apps
      | Inr uuidStr \<Rightarrow>
          (case e_uuid_Parse e uuidStr of
             Inl _ \<Rightarrow> apps
           | Inr parsedUUID \<Rightarrow>
               (case Unmarshal_app e (tag addr key) of
                  Inl _ \<Rightarrow> apps
                | Inr gData \<Rightarrow> mput parsedUUID gData apps)))"

definition put_lookout :: "string \<Rightarrow> LookoutInfo \<Rightarrow> CommHandler \<Rightarrow> CommHandler res" where
  "put_lookout k l h =
     (case cm_Lookouts h of
        None \<Rightarrow> Inl (Panic ''assignment to entry in nil map'')
      | Some m \<Rightarrow> Inr (h\<lparr>cm_Lookouts := Some (mput k l m)\<rparr>))"

definition tag_member :: "env \<Rightarrow> genv \<Rightarrow> string list \<times> (string, string) gomap \<Rightarrow> CommHandler \<Rightarrow> CommHandler res" where
  "tag_member e g m h =
     (let (ord, addr) = m;
          (lastSeen, ok) = Atoi (tag addr ''LO-Time'')
      in if \<not> ok then Inr h
         else case Unmarshal_strs (tag addr ''LO-IPAddr'') of
           Inl _ \<Rightarrow> Inr h
         | Inr ipAddrs \<Rightarrow>
             (case Unmarshal_str (tag addr ''LO-PortRange'') of
                Inl _ \<Rightarrow> Inr h
              | Inr portRange \<Rightarrow>
                  let lookout = \<lparr>li_IPAddrs = ipAddrs, li_HTTPPort = tag addr ''LO-Hport'',
                                 li_PortRange = portRange, li_Apps = fold (tag_app e g addr) ord [],
                                 li_LastSeen = g_time g lastSeen\<rparr>
                  in put_lookout (tag addr ''LO-UUID'') lookout h))"

definition GetTags_start :: "CommHandler \<Rightarrow> CommHandler" where
  "GetTags_start h = h\<lparr>cm_Lookouts := Some []\<rparr>"

text \<open>One round of the loop over the members serf knows, each with the order its tags are visited in.\<close>

definition GetTags_round ::
  "env \<Rightarrow> genv \<Rightarrow> (string list \<times> (string, string) gomap) list \<Rightarrow> CommHandler \<Rightarrow> CommHandler res" where
  "GetTags_round e g members h = for_each (tag_member e g) members h"

text \<open>\<open>SerfMembership\<close> on the members' names and status.\<close>

definition SerfMembership :: "(string \<times> string) list \<Rightarrow> (string, bool) gomap" where
  "SerfMembership membership =
     fold (\<lambda>(name, status) m. if status = ''alive'' then mput name True m else m) membership []"

section \<open>Serf's log\<close>

text \<open>The level and the message a line of serf's log becomes, and the count returned.\<close>

definition log_level :: "string \<Rightarrow> int" where
  "log_level lvl =
     (let l = ToUpper lvl in
      if l = ''DEBUG'' then DEBUG else if l = ''INFO'' then INFO
      else if l = ''WARNING'' then WARN else if l = ''ERROR'' then ERROR else INFO)"

definition logrusWriter_Write :: "string \<Rightarrow> int \<times> (int \<times> string) list" where
  "logrusWriter_Write line =
     (let parts = SplitN line '' '' 4 in
      if length parts < 4 then (0, [(WARN, ''Malformed Serf log: %s'' @ line)])
      else
        let msgPart = parts ! 3;
            (lvl, msg) =
              (case (Index msgPart ''['', Index msgPart '']'') of
                 (Some i, Some j) \<Rightarrow>
                   if i < j then (take (j - (i + 1)) (drop (i + 1) msgPart), TrimSpace (drop (j + 1) msgPart))
                   else (''INFO'', msgPart)
               | _ \<Rightarrow> (''INFO'', msgPart))
        in (int (length line), [(log_level lvl, msg)]))"

end
