(* ===== verification/AppMetrics.thy ===== *)
theory AppMetrics
  imports Applications
begin

text \<open>
  What each application contributes to \<open>/metrics\<close>: \<open>LoadSystemInfo\<close>, the label maps and \<open>Parse\<close>. The
  response writer is the string returned; a panic in a handler is a value of the result type.
\<close>

section \<open>Access\<close>

definition deref :: "'a option \<Rightarrow> 'a res" where
  "deref p = (case p of None \<Rightarrow> Inl nil_deref | Some x \<Rightarrow> Inr x)"

definition idx0 :: "'a list \<Rightarrow> 'a res" where
  "idx0 xs = (case xs of [] \<Rightarrow> Inl index_panic | x # _ \<Rightarrow> Inr x)"

abbreviation labels_put :: "string \<Rightarrow> string \<Rightarrow> (string, string) gomap \<Rightarrow> (string, string) gomap" where
  "labels_put \<equiv> mput"

definition prom :: "env \<Rightarrow> sfield list \<Rightarrow> (string, string) gomap \<Rightarrow> gostruct \<Rightarrow> string res" where
  "prom e fs labels s = GenericPromDataParser (e_fmtv e) (e_ord e) fs s labels"

section \<open>System information\<close>

definition node_name :: "CtlIfOut \<Rightarrow> (string, string) gomap \<Rightarrow> (string, string) gomap res" where
  "node_name c labelMap =
     bindr (deref (SysInfo c)) (\<lambda>s.
       Inr (labels_put ''NODE_NAME'' (str_field SystemInfo_fields s ''UtsNodename'') labelMap))"

definition Pmdb_LoadSystemInfo :: "Pmdb \<Rightarrow> (string, string) gomap \<Rightarrow> (string, string) gomap res" where
  "Pmdb_LoadSystemInfo p labelMap = node_name (pm_EPInfo p) labelMap"

definition Nisd_LoadSystemInfo :: "Nisd \<Rightarrow> (string, string) gomap \<Rightarrow> (string, string) gomap res" where
  "Nisd_LoadSystemInfo n labelMap =
     (if SysInfo (ni_EPInfo n) = None then Inr [] else node_name (ni_EPInfo n) labelMap)"

definition Nclient_LoadSystemInfo :: "NclientApp \<Rightarrow> (string, string) gomap \<Rightarrow> (string, string) gomap res" where
  "Nclient_LoadSystemInfo n labelMap = node_name (nc_EPInfo n) labelMap"

definition Unrecognized_LoadSystemInfo ::
  "Unrecognized \<Rightarrow> (string, string) gomap \<Rightarrow> (string, string) gomap res" where [simp]:
  "Unrecognized_LoadSystemInfo u labelMap = Inr labelMap"

fun LoadSystemInfo :: "App \<Rightarrow> (string, string) gomap \<Rightarrow> (string, string) gomap res" where
  "LoadSystemInfo (AUnrecognized u) labelMap = Unrecognized_LoadSystemInfo u labelMap"
| "LoadSystemInfo (APmdb p) labelMap = Pmdb_LoadSystemInfo p labelMap"
| "LoadSystemInfo (ANisd n) labelMap = Nisd_LoadSystemInfo n labelMap"
| "LoadSystemInfo (ANclient n) labelMap = Nclient_LoadSystemInfo n labelMap"

text \<open>The helper \<open>Syst\<close> of \<open>system.go\<close>, which an application without a query of its own uses.\<close>

definition Syst_LoadSystemInfo :: "Syst \<Rightarrow> (string, string) gomap \<Rightarrow> (string, string) gomap res" where
  "Syst_LoadSystemInfo s labelMap = node_name (sy_EPInfo s) labelMap"

definition Syst_SetCtlIfOut :: "CtlIfOut \<Rightarrow> Syst \<Rightarrow> Syst" where
  "Syst_SetCtlIfOut c s = s\<lparr>sy_EPInfo := (sy_EPInfo s)\<lparr>SysInfo := SysInfo c\<rparr>\<rparr>"

definition Syst_SetFromGossip :: "bool \<Rightarrow> Syst \<Rightarrow> Syst" where
  "Syst_SetFromGossip fromGossip s = s\<lparr>sy_fromGossip := fromGossip\<rparr>"

definition Syst_Parse :: "env \<Rightarrow> Syst \<Rightarrow> (string, string) gomap \<Rightarrow> string res" where [simp]:
  "Syst_Parse e s labels = Inr []"

lemma Syst_LoadSystemInfo_set:
  "Syst_LoadSystemInfo (Syst_SetFromGossip b (Syst_SetCtlIfOut c s)) labels = node_name c labels"
  by (simp add: Syst_LoadSystemInfo_def Syst_SetFromGossip_def Syst_SetCtlIfOut_def node_name_def)

section \<open>PMDB\<close>

definition LoadPMDBLabelMap :: "Pmdb \<Rightarrow> (string, string) gomap \<Rightarrow> (string, string) gomap res" where
  "LoadPMDBLabelMap p labelMap =
     bindr (idx0 (pm_RaftRootEntry p)) (\<lambda>r.
       let f = str_field RaftInfo_fields r in
       Inr (labels_put ''CLIENT_REQS'' (f ''ClientRequests'')
            (labels_put ''FOLLOWER_REASON'' (f ''FollowerReason'')
             (labels_put ''VOTED_FOR'' (f ''VotedForUUID'')
              (labels_put ''RAFT_UUID'' (f ''RaftUUID'')
               (labels_put ''STATE'' (f ''State'') labelMap))))))"

definition node_status :: "env \<Rightarrow> Pmdb \<Rightarrow> gostruct \<Rightarrow> string \<Rightarrow> bool \<Rightarrow> string" where
  "node_status e p r name isAlive =
     (let adder = (if isAlive then ''1'' else ''0'');
          status = (if isAlive then ''online'' else ''offline'');
          q = (\<lambda>s. dq @ s @ dq);
          f = str_field RaftInfo_fields r
      in nl @ (if e_uuid_String e (pm_uuid p) = name
               then ''node_status{uuid='' @ q name @ ''state='' @ q (f ''State'') @ ''status='' @ q status @
                    ''raftUUID='' @ q (f ''RaftUUID'') @ ''} '' @ adder
               else ''node_status{uuid='' @ q name @ ''status='' @ q status @
                    ''raftUUID='' @ q (f ''RaftUUID'') @ ''} '' @ adder))"

definition parseMembershipPrometheus :: "env \<Rightarrow> Pmdb \<Rightarrow> string res" where
  "parseMembershipPrometheus e p =
     for_each (\<lambda>name output.
         bindr (idx0 (pm_RaftRootEntry p)) (\<lambda>r.
           Inr (output @ node_status e p r name (map_of (pm_membership p) name = Some True))))
       (e_bord e (pm_membership p)) []"

definition follower_line :: "gostruct \<Rightarrow> string" where
  "follower_line s =
     (let q = (\<lambda>s. dq @ s @ dq); d = (\<lambda>n. Itoa (sint (int_field FollowerStats_fields s n)))
      in nl @ ''follower_stats{uuid='' @ q (str_field FollowerStats_fields s ''PeerUUID'') @
         ''next_idx='' @ q (d ''NextIdx'') @ ''prev_idx_term='' @ q (d ''PrevIdxTerm'') @ ''}'' @
         d ''LastAckMs'')"

definition getFollowerStats :: "Pmdb \<Rightarrow> string res" where
  "getFollowerStats p =
     bindr (idx0 (pm_RaftRootEntry p)) (\<lambda>r.
       Inr (concat (map follower_line (slice_field RaftInfo_fields r ''FollowerStats''))))"

definition Pmdb_Parse :: "env \<Rightarrow> Pmdb \<Rightarrow> (string, string) gomap \<Rightarrow> string res" where
  "Pmdb_Parse e p labelMap =
     (let labelMap = labels_put ''TYPE'' (Pmdb_GetAppName p) (labels_put ''PMDB_UUID'' (e_uuid_String e (Pmdb_GetUUID p)) labelMap)
      in bindr (LoadPMDBLabelMap p labelMap) (\<lambda>labelMap.
         bindr (idx0 (pm_RaftRootEntry p)) (\<lambda>r.
         bindr (prom e RaftInfo_fields labelMap r) (\<lambda>o1.
         bindr (parseMembershipPrometheus e p) (\<lambda>o2.
         bindr (getFollowerStats p) (\<lambda>o3.
         bindr (deref (SysInfo (pm_EPInfo p))) (\<lambda>s.
         bindr (prom e SystemInfo_fields labelMap s) (\<lambda>o4.
         Inr (o1 @ o2 @ o3 @ o4)))))))))"

section \<open>NISD\<close>

definition LoadNISDLabelMap :: "Nisd \<Rightarrow> (string, string) gomap \<Rightarrow> (string, string) gomap res" where
  "LoadNISDLabelMap n labelMap =
     bindr (idx0 (NISDRootEntry (ni_EPInfo n))) (\<lambda>r.
       Inr (labels_put ''ALT_NAME'' (str_field NISDRoot_fields r ''AltName'') labelMap))"

text \<open>A loop over a slice that sets labels from each element and renders it.\<close>

definition parse_loop ::
  "env \<Rightarrow> sfield list \<Rightarrow> (gostruct \<Rightarrow> (string, string) gomap \<Rightarrow> (string, string) gomap) \<Rightarrow>
   gostruct list \<Rightarrow> string \<times> (string, string) gomap \<Rightarrow> (string \<times> (string, string) gomap) res" where
  "parse_loop e fs setl xs st =
     for_each (\<lambda>x (out, labels).
         let labels = setl x labels in
         bindr (prom e fs labels x) (\<lambda>o1. Inr (out @ o1, labels)))
       xs st"

definition chunk_labels :: "gostruct \<Rightarrow> (string, string) gomap \<Rightarrow> (string, string) gomap" where
  "chunk_labels chunk labels =
     labels_put ''CHUNK_NUM'' (Itoa (uint (uint_field NISDChunkInfo_fields chunk ''Number'')))
       (labels_put ''VDEV_UUID'' (str_field NISDChunkInfo_fields chunk ''VdevUUID'') labels)"

definition name_label :: "sfield list \<Rightarrow> string \<Rightarrow> gostruct \<Rightarrow> (string, string) gomap \<Rightarrow> (string, string) gomap" where
  "name_label fs f x labels = labels_put ''NAME'' (str_field fs x f) labels"

definition Nisd_Parse :: "env \<Rightarrow> Nisd \<Rightarrow> (string, string) gomap \<Rightarrow> string res" where
  "Nisd_Parse e n labels =
     (let labels = labels_put ''TYPE'' (Nisd_GetAppName n) (labels_put ''NISD_UUID'' (e_uuid_String e (Nisd_GetUUID n)) labels);
          info = ni_EPInfo n
      in if NISDRootEntry info = [] then Inr []
         else
           bindr (LoadNISDLabelMap n labels) (\<lambda>labels.
           bindr (idx0 (NiorqMgr info)) (\<lambda>q.
           bindr (prom e NiorqMgr_fields labels q) (\<lambda>o1.
           bindr (idx0 (NISDRootEntry info)) (\<lambda>r.
           bindr (prom e NISDRoot_fields labels r) (\<lambda>o2.
           bindr (deref (SysInfo info)) (\<lambda>s.
           bindr (prom e SystemInfo_fields labels s) (\<lambda>o3.
           bindr (parse_loop e NISDChunkInfo_fields chunk_labels (NISDChunk info)
                    (o1 @ o2 @ o3, labels)) (\<lambda>(out, labels).
           let labels = mdel ''CHUNK_NUM'' (mdel ''VDEV_UUID'' labels) in
           bindr (parse_loop e BufferSetNodes_fields (name_label BufferSetNodes_fields ''Name'')
                    (BufSetNodes info) (out, labels)) (\<lambda>st.
           bindr (parse_loop e TaskInfo_fields (name_label TaskInfo_fields ''Type'')
                    (Tasks info) st) (\<lambda>st.
           bindr (parse_loop e MbMerge_fields (name_label MbMerge_fields ''Mode'')
                    (MbMerge info) st) (\<lambda>(out, labels).
           Inr out))))))))))))"

section \<open>NCLIENT\<close>

definition Nclient_Parse :: "env \<Rightarrow> NclientApp \<Rightarrow> (string, string) gomap \<Rightarrow> string res" where
  "Nclient_Parse e n labels =
     (let labels = labels_put ''TYPE'' (Nclient_GetAppName n) (labels_put ''NCLIENT_UUID'' (e_uuid_String e (Nclient_GetUUID n)) labels);
          info = nc_EPInfo n
      in bindr (deref (Nclient info)) (\<lambda>c.
         bindr (if str_field NclientInfo_fields c ''VdevUUID'' \<noteq> [] then
                  bindr (prom e NclientInfo_fields labels c) (\<lambda>o1.
                  bindr (idx0 (NiorqMgr info)) (\<lambda>q.
                  bindr (prom e NiorqMgr_fields labels q) (\<lambda>o2.
                  bindr (deref (SysInfo info)) (\<lambda>s.
                  bindr (prom e SystemInfo_fields labels s) (\<lambda>o3.
                  Inr (o1 @ o2 @ o3))))))
                else Inr []) (\<lambda>out.
         bindr (parse_loop e TaskInfo_fields (name_label TaskInfo_fields ''Type'') (Tasks info)
                  (out, labels)) (\<lambda>(out, labels).
         Inr out))))"

definition Unrecognized_Parse :: "env \<Rightarrow> Unrecognized \<Rightarrow> (string, string) gomap \<Rightarrow> string res" where [simp]:
  "Unrecognized_Parse e u labels = Inr []"

fun Parse :: "env \<Rightarrow> App \<Rightarrow> (string, string) gomap \<Rightarrow> string res" where
  "Parse e (AUnrecognized u) labels = Unrecognized_Parse e u labels"
| "Parse e (APmdb p) labels = Pmdb_Parse e p labels"
| "Parse e (ANisd n) labels = Nisd_Parse e n labels"
| "Parse e (ANclient n) labels = Nclient_Parse e n labels"

section \<open>When rendering succeeds\<close>

text \<open>What the code dereferences and indexes without a check.\<close>

fun parse_ready :: "App \<Rightarrow> bool" where
  "parse_ready (AUnrecognized a) = True"
| "parse_ready (APmdb p) = (pm_RaftRootEntry p \<noteq> [] \<and> SysInfo (pm_EPInfo p) \<noteq> None)"
| "parse_ready (ANisd n) =
     (NISDRootEntry (ni_EPInfo n) = [] \<or> NiorqMgr (ni_EPInfo n) \<noteq> [] \<and> SysInfo (ni_EPInfo n) \<noteq> None)"
| "parse_ready (ANclient n) =
     (case Nclient (nc_EPInfo n) of
        None \<Rightarrow> False
      | Some c \<Rightarrow> str_field NclientInfo_fields c ''VdevUUID'' = [] \<or>
          NiorqMgr (nc_EPInfo n) \<noteq> [] \<and> SysInfo (nc_EPInfo n) \<noteq> None)"

abbreviation returns :: "'a res \<Rightarrow> bool" where
  "returns r \<equiv> ends r (\<lambda>_. False) (\<lambda>_. True)"

lemma returns_iff: "returns r \<longleftrightarrow> (\<exists>x. r = Inr x)"
  by (cases r) auto

text \<open>On data of the right type rendering a structure or a slice of structures cannot panic.\<close>

definition prom_text :: "env \<Rightarrow> sfield list \<Rightarrow> (string, string) gomap \<Rightarrow> gostruct \<Rightarrow> string" where
  "prom_text e fs labels s =
     concat (map (\<lambda>(f, v). prom_block (e_fmtv e) (makeLabelString (e_ord e) labels) f v) (zip fs s))"

definition loop_text ::
  "env \<Rightarrow> sfield list \<Rightarrow> (gostruct \<Rightarrow> (string, string) gomap \<Rightarrow> (string, string) gomap) \<Rightarrow>
   gostruct list \<Rightarrow> string \<times> (string, string) gomap \<Rightarrow> string \<times> (string, string) gomap" where
  "loop_text e fs setl xs st =
     foldl (\<lambda>(out, labels) x. (out @ prom_text e fs (setl x labels) x, setl x labels)) st xs"

lemma prom_eq:
  assumes "visits (e_ord e)" and "fs \<in> set metric_tables" and "of_type fs s"
  shows "prom e fs labels s = Inr (prom_text e fs labels s)"
  unfolding prom_def prom_text_def
  by (rule GenericPromDataParser_blocks [OF assms(1) table_exportable [OF assms(2)] assms(3)])

lemma tables_mem [simp]:
  "SystemInfo_fields \<in> set metric_tables" "RaftInfo_fields \<in> set metric_tables"
  "NiorqMgr_fields \<in> set metric_tables" "NISDRoot_fields \<in> set metric_tables"
  "NISDChunkInfo_fields \<in> set metric_tables" "BufferSetNodes_fields \<in> set metric_tables"
  "TaskInfo_fields \<in> set metric_tables" "MbMerge_fields \<in> set metric_tables"
  "NclientInfo_fields \<in> set metric_tables"
  by (simp_all add: metric_tables_def)

lemma parse_loop_eq:
  assumes "visits (e_ord e)" and "fs \<in> set metric_tables" and "list_all (of_type fs) xs"
  shows "parse_loop e fs setl xs st = Inr (loop_text e fs setl xs st)"
  using assms(3)
proof (induction xs arbitrary: st)
  case (Cons x xs)
  then show ?case
    by (cases st) (simp add: parse_loop_def loop_text_def prom_eq [OF assms(1,2)] Let_def)
qed (simp add: parse_loop_def loop_text_def)

lemmas render_simps = prom_eq parse_loop_eq deref_def idx0_def Let_def list_all_iff

lemma membership_returns:
  "pm_RaftRootEntry p = r # rs \<Longrightarrow> \<exists>out. parseMembershipPrometheus e p = Inr out"
  unfolding returns_iff [symmetric] parseMembershipPrometheus_def
  by (rule for_each_ends) (simp_all add: idx0_def)

lemma Pmdb_Parse_returns:
  assumes "visits (e_ord e)" and "typed_app (APmdb p)"
  shows "returns (Pmdb_Parse e p labels) \<longleftrightarrow> parse_ready (APmdb p)"
proof (cases "pm_RaftRootEntry p")
  case Nil
  then show ?thesis by (simp add: Pmdb_Parse_def LoadPMDBLabelMap_def idx0_def)
next
  case (Cons r rs)
  obtain out where "parseMembershipPrometheus e p = Inr out"
    using membership_returns [OF Cons] by blast
  with Cons assms show ?thesis
    by (cases "SysInfo (pm_EPInfo p)")
       (simp_all add: Pmdb_Parse_def LoadPMDBLabelMap_def getFollowerStats_def typed_ctl_def render_simps)
qed

lemma Nisd_Parse_returns:
  assumes "visits (e_ord e)" and "typed_app (ANisd n)"
  shows "returns (Nisd_Parse e n labels) \<longleftrightarrow> parse_ready (ANisd n)"
  using assms
  by (cases "SysInfo (ni_EPInfo n)"; cases "NiorqMgr (ni_EPInfo n)"; cases "NISDRootEntry (ni_EPInfo n)")
     (simp_all add: Nisd_Parse_def LoadNISDLabelMap_def typed_ctl_def render_simps case_prod_unfold)

lemma Nclient_Parse_returns:
  assumes "visits (e_ord e)" and "typed_app (ANclient n)"
  shows "returns (Nclient_Parse e n labels) \<longleftrightarrow> parse_ready (ANclient n)"
  using assms
  by (cases "SysInfo (nc_EPInfo n)"; cases "NiorqMgr (nc_EPInfo n)"; cases "Nclient (nc_EPInfo n)")
     (simp_all add: Nclient_Parse_def typed_ctl_def render_simps case_prod_unfold)

lemma Parse_returns:
  assumes "visits (e_ord e)" and "typed_app a"
  shows "returns (Parse e a labels) \<longleftrightarrow> parse_ready a"
proof (cases a)
  case (APmdb p)
  with assms Pmdb_Parse_returns [of e p] show ?thesis by simp
next
  case (ANisd n)
  with assms Nisd_Parse_returns [of e n] show ?thesis by simp
next
  case (ANclient n)
  with assms Nclient_Parse_returns [of e n] show ?thesis by simp
qed simp

end
