(* ===== verification/UrlPath.thy ===== *)
theory UrlPath
  imports GoLib
begin

text \<open>
  The way of a request to its handler: \<open>net/url\<close> for the target of a request line in origin form (a path and a
  query), and how \<open>http.ServeMux\<close> of Go 1.22 matches the three patterns \<open>ServeHttp\<close> of \<open>http_comms.go\<close> registers.
  The multiplexer looks at the decoded segments of the path; \<open>URL.String\<close> writes the path as it was sent.
\<close>

section \<open>net/url\<close>

definition hex_val :: "char \<Rightarrow> nat option" where
  "hex_val c =
     (let n = of_char c :: nat in
      if 48 \<le> n \<and> n \<le> 57 then Some (n - 48)
      else if 65 \<le> n \<and> n \<le> 70 then Some (n - 55)
      else if 97 \<le> n \<and> n \<le> 102 then Some (n - 87) else None)"

definition hex_pair :: "string \<Rightarrow> char option" where
  "hex_pair cs =
     (case cs of
        h # l # _ \<Rightarrow> (case (hex_val h, hex_val l) of (Some a, Some b) \<Rightarrow> Some (char_of (16 * a + b)) | _ \<Rightarrow> None)
      | _ \<Rightarrow> None)"

text \<open>\<open>unescape\<close> for a path: \<open>None\<close> is the error for a percent sign without two hexadecimal digits.\<close>

fun unescape :: "string \<Rightarrow> string option" where
  "unescape [] = Some []"
| "unescape (c # cs) =
     (if c = CHR ''%'' then
        (case hex_pair cs of None \<Rightarrow> None | Some x \<Rightarrow> map_option (Cons x) (unescape (drop 2 cs)))
      else map_option (Cons c) (unescape cs))"

definition alnum :: "char \<Rightarrow> bool" where
  "alnum c =
     (let n = of_char c :: nat in 48 \<le> n \<and> n \<le> 57 \<or> 65 \<le> n \<and> n \<le> 90 \<or> 97 \<le> n \<and> n \<le> 122)"

text \<open>The bytes \<open>escape\<close> leaves alone in a path, and those \<open>validEncoded\<close> accepts in an encoded one.\<close>

definition path_safe :: "char \<Rightarrow> bool" where
  "path_safe c = (alnum c \<or> c \<in> set ''-_.~$&+,/:;=@'')"

definition valid_encoded :: "char \<Rightarrow> bool" where
  "valid_encoded c = (path_safe c \<or> c \<in> set ''!()*[]%'' \<or> c = CHR 0x27)"

definition escape_char :: "char \<Rightarrow> string" where
  "escape_char c =
     (if path_safe c then [c]
      else let n = of_char c :: nat in [CHR ''%'', ''0123456789ABCDEF'' ! (n div 16), ''0123456789ABCDEF'' ! (n mod 16)])"

definition escape :: "string \<Rightarrow> string" where
  "escape s = concat (map escape_char s)"

record url =
  u_Path :: string
  u_RawPath :: string
  u_ForceQuery :: bool
  u_RawQuery :: string

text \<open>
  \<open>url.ParseRequestURI\<close> for a target that begins with a slash: everything up to the first question mark is the
  path; \<open>RawPath\<close> is set when the path is not what \<open>escape\<close> would write.
\<close>

definition ParseRequestURI :: "string \<Rightarrow> url option" where
  "ParseRequestURI t =
     (if \<not> HasPrefix t ''/'' \<or> list_ex (\<lambda>c. (of_char c :: nat) < 32 \<or> (of_char c :: nat) = 127) t then None
      else
        let rest = takeWhile (\<lambda>c. c \<noteq> CHR ''?'') t;
            query = drop (length rest) t
        in case unescape rest of
             None \<Rightarrow> None
           | Some path \<Rightarrow>
               Some \<lparr>u_Path = path, u_RawPath = (if escape path = rest then [] else rest),
                     u_ForceQuery = (query = ''?''), u_RawQuery = drop 1 query\<rparr>)"

definition EscapedPath :: "url \<Rightarrow> string" where
  "EscapedPath u =
     (if u_RawPath u \<noteq> [] \<and> list_all valid_encoded (u_RawPath u) \<and> unescape (u_RawPath u) = Some (u_Path u)
      then u_RawPath u
      else if u_Path u = ''*'' then ''%2A'' else escape (u_Path u))"

text \<open>\<open>URL.String\<close> for a URL without scheme and host, whose path begins with a slash.\<close>

definition URL_String :: "url \<Rightarrow> string" where
  "URL_String u =
     EscapedPath u @ (if u_ForceQuery u \<or> u_RawQuery u \<noteq> [] then ''?'' @ u_RawQuery u else [])"

section \<open>The request multiplexer\<close>

definition cleanPath :: "string \<Rightarrow> string" where
  "cleanPath p =
     (if p = [] then ''/''
      else let p = (if HasPrefix p ''/'' then p else ''/'' @ p);
               np = Clean p
           in if last p = CHR ''/'' \<and> np \<noteq> ''/'' then np @ ''/'' else np)"

text \<open>The first segment of a path, decoded, and what follows it.\<close>

definition firstSegment :: "string \<Rightarrow> string \<times> string" where
  "firstSegment p =
     (if p = ''/'' then (''/'', [])
      else let p = drop 1 p;
               seg = takeWhile (\<lambda>c. c \<noteq> CHR ''/'') p
           in (case unescape seg of None \<Rightarrow> seg | Some s \<Rightarrow> s, drop (length seg) p))"

datatype route = RouteV0 | RouteLookouts | RouteMetrics | RouteRedirect | RouteNotFound

text \<open>
  The patterns \<open>/v0/\<close>, \<open>/lookouts\<close> and \<open>/metrics\<close>: a path that is not clean and \<open>/v0\<close> are redirected; a first segment
  \<open>v0\<close> with anything behind it is routed to the documents, the other two patterns match whole paths.
\<close>

definition mux :: "url \<Rightarrow> route" where
  "mux u =
     (let escapedPath = EscapedPath u;
          (seg, rest) = firstSegment escapedPath
      in if cleanPath escapedPath \<noteq> escapedPath then RouteRedirect
         else if seg = ''v0'' then (if rest = [] then RouteRedirect else RouteV0)
         else if seg = ''lookouts'' \<and> rest = [] then RouteLookouts
         else if seg = ''metrics'' \<and> rest = [] then RouteMetrics
         else RouteNotFound)"

section \<open>Facts\<close>

lemma ParseRequestURI_v0:
  assumes "ParseRequestURI (''/v0/'' @ t) = Some u"
  shows "HasPrefix (EscapedPath u) ''/v0/''"
proof -
  let ?rest = "takeWhile (\<lambda>c. c \<noteq> CHR ''?'') t"
  from assms obtain p where p: "unescape ?rest = Some p" "u_Path u = ''/v0/'' @ p"
    "u_RawPath u = [] \<or> u_RawPath u = ''/v0/'' @ ?rest"
    by (auto simp: ParseRequestURI_def Let_def split: if_splits option.splits)
  have "escape (''/v0/'' @ p) = ''/v0/'' @ escape p"
    by (simp add: escape_def escape_char_def path_safe_def alnum_def)
  with p(2,3) show ?thesis by (auto simp: EscapedPath_def HasPrefix_iff)
qed

text \<open>A percent-encoded target: routed to the documents, although its URL does not contain the pattern.\<close>

lemma encoded_target:
  "\<exists>u. ParseRequestURI ''/v%30/'' = Some u \<and> mux u = RouteV0 \<and> URL_String u = ''/v%30/''"
  by (rule exI [of _ "\<lparr>u_Path = ''/v0/'', u_RawPath = ''/v%30/'', u_ForceQuery = False, u_RawQuery = []\<rparr>"]) code_simp

lemma target_examples:
  "map_option URL_String (ParseRequestURI ''/v0/a b?x'') = Some ''/v0/a%20b?x''"
  "map_option mux (ParseRequestURI ''/v0/../metrics'') = Some RouteRedirect"
  "map_option mux (ParseRequestURI ''/metric%73'') = Some RouteMetrics"
  "map_option mux (ParseRequestURI ''/v0%2F'') = Some RouteNotFound"
  "ParseRequestURI ''/v%3/'' = None"
  by code_simp+

end
