(* ===== verification/Http.thy ===== *)
theory Http
  imports Json Gossip AppMetrics UrlPath
begin

text \<open>
  The HTTP service of \<open>http_comms.go\<close>: the documents of \<open>/v0/\<close>, the metrics of all running endpoints and
  the table of the peers. A handler's result is the body it writes; a panic in a handler is caught by
  the server, which drops the connection.
\<close>

section \<open>Endpoint documents\<close>

definition httpHandleRootRequest :: "jenv \<Rightarrow> env \<Rightarrow> uuid list \<Rightarrow> Epstate \<Rightarrow> world \<Rightarrow> string" where
  "httpHandleRootRequest je e ord state w = JsonMarshal je e state ord w @ nl"

definition httpHandleUUIDRequest :: "jenv \<Rightarrow> env \<Rightarrow> uuid \<Rightarrow> world \<Rightarrow> string" where
  "httpHandleUUIDRequest je e u w = JsonMarshalUUID je e u w @ nl"

definition httpHandleRoute :: "jenv \<Rightarrow> env \<Rightarrow> uuid list \<Rightarrow> url \<Rightarrow> world \<Rightarrow> string res" where
  "httpHandleRoute je e ord r w =
     (let splitURL = Split (URL_String r) ''/v0/'' in
      if length splitURL = 2 \<and> splitURL ! 1 = [] then Inr (httpHandleRootRequest je e ord EPstateRunning w)
      else if length splitURL < 2 then Inl index_panic
      else if splitURL ! 1 = ''all'' then Inr (httpHandleRootRequest je e ord EPstateAny w)
      else if splitURL ! 1 = ''down'' then Inr (httpHandleRootRequest je e ord EPstateDown w)
      else if splitURL ! 1 = ''init'' then Inr (httpHandleRootRequest je e ord EPstateInit w)
      else if splitURL ! 1 = ''removing'' then Inr (httpHandleRootRequest je e ord EPstateRemoving w)
      else case e_uuid_Parse e (splitURL ! 1) of
             Inr u \<Rightarrow> Inr (httpHandleUUIDRequest je e u w)
           | Inl _ \<Rightarrow> Inr (''Invalid request: url '' @ splitURL ! 1 @ nl))"

section \<open>Metrics\<close>

definition metrics_ep :: "env \<Rightarrow> world \<Rightarrow> (uuid, ep_ref) gomap \<Rightarrow> uuid \<Rightarrow> string \<Rightarrow> string res" where
  "metrics_ep e w epMap u out =
     (case map_of epMap u of
        None \<Rightarrow> Inr out
      | Some r \<Rightarrow>
          if ep_State (w_eps w r) = EPstateRunning then
            (case ep_App (w_eps w r) of
               None \<Rightarrow> Inl nil_deref
             | Some a \<Rightarrow>
                 bindr (LoadSystemInfo a []) (\<lambda>labelMap.
                   if length labelMap > 0 then bindr (Parse e a labelMap) (\<lambda>o1. Inr (out @ o1))
                   else Inr out))
          else Inr out)"

text \<open>\<open>ord1\<close> is the visiting order of \<open>TakeSnapshot\<close>, \<open>ord2\<close> that of the handler's own range.\<close>

definition MetricsHandler :: "env \<Rightarrow> uuid list \<Rightarrow> uuid list \<Rightarrow> world \<Rightarrow> string res" where
  "MetricsHandler e ord1 ord2 w = for_each (metrics_ep e w (TakeSnapshot ord1 w)) ord2 []"

section \<open>Peers\<close>

record response =
  rs_status :: nat
  rs_type :: string
  rs_body :: string

definition enc_lookout :: "env \<Rightarrow> LookoutInfo \<Rightarrow> json" where
  "enc_lookout e l =
     JObj [(''IPAddrs'', case li_IPAddrs l of None \<Rightarrow> JNull | Some ips \<Rightarrow> JArr (map JStr ips)), (''HTTPPort'', JStr (li_HTTPPort l)),
           (''PortRange'', JStr (li_PortRange l)),
           (''Apps'', JObj (sort_key fst (map (\<lambda>(u, a). (e_uuid_String e u,
               JObj [(''Status'', JStr (ma_Status a)), (''Type'', JStr (ma_Type a))])) (li_Apps l)))),
           (''LastSeen'', JStr (li_LastSeen l))]"

definition LookoutsHandler :: "env \<Rightarrow> string \<Rightarrow> CommHandler \<Rightarrow> response" where
  "LookoutsHandler e method h =
     (if method \<noteq> ''GET''
      then \<lparr>rs_status = 405, rs_type = ''text/plain; charset=utf-8'', rs_body = ''Method not allowed'' @ nl\<rparr>
      else
        let jsonData = indent 0 (case cm_Lookouts h of
              None \<Rightarrow> JNull
            | Some m \<Rightarrow> JObj (sort_key fst (map (\<lambda>(k, l). (k, enc_lookout e l)) m)))
        in \<lparr>rs_status = 200, rs_type = ''application/json'', rs_body = jsonData\<rparr>)"

section \<open>Facts\<close>

text \<open>The handler indexes the second piece of the URL's text, which is there only when the text has the pattern.\<close>

lemma httpHandleRoute_returns:
  "if Contains (URL_String r) ''/v0/'' then returns (httpHandleRoute je e ord r w)
   else httpHandleRoute je e ord r w = Inl index_panic"
  using split_one [of "''/v0/''" "URL_String r"]
  by (auto simp: httpHandleRoute_def Let_def split: sum.splits)

lemma snapshot_map_of:
  assumes "range_order ord (w_epMap w)"
  shows "map_of (TakeSnapshot ord w) = map_of (w_epMap w)"
proof -
  let ?f = "\<lambda>k nodeMap. case map_of (w_epMap w) k of None \<Rightarrow> nodeMap | Some v \<Rightarrow> mput k v nodeMap"
  have "map_of (fold ?f ks m) u = (if u \<in> set ks \<and> map_of (w_epMap w) u \<noteq> None
      then map_of (w_epMap w) u else map_of m u)" for ks m u
    by (induction ks arbitrary: m) (auto split: option.splits)
  with range_order_lookup [OF assms] show ?thesis by (auto simp: TakeSnapshot_def fun_eq_iff)
qed

text \<open>
  What one running endpoint does to the response: nothing when it has no system information yet,
  its metrics, or a panic.
\<close>

definition metrics_panics :: "App \<Rightarrow> bool" where
  "metrics_panics a =
     (case a of
        AUnrecognized _ \<Rightarrow> False
      | APmdb p \<Rightarrow> SysInfo (pm_EPInfo p) = None \<or> pm_RaftRootEntry p = []
      | ANisd n \<Rightarrow> SysInfo (ni_EPInfo n) \<noteq> None \<and> NISDRootEntry (ni_EPInfo n) \<noteq> [] \<and> NiorqMgr (ni_EPInfo n) = []
      | ANclient n \<Rightarrow> SysInfo (nc_EPInfo n) = None \<or>
          (case Nclient (nc_EPInfo n) of
             None \<Rightarrow> True
           | Some c \<Rightarrow> str_field NclientInfo_fields c ''VdevUUID'' \<noteq> [] \<and> NiorqMgr (nc_EPInfo n) = []))"

lemma LoadSystemInfo_cases:
  "LoadSystemInfo a [] = Inr lm \<Longrightarrow> lm = [] \<or> length lm = 1"
  by (cases a) (auto simp: Pmdb_LoadSystemInfo_def Nisd_LoadSystemInfo_def Nclient_LoadSystemInfo_def
      node_name_def deref_def split: option.splits if_splits)

lemma metrics_ep_returns:
  assumes "visits (e_ord e)" and "map_of m u = Some r" and "ep_State (w_eps w r) = EPstateRunning"
    and a: "ep_App (w_eps w r) = Some a" "typed_app a"
  shows "returns (metrics_ep e w m u out) \<longleftrightarrow> \<not> metrics_panics a"
proof -
  have "returns (Parse e a labels) \<longleftrightarrow> parse_ready a" for labels
    by (rule Parse_returns [OF assms(1) a(2)])
  then have "ends (Parse e a labels) (\<lambda>_. False) (\<lambda>_. True) \<longleftrightarrow> parse_ready a" for labels by simp
  with assms(2-4) show ?thesis
    by (cases a)
       (auto simp: metrics_ep_def metrics_panics_def Pmdb_LoadSystemInfo_def Nisd_LoadSystemInfo_def
          Nclient_LoadSystemInfo_def node_name_def deref_def split: option.splits)
qed

text \<open>The request as a whole fails exactly when some running endpoint makes it panic.\<close>

lemma MetricsHandler_returns:
  assumes vis: "visits (e_ord e)" and ord: "range_order ord1 (w_epMap w)" "range_order ord2 (w_epMap w)"
    and apps: "\<And>u r. map_of (w_epMap w) u = Some r \<Longrightarrow> \<exists>a. ep_App (w_eps w r) = Some a \<and> typed_app a"
  shows "returns (MetricsHandler e ord1 ord2 w) \<longleftrightarrow>
    \<not> (\<exists>u r a. map_of (w_epMap w) u = Some r \<and> ep_State (w_eps w r) = EPstateRunning \<and>
        ep_App (w_eps w r) = Some a \<and> metrics_panics a)"
proof -
  let ?m = "TakeSnapshot ord1 w"
  let ?bad = "\<lambda>u. \<exists>r a. map_of (w_epMap w) u = Some r \<and> ep_State (w_eps w r) = EPstateRunning \<and>
        ep_App (w_eps w r) = Some a \<and> metrics_panics a"
  note m = snapshot_map_of [OF ord(1)]
  have one: "returns (metrics_ep e w ?m u out) \<longleftrightarrow> \<not> ?bad u" if mem: "u \<in> set ord2" for u out
  proof -
    obtain r where r: "map_of (w_epMap w) u = Some r"
      using mem range_order_lookup [OF ord(2), of u] by auto
    then obtain a where a: "ep_App (w_eps w r) = Some a" "typed_app a" using apps by blast
    show ?thesis
    proof (cases "ep_State (w_eps w r) = EPstateRunning")
      case True
      then have "returns (metrics_ep e w ?m u out) \<longleftrightarrow> \<not> metrics_panics a"
        using r a m by (intro metrics_ep_returns vis) auto
      with True r a show ?thesis by simp
    next
      case False
      with r m show ?thesis by (simp add: metrics_ep_def)
    qed
  qed
  have "returns (for_each (metrics_ep e w ?m) us out) \<longleftrightarrow> \<not> (\<exists>u \<in> set us. ?bad u)"
    if "set us \<subseteq> set ord2" for us out
    using that
  proof (induction us arbitrary: out)
    case (Cons u us)
    show ?case
    proof (cases "metrics_ep e w ?m u out")
      case (Inl h)
      with one [of u out] Cons.prems show ?thesis by auto
    next
      case (Inr o1)
      with one [of u out] Cons show ?thesis by auto
    qed
  qed simp
  then have "returns (MetricsHandler e ord1 ord2 w) \<longleftrightarrow> \<not> (\<exists>u \<in> set ord2. ?bad u)"
    by (simp add: MetricsHandler_def)
  moreover have "(\<exists>u \<in> set ord2. ?bad u) \<longleftrightarrow> (\<exists>u. ?bad u)"
    using range_order_lookup [OF ord(2)] by fastforce
  ultimately show ?thesis by blast
qed

end
