(* ===== verification/LookoutFacts.thy ===== *)
theory LookoutFacts
  imports LookoutSystem EndpointOps Http
begin

text \<open>
  Facts about whole runs that several parts together give: when an endpoint that no process holds open
  is given up, what a removal asks of the kernel, and what a running PMDB endpoint does to a scrape.
\<close>

section \<open>Two missed scans\<close>

lemma word_gen_succ: "(g :: u64) \<noteq> -1 \<Longrightarrow> unat (g + 1) = unat g + 1"
  using unatSuc [of g] by (simp add: add.commute add_eq_0_iff)

text \<open>An endpoint that two scans in a row have not seen has a stale generation.\<close>

lemma missed_twice:
  assumes sc: "scanned us w w1" "scanned us' w1 w2" and inv: "linv w" and r: "r < w_neps w"
    and miss: "ep_Uuid (w_eps w r) \<notin> us" "ep_Uuid (w_eps w r) \<notin> us'"
    and g: "w_gen w \<noteq> -1" "w_gen w1 \<noteq> -1"
  shows "w_eps w2 r = w_eps w r" and "ep_lsofGen (w_eps w2 r) + 1 < w_gen w2"
proof -
  have e1: "w_eps w1 r = w_eps w r" using sc(1) r miss(1) by (simp add: scanned_def)
  have "r < w_neps w1" using sc(1) r by (simp add: scanned_def)
  then show e2: "w_eps w2 r = w_eps w r" using sc(2) miss(2) e1 by (simp add: scanned_def)
  have gens: "w_gen w1 = w_gen w + 1" "w_gen w2 = w_gen w1 + 1" using sc by (simp_all add: scanned_def)
  have "ep_lsofGen (w_eps w r) \<le> w_gen w" using inv r by (simp add: linv_def ep_ok_def)
  then have le: "unat (ep_lsofGen (w_eps w r)) \<le> unat (w_gen w)" by (simp add: word_le_nat_alt)
  have n: "unat (w_gen w1) = unat (w_gen w) + 1" "unat (w_gen w2) = unat (w_gen w1) + 1"
    unfolding gens(2) using word_gen_succ [OF g(2)] word_gen_succ [OF g(1)] gens(1) by simp_all
  have ne: "ep_lsofGen (w_eps w r) \<noteq> -1"
  proof
    assume "ep_lsofGen (w_eps w r) = -1"
    with le have "unat (-1 :: u64) < unat (w_gen w1)" using n by simp
    moreover have "unat (w_gen w1) \<le> unat (-1 :: u64)" by (simp add: word_le_nat_alt [symmetric])
    ultimately show False by simp
  qed
  have "unat (ep_lsofGen (w_eps w r) + 1) < unat (w_gen w2)"
    using word_gen_succ [OF ne] le n by simp
  then show "ep_lsofGen (w_eps w2 r) + 1 < w_gen w2" unfolding e2 by (simp add: word_less_nat_alt)
qed

text \<open>An endpoint the last scan has seen is not stale.\<close>

lemma seen_fresh:
  assumes "scanned us w w1" and "r < w_neps w1" and "ep_Uuid (w_eps w1 r) \<in> us" and "w_gen w1 \<noteq> -1"
  shows "\<not> ep_lsofGen (w_eps w1 r) + 1 < w_gen w1"
proof -
  have "ep_lsofGen (w_eps w1 r) = w_gen w1" using assms by (simp add: scanned_def)
  then show ?thesis using word_gen_succ [OF assms(4)] by (simp add: word_less_nat_alt)
qed

section \<open>Removing a watch\<close>

lemma removed_descriptor:
  "EpWatchRemove (Some r) w = Inr w' \<Longrightarrow> w_sys w' = w_sys w @ [SysRmWatch (-1)]"
  by (auto simp: EpWatchRemove_def Let_def split: if_splits option.splits)

section \<open>A scrape\<close>

lemma for_each_visited:
  "for_each f ks s = Inr s' \<Longrightarrow> k \<in> set ks \<Longrightarrow> \<exists>a b. f k a = Inr b"
proof (induction ks arbitrary: s)
  case (Cons x ks)
  then show ?case by (cases "f x s") auto
qed simp

lemma scrape_pmdb:
  assumes inv: "linv w" and u: "map_of (w_epMap w) u = Some r"
    and st: "ep_State (w_eps w r) = EPstateRunning" and a: "ep_App (w_eps w r) = Some (APmdb p)"
    and ord: "range_order ord1 (w_epMap w)" "range_order ord2 (w_epMap w)"
  shows "MetricsHandler e ord1 ord2 w \<noteq> Inr out"
proof
  assume run: "MetricsHandler e ord1 ord2 w = Inr out"
  have "r < w_neps w" by (rule inv_lookup(1) [OF inv u])
  then have "SysInfo (pm_EPInfo p) = None"
    using inv a by (auto simp: linv_def ep_ok_def app_ok_def app_data_ok_def pmdb_bare_def Let_def)
  then have "metrics_ep e w (TakeSnapshot ord1 w) u s = Inl nil_deref" for s
    using u st a snapshot_map_of [OF ord(1)]
    by (simp add: metrics_ep_def Pmdb_LoadSystemInfo_def node_name_def deref_def)
  moreover have "u \<in> set ord2" using u range_order_lookup [OF ord(2), of u] by simp
  ultimately show False using for_each_visited [OF run [unfolded MetricsHandler_def]] by fastforce
qed

section \<open>The port file\<close>

text \<open>Each start that can open the port file adds the digits of the HTTP port to what is there.\<close>

lemma port_file_appended:
  assumes "e_open_append e (lh_PromPath (w_lh w)) = None"
  shows "snd (writePromPath e w) = sys (SysAppendFile (lh_PromPath (w_lh w)) (Itoa (lh_HttpPort (w_lh w)))) w"
  using assms by (simp add: writePromPath_def Let_def split: option.splits)

end
