(* ===== verification/LookoutFine.thy ===== *)
theory LookoutFine
  imports LookoutLoops LookoutFacts
begin

text \<open>
  The goroutines of the lookout at the grain of the container's mutex. The scanner takes the mutex once for
  each process it finds; the event loop does not take it, so an event may come between two endpoints of a
  clean-up or of a poll, and it starts before the first scan. A step is the work on one endpoint, the step of
  the generation counter, one entry of \<open>/proc\<close>, one event, one mark, or one of the two steps of the
  start-up. The runs of whole handlers are runs of these steps.
\<close>

section \<open>The steps\<close>

text \<open>The state in which \<open>epInotifyStart\<close> starts the event loop.\<close>

definition booted :: "world \<Rightarrow> bool" where
  "booted w = (\<exists>e w0. inotify_ok e \<and> w_neps w0 = 0 \<and> lh_state (w_lh w0) = BOOTING \<and>
     w_gen w0 = 0 \<and> epInotifyStart e (InitializeEpMap w0) = Inr w)"

inductive fstep :: "world \<Rightarrow> world \<Rightarrow> bool" where
  prom: "writePromPath e w = (err, w') \<Longrightarrow> fstep w w'"
| tick: "w_gen w \<noteq> -1 \<Longrightarrow> fstep w (bump_gen w)"
| entry: "\<lbrakk>inotify_ok e; fst en \<noteq> []; lsof_entry e en w = Inr w'\<rbrakk> \<Longrightarrow> fstep w w'"
| monitor: "monitor_start w = Inr w' \<Longrightarrow> fstep w w'"
| clean: "\<lbrakk>map_of (w_epMap w) u = Some r; CleanEP e r w = Inr w'\<rbrakk> \<Longrightarrow> fstep w w'"
| poll: "\<lbrakk>map_of (w_epMap w) u = Some r; Poll e r w = Inr (err, w')\<rbrakk> \<Longrightarrow> fstep w w'"
| event: "\<lbrakk>inotify_ok e; processEvent e ev w = Inr w'\<rbrakk> \<Longrightarrow> fstep w w'"
| mark: "MarkAlive e s w = Inr err \<Longrightarrow> fstep w w"

section \<open>What a step does\<close>

lemma lsof_entry_inv:
  assumes inv: "linv w" and ino: "inotify_ok e" and ne: "fst en \<noteq> []"
  shows "ends (lsof_entry e en w)
     (\<lambda>_. \<exists>u. entry_uuid e (lh_CTLPath (w_lh w)) en = Some u \<and> blocked e w u)
     (\<lambda>w'. linv w' \<and> (w' = w \<or> (\<exists>u. discovered u w w')))"
proof (cases "entry_uuid e (lh_CTLPath (w_lh w)) en")
  case (Some u)
  have "ends (AddEp e u w) (\<lambda>_. blocked e w u)
      (\<lambda>(_, w'). linv w' \<and> (w' = w \<or> (\<exists>u. discovered u w w')))"
    by (rule ends_mono [OF AddEp_inv [OF inv ino]]) auto
  then show ?thesis
    by (simp add: lsof_entry_eq [OF ne] Some LsofGenAddOrUpdateEp_def) (erule ends_mono, auto)
qed (use inv in \<open>simp add: lsof_entry_eq [OF ne]\<close>)

text \<open>A step is one of four: nothing, one endpoint moves along an edge, an endpoint is found, the handler moves on.\<close>

lemma fstep_cases:
  assumes inv: "linv w" and "fstep w w'"
  obtains (quiet) "linv w'" "w_eps w' = w_eps w" "w_neps w' = w_neps w" "w_epMap w' = w_epMap w"
        "lh_state (w_lh w') = lh_state (w_lh w) \<or> lh_state (w_lh w) = BOOTING \<and> lh_state (w_lh w') = RUNNING"
    | (moved) r where "linv w'" "r < w_neps w" "frame_ep r w w'"
        "ep_State (w_eps w' r) = ep_State (w_eps w r) \<or> life_edge (ep_State (w_eps w r)) (ep_State (w_eps w' r))"
    | (seen) u where "linv w'" "discovered u w w'"
  using assms(2)
proof (cases rule: fstep.cases)
  case (prom e err)
  from writePromPath_inv [OF prom] inv quiet show ?thesis
    using prom by (auto simp: writePromPath_def Let_def split: option.splits)
next
  case tick
  with bump_gen_inv [OF inv] quiet show ?thesis by simp
next
  case (entry e en)
  with lsof_entry_inv [OF inv entry(1,2)] entry(3) inv quiet seen show ?thesis by auto
next
  case monitor
  then have b: "lh_state (w_lh w) = BOOTING" and w': "w' = w\<lparr>w_lh := (w_lh w)\<lparr>lh_state := RUNNING\<rparr>\<rparr>"
    by (auto simp: monitor_start_def split: if_splits)
  then show ?thesis using monitor_start_inv [OF b inv] quiet monitor by simp
next
  case (clean u r e)
  have r: "r < w_neps w" by (rule inv_lookup(1) [OF inv clean(1)])
  have app: "app_ok w r" using inv r by (simp add: linv_def ep_ok_def)
  have c: "linv w'" "frame_ep r w w'" "w_eps w' r = cleaned e (w_gen w) (w_cmds w) (w_eps w r)"
    using CleanEP_eq [OF inv r, of e] clean(2) by auto
  with edge_round [OF app, of e "w_gen w" "w_cmds w" "w_eps w' r"] r moved show ?thesis by auto
next
  case (poll u r e err)
  have r: "r < w_neps w" by (rule inv_lookup(1) [OF inv poll(1)])
  from Poll_inv [OF inv r, of e] poll(2) have p: "linv w'" "frame_ep r w w'"
    "ep_State (w_eps w' r) = ep_State (w_eps w r) \<or>
      ep_State (w_eps w r) = EPstateRunning \<and> ep_State (w_eps w' r) = EPstateDown" by auto
  then show ?thesis using r moved by (auto simp: life_edge_def)
next
  case (event e ev)
  from processEvent_inv [OF inv event(1), of ev] event(2)
  have "linv w'" "event_step ev w w'" by auto
  moreover have "ep_State (w_eps w' r) = ep_State (w_eps w r) \<or> life_edge (ep_State (w_eps w r)) (ep_State (w_eps w' r))"
    if "r < w_neps w" "ep_watched (w_eps w r)" "complete_moves (ep_State (w_eps w r)) (ep_State (w_eps w' r))" for r
  proof (rule edge_complete [OF _ _ that(3)])
    show s: "isWatchedState (ep_State (w_eps w r))"
      using inv that by (simp add: linv_def ep_ok_def watch_ok_def Let_def)
    then show "ep_State (w_eps w r) \<noteq> EPstateUnknown" by auto
  qed
  ultimately show ?thesis using quiet moved seen unfolding event_step_def by blast
next
  case (mark e s err)
  with inv quiet show ?thesis by simp
qed

lemma fstep_inv: "linv w \<Longrightarrow> fstep w w' \<Longrightarrow> linv w'"
  by (erule fstep_cases)

lemma booted_inv: "booted w \<Longrightarrow> linv w"
  unfolding booted_def
proof (elim exE conjE)
  fix e w0 assume "inotify_ok e" "w_neps w0 = 0" "epInotifyStart e (InitializeEpMap w0) = Inr w"
  then show "linv w"
    using epInotifyStart_inv [of e "InitializeEpMap w0"] by (simp add: InitializeEpMap_def)
qed

lemma fstep_life:
  assumes inv: "linv w" and step: "fstep w w'"
  shows "life_step (ep_table w) (ep_table w')"
proof (cases rule: fstep_cases [OF inv step])
  case 1
  then have "ep_table w' = ep_table w" by (simp add: ep_table_def fun_eq_iff)
  then show ?thesis by simp
next
  case (2 r)
  then show ?thesis by (intro life_stepI [OF inv]) (auto simp: frame_ep_def)
next
  case (3 u)
  then show ?thesis by (intro discovered_life [OF inv])
qed

text \<open>
  The event loop looks an endpoint up before it completes the command, so a clean-up may come in between and
  take the endpoint out of service. \<open>Process\<close> does the same two things; a \<open>gstep\<close> is a step or such a late
  answer, to whatever endpoint in whatever state.
\<close>

inductive late :: "world \<Rightarrow> world \<Rightarrow> bool" where
  "\<lbrakk>inotify_ok e; Process e u c w = Inr w'\<rbrakk> \<Longrightarrow> late w w'"

inductive_cases lateE: "late w w'"

definition gstep :: "world \<Rightarrow> world \<Rightarrow> bool" where
  "gstep w w' = (fstep w w' \<or> late w w')"

text \<open>A late answer may also bring back what is out of service; it adds no endpoint and loses none.\<close>

definition revive_step :: "(uuid \<Rightarrow> Epstate option) \<Rightarrow> (uuid \<Rightarrow> Epstate option) \<Rightarrow> bool" where
  "revive_step t t' =
     (\<forall>u. t' u = t u \<or>
        (\<exists>s s'. t u = Some s \<and> t' u = Some s' \<and>
           (life_edge s s' \<or> s = EPstateRemoving \<and> s' \<in> {EPstateHasIdentity, EPstateRunning})))"

lemma late_inv:
  assumes inv: "linv w" and "late w w'"
  shows "linv w'" "frame_all w w'" "r < w_neps w \<Longrightarrow> complete_moves (ep_State (w_eps w r)) (ep_State (w_eps w' r))"
proof -
  from assms(2) obtain e u c where "inotify_ok e" "Process e u c w = Inr w'" by (rule lateE)
  with Process_inv [OF inv this(1), of u c] show "linv w'" "frame_all w w'"
    "r < w_neps w \<Longrightarrow> complete_moves (ep_State (w_eps w r)) (ep_State (w_eps w' r))" by simp_all
qed

lemma edge_late:
  "s \<noteq> EPstateUnknown \<Longrightarrow> s \<noteq> EPstateAny \<Longrightarrow> complete_moves s s' \<Longrightarrow>
    s' = s \<or> life_edge s s' \<or> s = EPstateRemoving \<and> s' \<in> {EPstateHasIdentity, EPstateRunning}"
  by (cases s) (auto simp: complete_moves_def life_edge_def)

lemma late_revives:
  assumes inv: "linv w" and "late w w'"
  shows "revive_step (ep_table w) (ep_table w')"
  unfolding revive_step_def
proof
  fix u
  note l = late_inv [OF assms]
  have m: "w_epMap w' = w_epMap w" using l(2) by (simp add: frame_all_def)
  show "ep_table w' u = ep_table w u \<or>
        (\<exists>s s'. ep_table w u = Some s \<and> ep_table w' u = Some s' \<and>
           (life_edge s s' \<or> s = EPstateRemoving \<and> s' \<in> {EPstateHasIdentity, EPstateRunning}))"
  proof (cases rule: table_cases [OF inv, of u])
    case (2 r)
    have "app_ok w r" using inv 2(1) by (simp add: linv_def ep_ok_def)
    then have s: "ep_State (w_eps w r) \<noteq> EPstateUnknown" "ep_State (w_eps w r) \<noteq> EPstateAny"
      by (auto simp: app_ok_def Let_def)
    have "ep_table w' u = Some (ep_State (w_eps w' r))" using 2 m by (simp add: ep_table_def)
    with edge_late [OF s l(3) [OF 2(1)]] 2(4) show ?thesis by auto
  qed (simp add: ep_table_def m)
qed

lemma gstep_inv: "linv w \<Longrightarrow> gstep w w' \<Longrightarrow> linv w'"
  by (auto simp: gstep_def intro: fstep_inv late_inv)

interpretation lg: invariant_system booted gstep linv
  by unfold_locales (auto intro: booted_inv gstep_inv)

lemma gstep_life:
  assumes "linv w" and "gstep w w'"
  shows "life_step (ep_table w) (ep_table w') \<or> revive_step (ep_table w) (ep_table w')"
  using assms fstep_life late_revives by (auto simp: gstep_def)

section \<open>The state of the handler\<close>

lemma fstep_state:
  assumes inv: "linv w" and step: "fstep w w'"
  shows "lh_state (w_lh w') = lh_state (w_lh w) \<or> lh_state (w_lh w) = BOOTING \<and> lh_state (w_lh w') = RUNNING"
proof (cases rule: fstep_cases [OF inv step])
  case (2 r)
  then show ?thesis by (simp add: frame_ep_same_lh same_lh_state)
next
  case (3 u)
  then show ?thesis by (simp add: discovered_def same_lh_state)
qed

lemma gstep_state:
  assumes inv: "linv w" and step: "gstep w w'"
  shows "lh_state (w_lh w') = lh_state (w_lh w) \<or> lh_state (w_lh w) = BOOTING \<and> lh_state (w_lh w') = RUNNING"
  using step fstep_state [OF inv] late_inv(2) [OF inv]
  by (auto simp: gstep_def frame_all_def same_lh_state)

text \<open>Along a run the state only advances, in the order of its declaration, and never reaches \<open>SHUTDOWN\<close>.\<close>

lemma gsteps_state:
  assumes "linv w" and "gstep\<^sup>*\<^sup>* w w'"
  shows "lh_state (w_lh w) \<le> lh_state (w_lh w')"
    and "lh_state (w_lh w) \<noteq> SHUTDOWN \<Longrightarrow> lh_state (w_lh w') \<noteq> SHUTDOWN"
proof -
  have "lh_state (w_lh w) \<le> lh_state (w_lh w') \<and> (lh_state (w_lh w) \<noteq> SHUTDOWN \<longrightarrow> lh_state (w_lh w') \<noteq> SHUTDOWN)"
    by (rule lg.path_rel [OF assms])
       (auto dest!: gstep_state simp: less_eq_lookoutState_def)
  then show "lh_state (w_lh w) \<le> lh_state (w_lh w')"
    "lh_state (w_lh w) \<noteq> SHUTDOWN \<Longrightarrow> lh_state (w_lh w') \<noteq> SHUTDOWN" by simp_all
qed

lemma booted_state: "booted w \<Longrightarrow> lh_state (w_lh w) = BOOTING"
  unfolding booted_def
proof (elim exE conjE)
  fix e w0 assume "inotify_ok e" "w_neps w0 = 0" "lh_state (w_lh w0) = BOOTING" "epInotifyStart e (InitializeEpMap w0) = Inr w"
  then show "lh_state (w_lh w) = BOOTING"
    using epInotifyStart_inv [of e "InitializeEpMap w0"] by (simp add: InitializeEpMap_def)
qed

lemma running_stays:
  assumes "linv w" and "lh_state (w_lh w) = RUNNING" and "gstep\<^sup>*\<^sup>* w w'"
  shows "lh_state (w_lh w') = RUNNING"
  using gsteps_state [OF assms(1,3)] assms(2)
  by (cases "lh_state (w_lh w')") (simp_all add: less_eq_lookoutState_def)

section \<open>Whole handlers are runs of steps\<close>

lemma for_each_path:
  assumes "\<And>k s s'. k \<in> set ks \<Longrightarrow> P s \<Longrightarrow> f k s = Inr s' \<Longrightarrow> P s' \<and> step\<^sup>*\<^sup>* s s'"
    and "P s" and "for_each f ks s = Inr s'"
  shows "P s' \<and> step\<^sup>*\<^sup>* s s'"
  using assms
proof (induction ks arbitrary: s)
  case (Cons k ks)
  from Cons.prems(3) obtain s1 where s1: "f k s = Inr s1" "for_each f ks s1 = Inr s'" by (auto simp: bindr_eq_Inr)
  then have "P s1 \<and> step\<^sup>*\<^sup>* s s1" using Cons.prems(1) [of k s s1] Cons.prems(2) by simp
  moreover have "P s' \<and> step\<^sup>*\<^sup>* s1 s'"
    by (rule Cons.IH) (use Cons.prems(1) calculation s1(2) in auto)
  ultimately show ?case by (metis rtranclp_trans)
qed simp

lemma CleanEPs_path:
  assumes "CleanEPs e ord w = Inr w'"
  shows "fstep\<^sup>*\<^sup>* w w'"
proof -
  have "True \<and> fstep\<^sup>*\<^sup>* w w'"
    by (rule for_each_path [OF _ _ assms [unfolded CleanEPs_def]])
       (auto split: option.splits intro: fstep.clean)
  then show ?thesis by simp
qed

lemma PollEPs_path:
  assumes "PollEPs e ord w = Inr w'"
  shows "fstep\<^sup>*\<^sup>* w w'"
proof -
  have "True \<and> fstep\<^sup>*\<^sup>* w w'"
    by (rule for_each_path [OF _ _ assms [unfolded PollEPs_def]])
       (auto simp: bindr_eq_Inr split: option.splits intro: fstep.poll)
  then show ?thesis by simp
qed

lemma round_path: "monitor_round e ord1 ord2 w = Inr (Some w') \<Longrightarrow> fstep\<^sup>*\<^sup>* w w'"
  by (auto simp: monitor_round_def bindr_eq_Inr split: if_splits
      dest!: CleanEPs_path PollEPs_path elim: rtranclp_trans)

text \<open>A scan keeps the invariant from entry to entry.\<close>

lemma scan_path:
  assumes inv: "linv w" and env: "inotify_ok e" "proc_ok e" and g: "w_gen w \<noteq> -1"
    and run: "lookoutLsof e w = Inr (err, w')"
  shows "fstep\<^sup>*\<^sup>* w w'"
proof (cases "e_readdir e ''/proc''")
  case (Inr entries)
  with run have loop: "for_each (lsof_entry e) entries (bump_gen w) = Inr w'"
    by (auto simp: lookoutLsof_def bindr_eq_Inr)
  have "linv w' \<and> fstep\<^sup>*\<^sup>* (bump_gen w) w'"
  proof (rule for_each_path [OF _ _ loop])
    show "linv (bump_gen w)" by (rule bump_gen_inv [OF inv g])
  next
    fix en v v' assume en: "en \<in> set entries" and v: "linv v" and r: "lsof_entry e en v = Inr v'"
    have ne: "fst en \<noteq> []" using env(2) Inr en by (simp add: proc_ok_def)
    have "fstep v v'" using env(1) ne r by (auto intro: fstep.entry)
    then show "linv v' \<and> fstep\<^sup>*\<^sup>* v v'"
      using lsof_entry_inv [OF v env(1) ne] r by auto
  qed
  then show ?thesis using fstep.tick [OF g] by (blast intro: converse_rtranclp_into_rtranclp)
qed (use run in \<open>simp add: lookoutLsof_def\<close>)

lemma lstep_path:
  assumes inv: "linv w" and "lstep w w'"
  shows "fstep\<^sup>*\<^sup>* w w'"
  using assms(2)
proof (cases rule: lstep.cases)
  case (scan e err)
  then show ?thesis by (intro scan_path [OF inv])
next
  case (round ord1 ord2 e)
  show ?thesis by (rule round_path [OF round(3)])
qed (auto intro: fstep.event fstep.mark)

lemma lsteps_path:
  assumes "linv w" and "lstep\<^sup>*\<^sup>* w w'"
  shows "fstep\<^sup>*\<^sup>* w w'"
  using assms(2)
proof (induction rule: rtranclp_induct)
  case (step y z)
  then show ?case using lstep_path [of y z] lk.path_I [OF assms(1)] by (blast intro: rtranclp_trans)
qed simp

lemma Start_parts:
  assumes "Start e v = Inr (None, w)"
  shows "\<exists>w0 w1 err w2. epInotifyStart e (InitializeEpMap v) = Inr w0 \<and> writePromPath e w0 = (None, w1) \<and>
    lookoutLsof e w1 = Inr (err, w2) \<and> monitor_start w2 = Inr w"
proof (cases "e_stat e (lh_CTLPath (w_lh v))")
  case (Inr st)
  from assms obtain w0 where w0: "epInotifyStart e (InitializeEpMap v) = Inr w0"
    by (auto simp: Start_def Inr bindr_eq_Inr)
  obtain er w1 where w1: "writePromPath e w0 = (er, w1)" by force
  show ?thesis
  proof (cases er)
    case None
    with assms w0 w1 Inr show ?thesis by (auto simp: Start_def bindr_eq_Inr)
  qed (use assms w0 w1 Inr in \<open>simp add: Start_def\<close>)
qed (use assms in \<open>simp add: Start_def\<close>)

text \<open>A start-up is a run from the state in which the event loop starts.\<close>

lemma started_path:
  assumes "started w"
  obtains w0 where "booted w0" "fstep\<^sup>*\<^sup>* w0 w"
proof -
  from assms obtain e v where env: "inotify_ok e" "proc_ok e"
    and v: "w_neps v = 0" "lh_state (w_lh v) = BOOTING" "w_gen v = 0" and st: "Start e v = Inr (None, w)"
    by (auto simp: started_def)
  from Start_parts [OF st] obtain w0 w1 err w2 where w0: "epInotifyStart e (InitializeEpMap v) = Inr w0"
    and w1: "writePromPath e w0 = (None, w1)" and w2: "lookoutLsof e w1 = Inr (err, w2)"
    and w: "monitor_start w2 = Inr w" by blast
  have b: "booted w0" using env v w0 unfolding booted_def by blast
  have i: "linv w0" "w_gen w0 = 0"
    using epInotifyStart_inv [OF env(1), of "InitializeEpMap v"] v w0 by (simp_all add: InitializeEpMap_def)
  note p = writePromPath_inv [OF w1]
  have "fstep\<^sup>*\<^sup>* w1 w2" by (rule scan_path [OF _ env _ w2]) (use i p in auto)
  then have "fstep\<^sup>*\<^sup>* w0 w"
    using fstep.prom [OF w1] fstep.monitor [OF w]
    by (meson converse_rtranclp_into_rtranclp rtranclp.rtrancl_into_rtrancl)
  with b that show ?thesis by blast
qed

lemma fsteps_gsteps: "fstep\<^sup>*\<^sup>* w w' \<Longrightarrow> gstep\<^sup>*\<^sup>* w w'"
  by (erule rtranclp_mono [THEN predicate2D, rotated]) (auto simp: gstep_def)

text \<open>So what a started lookout reaches by whole handlers is reached by steps from the boot.\<close>

lemma run_path:
  assumes "started w0" and "lstep\<^sup>*\<^sup>* w0 w"
  obtains v where "booted v" "gstep\<^sup>*\<^sup>* v w"
proof (rule started_path [OF assms(1)])
  fix v assume v: "booted v" "fstep\<^sup>*\<^sup>* v w0"
  then have "fstep\<^sup>*\<^sup>* v w" using lsteps_path [OF started_inv [OF assms(1)] assms(2)] by (blast intro: rtranclp_trans)
  with v(1) that show thesis by (blast intro: fsteps_gsteps)
qed

section \<open>A clean-up in the middle of a scan\<close>

text \<open>
  The generation counter is stepped before the processes are looked at. An endpoint that the last scan has
  missed is therefore removed by a clean-up that comes before the entry of the running scan that has it.
\<close>

lemma one_missed_scan_gens:
  assumes inv: "linv w" and r: "r < w_neps w" and late: "ep_lsofGen (w_eps w r) + 1 = w_gen w" and g: "w_gen w \<noteq> -1"
  shows "\<not> ep_lsofGen (w_eps w r) + 1 < w_gen w" "ep_lsofGen (w_eps w r) + 1 < w_gen (bump_gen w)"
  using word_gen_succ [OF g] late by (simp_all add: word_less_nat_alt)

lemma CleanEP_at:
  assumes "linv w" and "r < w_neps w"
  shows "\<exists>w'. CleanEP e r w = Inr w' \<and> linv w' \<and> frame_ep r w w' \<and>
    w_eps w' r = cleaned e (w_gen w) (w_cmds w) (w_eps w r)"
  using ends_returns [OF CleanEP_eq [OF assms, of e]] by auto

lemma removed_mid_scan:
  assumes inv: "linv w" and r: "r < w_neps w" and st: "ep_State (w_eps w r) \<noteq> EPstateRunning"
    and late: "ep_lsofGen (w_eps w r) + 1 = w_gen w" and g: "w_gen w \<noteq> -1"
  shows "\<exists>w1. CleanEP e r w = Inr w1 \<and> ep_State (w_eps w1 r) = ep_State (w_eps w r)"
    and "\<exists>w2. CleanEP e r (bump_gen w) = Inr w2 \<and> linv w2 \<and> frame_ep r (bump_gen w) w2 \<and>
      ep_State (w_eps w2 r) = EPstateRemoving \<and> \<not> ep_watched (w_eps w2 r)"
proof -
  note gens = one_missed_scan_gens [OF inv r late g]
  from CleanEP_at [OF inv r, of e] show "\<exists>w1. CleanEP e r w = Inr w1 \<and> ep_State (w_eps w1 r) = ep_State (w_eps w r)"
    using gens(1) st by (auto simp: cleaned_def Let_def)
  have "r < w_neps (bump_gen w)" using r by simp
  from CleanEP_at [OF bump_gen_inv [OF inv g] this, of e]
  show "\<exists>w2. CleanEP e r (bump_gen w) = Inr w2 \<and> linv w2 \<and> frame_ep r (bump_gen w) w2 \<and>
      ep_State (w_eps w2 r) = EPstateRemoving \<and> \<not> ep_watched (w_eps w2 r)"
    using gens(2) st by (auto simp: cleaned_def Let_def)
qed

section \<open>What can stop a handler\<close>

text \<open>The bodies of the goroutines, each from a consistent state.\<close>

lemma endpoint_work_returns:
  assumes inv: "linv w" and u: "map_of (w_epMap w) u = Some r"
  shows "returns (CleanEP e r w)" "returns (Poll e r w)"
proof -
  note r = inv_lookup(1) [OF inv u]
  show "returns (CleanEP e r w)" by (rule ends_mono [OF CleanEP_eq [OF inv r]]) simp_all
  show "returns (Poll e r w)" by (rule ends_mono [OF Poll_inv [OF inv r]]) simp_all
qed

end
