(* ===== verification/LookoutEffects.thy ===== *)
theory LookoutEffects
  imports LookoutFine
begin

text \<open>
  What the handlers do to the system, whatever state they start in: the files they write and remove, the
  directories they watch, the watches they give up. No handler reaches outside the endpoint directory but for
  the port file.
\<close>

section \<open>Confined effects\<close>

definition ep_path :: "env \<Rightarrow> LookoutHandler \<Rightarrow> uuid \<Rightarrow> string \<Rightarrow> string" where
  "ep_path e h u p = lh_CTLPath h @ ''/'' @ e_uuid_String e u @ p"

text \<open>
  The effects allowed: watching the endpoint directory and output directories; giving up watch \<open>-1\<close>; writing a
  query to the file of a command in an input directory, which asks for the answer in the file of that command;
  removing files whose names contain the lookout's prefix from input and output directories; adding the HTTP port
  to the port file.
\<close>

definition confined :: "env \<Rightarrow> LookoutHandler \<Rightarrow> sysop \<Rightarrow> bool" where
  "confined e h x =
     (case x of
        SysAddWatch p events \<Rightarrow>
          p = lh_CTLPath h \<and> events = IN_CREATE + IN_ATTRIB \<or>
          (\<exists>u. p = ep_path e h u EP_PATH_OUTPUT \<and> events = IN_MOVE_SELF + IN_MOVED_TO)
      | SysRmWatch d \<Rightarrow> d = -1
      | SysWriteFile p s \<Rightarrow>
          (\<exists>u c q. p = ep_path e h u EP_PATH_INPUT @ LookoutPrefixStr @ e_uuid_String e c \<and>
             s = ''GET /'' @ q @ nl @ ''OUTFILE /'' @ LookoutPrefixStr @ e_uuid_String e c @ nl)
      | SysRemove p \<Rightarrow>
          (\<exists>u d name. p = ep_path e h u d @ name \<and> d \<in> {EP_PATH_INPUT, EP_PATH_OUTPUT} \<and>
             Contains name LookoutPrefixStr)
      | SysAppendFile p s \<Rightarrow> p = lh_PromPath h \<and> s = Itoa (lh_HttpPort h))"

text \<open>A step that keeps the paths and the port, and appends confined effects only.\<close>

definition same_paths :: "LookoutHandler \<Rightarrow> LookoutHandler \<Rightarrow> bool" where
  "same_paths h h' = (lh_CTLPath h' = lh_CTLPath h \<and> lh_PromPath h' = lh_PromPath h \<and> lh_HttpPort h' = lh_HttpPort h)"

definition adds :: "env \<Rightarrow> world \<Rightarrow> world \<Rightarrow> bool" where
  "adds e w w' =
     (same_paths (w_lh w) (w_lh w') \<and>
      (\<exists>xs. w_sys w' = w_sys w @ xs \<and> list_all (confined e (w_lh w)) xs))"

lemma confined_cong: "same_paths h h' \<Longrightarrow> confined e h' = confined e h"
  by (auto simp: same_paths_def confined_def ep_path_def fun_eq_iff split: sysop.splits)

lemma adds_same: "same_paths (w_lh w) (w_lh w') \<Longrightarrow> w_sys w' = w_sys w \<Longrightarrow> adds e w w'"
  by (simp add: adds_def)

lemma adds_refl [simp]: "adds e w w"
  by (simp add: adds_def same_paths_def)

lemma adds_trans:
  assumes "adds e w w'" and "adds e w' w''"
  shows "adds e w w''"
proof -
  from assms obtain xs ys where xs: "w_sys w' = w_sys w @ xs" "list_all (confined e (w_lh w)) xs"
    and ys: "w_sys w'' = w_sys w' @ ys" "list_all (confined e (w_lh w')) ys" by (auto simp: adds_def)
  have p: "same_paths (w_lh w) (w_lh w')" "same_paths (w_lh w') (w_lh w'')" using assms by (auto simp: adds_def)
  then have "same_paths (w_lh w) (w_lh w'')" by (simp add: same_paths_def)
  moreover have "w_sys w'' = w_sys w @ (xs @ ys)" "list_all (confined e (w_lh w)) (xs @ ys)"
    using xs ys confined_cong [OF p(1), of e] by simp_all
  ultimately show ?thesis unfolding adds_def by blast
qed

lemma adds_sys: "confined e (w_lh w) x \<Longrightarrow> adds e w (sys x w)"
  by (simp add: adds_def same_paths_def)

lemma adds_upd [simp]:
  "adds e w (upd_ep r f w') = adds e w w'" "adds e w (upd_cmd c g w') = adds e w w'"
  "adds e w (upd_ino h w') = adds e w w'"
  by (simp_all add: adds_def same_paths_def)

text \<open>
  \<open>tame e w r\<close>: if the computation \<open>r\<close> that starts in \<open>w\<close> returns, it has added confined effects only.
\<close>

definition tame :: "env \<Rightarrow> world \<Rightarrow> world res \<Rightarrow> bool" where
  "tame e w r = (\<forall>w'. r = Inr w' \<longrightarrow> adds e w w')"

text \<open>The state in the result of a computation.\<close>

abbreviation state_of :: "('a \<times> world) res \<Rightarrow> world res" where
  "state_of r \<equiv> bindr r (\<lambda>x. Inr (snd x))"

lemma tame_simps [simp]: "tame e w (Inl h)" "tame e w (Inr w') = adds e w w'"
  by (simp_all add: tame_def)

lemma tame_bindr: "tame e w r \<Longrightarrow> (\<And>w1. tame e w1 (f w1)) \<Longrightarrow> tame e w (bindr r f)"
  by (cases r) (auto simp: tame_def intro: adds_trans)

lemma bindr_Inr [simp]: "bindr r Inr = r"
  by (cases r) simp_all

lemma tame_state: "tame e w (state_of r) \<Longrightarrow> (\<And>x w1. tame e w1 (f (x, w1))) \<Longrightarrow> tame e w (bindr r f)"
  by (cases r) (auto simp: tame_def intro: adds_trans)

lemma tame_after: "adds e w w1 \<Longrightarrow> tame e w1 r \<Longrightarrow> tame e w r"
  by (auto simp: tame_def intro: adds_trans)

lemma tame_for_each:
  assumes "\<And>k w. tame e w (f k w)"
  shows "tame e w (for_each f ks w)"
  by (induction ks arbitrary: w) (auto intro: tame_bindr assms)

section \<open>Watches\<close>

lemma Xpath_ep_path: "Xpath e w r p = ep_path e (w_lh w) (ep_Uuid (w_eps w r)) p"
  by (simp add: Xpath_def ep_path_def)

lemma EpWatchAdd_tame: "tame e w (state_of (EpWatchAdd e ep (IN_MOVE_SELF + IN_MOVED_TO) w))"
proof -
  have "confined e (w_lh w) (SysAddWatch (Xpath e w r EP_PATH_OUTPUT) (IN_MOVE_SELF + IN_MOVED_TO))" for r
    by (auto simp: confined_def Xpath_ep_path)
  then show ?thesis
    by (auto simp: EpWatchAdd_def Let_def adds_sys split: option.splits sum.splits)
qed

lemma EpWatchRemove_tame: "tame e w (EpWatchRemove ep w)"
proof -
  have "adds e w (sys (SysRmWatch (-1)) (upd_ep r f (upd_ino g w)))" for r f g
    by (rule adds_trans [of e w "upd_ep r f (upd_ino g w)"]) (simp_all add: adds_sys confined_def)
  then show ?thesis by (auto simp: EpWatchRemove_def Let_def split: option.splits)
qed

lemma watchCtl_tame: "tame e w (watchCtl e r s w)"
proof -
  have "tame e w (bindr (EpWatchAdd e (Some r) (IN_MOVE_SELF + IN_MOVED_TO) w) (\<lambda>(err, w).
      case err of None \<Rightarrow> Inr w | Some er \<Rightarrow> Inl (Exit ''ep.lh.EpWatchAdd()'')))"
    by (rule tame_state [OF EpWatchAdd_tame]) (auto split: option.splits)
  then show ?thesis
    by (auto simp: watchCtl_def Let_def intro!: tame_bindr EpWatchRemove_tame)
qed

lemma ChangeState_tame: "tame e w (ChangeState e r s w)"
proof -
  have "tame e w (bindr (watchCtl e r s w) (\<lambda>w. let w = upd_ep r (\<lambda>x. x\<lparr>ep_State := s\<rparr>) w in
        Inr (if s \<in> {EPstateInit, EPstateRunning, EPstateHasIdentity}
             then upd_ep r (\<lambda>x. x\<lparr>ep_LastSeen := e_now e\<rparr>) w else w)))"
    by (rule tame_bindr [OF watchCtl_tame]) (simp add: Let_def)
  then show ?thesis by (auto simp: ChangeState_def ensureWatchedState_def)
qed

section \<open>Commands\<close>

lemma submit_adds:
  assumes "HasPrefix (c_cmd (w_cmds w c)) ''GET /''"
  shows "adds e w (submit e c w)"
proof (cases "mayQueueCmd w (c_ep (w_cmds w c))")
  case True
  let ?w = "prep e c w"
  obtain q where q: "c_cmd (w_cmds w c) = ''GET /'' @ q" using assms by (auto simp: HasPrefix_iff)
  have p: "w_lh ?w = w_lh w" "w_sys ?w = w_sys w"
    "c_cmd (w_cmds ?w c) = c_cmd (w_cmds w c) @ nl @ ''OUTFILE /'' @ LookoutPrefixStr @
       e_uuid_String e (c_id (w_cmds ?w c)) @ nl"
    by (simp_all add: prep_def addCmd_def new_uuid_def Let_def)
  then have "adds e w ?w" by (intro adds_same) (simp_all add: same_paths_def)
  moreover have "confined e (w_lh ?w) (SysWriteFile (getInFnam e ?w c) (c_cmd (w_cmds ?w c)))"
    unfolding confined_def by (auto simp: p(3) getInFnam_def Xpath_ep_path q)
  then have "adds e ?w (sys (SysWriteFile (getInFnam e ?w c) (c_cmd (w_cmds ?w c))) ?w)" by (rule adds_sys)
  ultimately show ?thesis using True by (auto simp: submit_def Let_def intro: adds_trans)
qed (simp add: submit_def)

lemma AppDetectInfo_GET: "HasPrefix (fst (GetAppDetectInfo a b)) ''GET /''"
  by (cases a) (simp_all add: HasPrefix_def Pmdb_GetAppDetectInfo_def Syst_GetAppDetectInfo_def)

lemma new_cmd_fields:
  "fst (new_cmd x w) = w_ncmds w" "w_lh (snd (new_cmd x w)) = w_lh w"
  "w_sys (snd (new_cmd x w)) = w_sys w" "w_cmds (snd (new_cmd x w)) (w_ncmds w) = x"
  by (simp_all add: new_cmd_def)

lemma queryApp_tame: "tame e w (state_of (queryApp e r w))"
proof (cases "ep_App (w_eps w r)")
  case (Some a)
  let ?q = "\<lambda>b. \<lparr>c_ep = r, c_cmd = fst (GetAppDetectInfo a b), c_id = 0, c_outJSON = [], c_err = None,
      c_op = snd (GetAppDetectInfo a b), c_start = zero_time\<rparr>"
  let ?n = "w_ncmds w" and ?w1 = "snd (new_cmd (?q False) w)"
  let ?w2 = "submit e ?n ?w1"
  have "adds e w ?w1" by (rule adds_same) (simp_all add: new_cmd_fields(2-4) same_paths_def)
  moreover have "adds e ?w1 ?w2" by (rule submit_adds) (simp add: new_cmd_fields(2-4) AppDetectInfo_GET)
  moreover have "adds e (upd_cmd ?n (\<lambda>_. ?q True) ?w2) (submit e ?n (upd_cmd ?n (\<lambda>_. ?q True) ?w2))"
    by (rule submit_adds) (simp add: AppDetectInfo_GET)
  moreover have "adds e ?w2 (upd_cmd ?n (\<lambda>_. ?q True) ?w2)" by simp
  ultimately have "adds e w ?w2" "adds e w (submit e ?n (upd_cmd ?n (\<lambda>_. ?q True) ?w2))"
    by (blast intro: adds_trans)+
  then show ?thesis
    unfolding queryApp_def Some option.case case_prod_beta Let_def new_cmd_fields(1) [of "?q False" w] fst_conv snd_conv
    by simp
qed (simp add: queryApp_def)

lemma removeCmd_adds: "adds e w (snd (removeCmd e r u b w))"
  by (simp add: removeCmd_def split: option.splits)

lemma loadOutfile_adds: "adds e w (loadOutfile e c w)"
  by (simp add: loadOutfile_def split: option.splits sum.splits)

lemma update_tame: "tame e w (update e r ctl w)"
proof -
  have "tame e w (ChangeState e r s (upd_ep r f w))" for f s
    by (rule tame_after [of e w "upd_ep r f w"]) (simp_all add: ChangeState_tame)
  then show ?thesis by (simp add: update_def Let_def split: option.splits)
qed

lemma identify_tame:
  "tame e w (bindr (ChangeState e r EPstateHasIdentity (set_identity e r a w)) (\<lambda>w.
      state_of (bindr (queryApp e r w) (\<lambda>(_, w). Inr ((None :: goerr option, output :: string option), w)))))"
proof (rule tame_bindr)
  show "tame e w (ChangeState e r EPstateHasIdentity (set_identity e r a w))"
    by (rule tame_after [of e w "set_identity e r a w"]) (simp_all add: set_identity_def ChangeState_tame)
  show "tame e w1 (state_of (bindr (queryApp e r w1) (\<lambda>(_, w). Inr ((None :: goerr option, output :: string option), w))))" for w1
    unfolding bindr_assoc by (rule tame_state [OF queryApp_tame]) simp
qed

text \<open>What a completed command does after its output is loaded.\<close>

definition completed :: "env \<Rightarrow> ep_ref \<Rightarrow> cmd_ref \<Rightarrow> string option \<Rightarrow> world \<Rightarrow> ((goerr option \<times> string option) \<times> world) res" where
  "completed e r c output w =
     (let out = c_outJSON (w_cmds w c)
               in case c_op (w_cmds w c) of
                    CustomOp \<Rightarrow>
                      (case output of
                         None \<Rightarrow> Inl nil_deref
                       | Some _ \<Rightarrow> Inr ((None, Some out), w))
                  | IdentifyOp \<Rightarrow>
                      (let (a, err) = DetermineApp e out
                       in case err of
                            None \<Rightarrow>
                              bindr (ChangeState e r EPstateHasIdentity (set_identity e r a w)) (\<lambda>w.
                              bindr (queryApp e r w) (\<lambda>(_, w). Inr ((None, output), w)))
                          | Some _ \<Rightarrow>
                              Inr ((None, output), upd_ep r (\<lambda>x. x\<lparr>ep_App := Some a\<rparr>) w))
                  | RaftInfoOp \<Rightarrow> Inr ((None, output), w)
                  | _ \<Rightarrow>
                      (case Unmarshal_ctl e out of
                         Inl err \<Rightarrow> Inr ((Some err, output), w)
                       | Inr ctl \<Rightarrow> bindr (update e r ctl w) (\<lambda>w. Inr ((None, output), w))))"

lemma completed_tame: "tame e w (state_of (completed e r c output w))"
proof (cases "c_op (w_cmds w c)")
  case IdentifyOp
  obtain a err where d: "DetermineApp e (c_outJSON (w_cmds w c)) = (a, err)" by force
  with IdentifyOp identify_tame show ?thesis
    by (cases err) (simp_all add: completed_def bindr_assoc)
qed (auto simp: completed_def bindr_assoc Let_def split: option.splits sum.splits
      intro!: tame_bindr [where f = "\<lambda>w. Inr w"] update_tame)

lemma Complete_tame: "tame e w (state_of (Complete e r u output w))"
proof -
  obtain c w1 where rem: "removeCmd e r u True w = (c, w1)" by force
  then have w1: "adds e w w1" using removeCmd_adds [of e w r u True] by simp
  show ?thesis
  proof (cases c)
    case None
    with rem w1 show ?thesis by (simp add: Complete_def)
  next
    case (Some c')
    let ?w = "loadOutfile e c' w1"
    have w2: "adds e w ?w" by (rule adds_trans [OF w1 loadOutfile_adds])
    have "Complete e r u output w =
        (if c_err (w_cmds ?w c') \<noteq> None then Inr ((c_err (w_cmds ?w c'), output), ?w)
         else bindr (if ep_State (w_eps ?w r) = EPstateDown then ChangeState e r EPstateRunning ?w else Inr ?w)
           (completed e r c' output))"
      unfolding Complete_def rem Some completed_def [abs_def] by (simp add: Let_def)
    moreover have "tame e ?w (state_of (bindr (if ep_State (w_eps ?w r) = EPstateDown
        then ChangeState e r EPstateRunning ?w else Inr ?w) (completed e r c' output)))"
      unfolding bindr_assoc by (rule tame_bindr) (simp_all add: ChangeState_tame completed_tame)
    ultimately show ?thesis using w2 by (auto intro: tame_after)
  qed
qed

section \<open>Files\<close>

lemma removeFiles_adds:
  assumes "d \<in> {EP_PATH_INPUT, EP_PATH_OUTPUT}" and "folder = ep_path e (w_lh w) u d"
  shows "adds e w (removeFiles e folder w)"
proof -
  have one: "adds e v (remove_file e folder name v)" if "folder = ep_path e (w_lh v) u d" for v name
  proof (cases "Contains name LookoutPrefixStr")
    case True
    then have "confined e (w_lh v) (SysRemove (folder @ name))" using assms(1) that by (auto simp: confined_def)
    then show ?thesis by (simp add: remove_file_def adds_sys split: sum.splits)
  qed (simp add: remove_file_def)
  have lh: "w_lh (remove_file e folder name v) = w_lh v" for v name
    by (simp add: remove_file_def split: sum.splits)
  have "adds e v (fold (\<lambda>file w. remove_file e folder (fst file) w) files v)"
    if "folder = ep_path e (w_lh v) u d" for files :: "(string \<times> bool) list" and v
    using that
  proof (induction files arbitrary: v)
    case (Cons f files)
    let ?v = "remove_file e folder (fst f) v"
    have "adds e v ?v" by (rule one [OF Cons.prems])
    moreover have "adds e ?v (fold (\<lambda>file w. remove_file e folder (fst file) w) files ?v)"
      by (rule Cons.IH) (subst lh, rule Cons.prems)
    ultimately show ?case by (auto intro: adds_trans)
  qed simp
  from this [OF assms(2)] show ?thesis by (simp add: removeFiles_def split: sum.splits)
qed

lemma RemoveStaleFiles_adds: "adds e w (RemoveStaleFiles e r w)"
proof -
  let ?w = "removeFiles e (Xpath e w r EP_PATH_INPUT) w"
  have i: "adds e w ?w" by (rule removeFiles_adds) (auto simp: Xpath_ep_path)
  then have "ep_path e (w_lh ?w) u p = ep_path e (w_lh w) u p" for u p
    by (simp add: adds_def same_paths_def ep_path_def)
  then have "adds e ?w (removeFiles e (Xpath e w r EP_PATH_OUTPUT) ?w)"
    by (intro removeFiles_adds [of EP_PATH_OUTPUT _ _ _ "ep_Uuid (w_eps w r)"]) (simp_all add: Xpath_ep_path)
  with i show ?thesis by (auto simp: RemoveStaleFiles_def intro: adds_trans)
qed

lemma flushStaleCmds_adds: "adds e w (flushStaleCmds e r w)"
proof -
  have "adds e w (fold (\<lambda>x w. snd (removeCmd e r x b w)) ids w)" for ids b w
    by (induction ids arbitrary: w) (auto intro: adds_trans removeCmd_adds)
  then show ?thesis by (simp add: flushStaleCmds_def flushCmds_def)
qed

section \<open>Handlers\<close>

lemma CleanEP_tame: "tame e w (CleanEP e r w)"
proof -
  let ?w = "RemoveStaleFiles e r (flushStaleCmds e r w)"
  have "adds e w ?w" by (rule adds_trans [OF flushStaleCmds_adds RemoveStaleFiles_adds])
  moreover have "tame e ?w (ChangeState e r s ?w)" for s by (rule ChangeState_tame)
  ultimately show ?thesis by (auto simp: CleanEP_def Let_def intro: tame_after)
qed

lemma Poll_tame: "tame e w (state_of (Poll e r w))"
proof -
  have q: "tame e w (state_of (bindr (queryApp e r w) f))" if "\<And>x w1. tame e w1 (state_of (f (x, w1)))" for f :: "_ \<Rightarrow> (goerr option \<times> world) res"
    unfolding bindr_assoc by (rule tame_state [OF queryApp_tame]) (rule that)
  have i: "adds e w (submit e (w_ncmds w) (snd (new_cmd \<lparr>c_ep = r, c_cmd = ''GET /.*'', c_id = u, c_outJSON = [], c_err = None,
      c_op = IdentifyOp, c_start = zero_time\<rparr> (w\<lparr>w_uuids := k\<rparr>))))" for u k
    by (rule adds_trans [OF adds_same submit_adds]) (simp_all add: new_cmd_def same_paths_def HasPrefix_def)
  show ?thesis
  proof (cases "ep_State (w_eps w r)")
    case EPstateInit
    then show ?thesis using i by (simp add: Poll_def new_uuid_def new_cmd_def)
  next
    case EPstateRunning
    have "tame e w1 (state_of (if LastSeenIsStale e w1 r \<and> ep_State (w_eps w1 r) = EPstateRunning
        then bindr (ChangeState e r EPstateDown w1) (\<lambda>w. Inr (x, w)) else Inr (x, w1)))" for x :: "goerr option" and w1
      by (auto simp: bindr_assoc intro: tame_bindr [where f = "\<lambda>w. Inr w"] ChangeState_tame)
    with EPstateRunning q show ?thesis by (simp add: Poll_def case_prod_beta)
  qed (simp_all add: Poll_def queryApp_tame)
qed

lemma CleanEPs_tame: "tame e w (CleanEPs e ord w)"
  unfolding CleanEPs_def by (rule tame_for_each) (simp add: CleanEP_tame split: option.splits)

lemma PollEPs_tame: "tame e w (PollEPs e ord w)"
  unfolding PollEPs_def
proof (rule tame_for_each)
  fix u w
  have "tame e w (bindr (Poll e r w) (\<lambda>(err, w). Inr w))" for r by (rule tame_state [OF Poll_tame]) simp
  then show "tame e w (case map_of (w_epMap w) u of None \<Rightarrow> Inr w | Some r \<Rightarrow> bindr (Poll e r w) (\<lambda>(err, w). Inr w))"
    by (simp split: option.splits)
qed

lemma AddEp_tame: "tame e w (state_of (AddEp e u w))"
proof (cases "map_of (w_epMap w) u")
  case None
  have "tame e v (ChangeState e r EPstateInit v)" for v r by (rule ChangeState_tame)
  moreover have "adds e w (snd (alloc_ep x w))" for x by (rule adds_same) (simp_all add: alloc_ep_def same_paths_def)
  moreover have "adds e v (v\<lparr>w_epc := c\<rparr>)" for v c by (rule adds_same) (simp_all add: same_paths_def)
  ultimately have "tame e w (bindr (ChangeState e (w_neps w) EPstateInit (snd (alloc_ep x w)))
      (\<lambda>w. Inr (w\<lparr>w_epc := c w\<rparr>)))" for x c
    by (intro tame_bindr) (auto intro: tame_after)
  with None show ?thesis by (simp add: AddEp_def bindr_assoc alloc_ep_def)
next
  case (Some r)
  have "tame e w (LsofGenUpdate r g w)" for g by (simp add: LsofGenUpdate_def)
  then have "tame e w (bindr (LsofGenUpdate r (w_gen w) w) (\<lambda>w. if P w then ChangeState e r (s w) w else Inr w))" for P s
    by (intro tame_bindr) (auto intro: ChangeState_tame)
  with Some show ?thesis by (simp add: AddEp_def bindr_assoc Let_def)
qed

lemma processEvent_tame: "tame e w (processEvent e ev w)"
proof -
  have "tame e w (bindr (AddEp e u w) (\<lambda>(_, w). Inr w))" for u by (rule tame_state [OF AddEp_tame]) simp
  moreover have "tame e w (bindr (Complete e r u None w) (\<lambda>(_, w). Inr w))" for r u
    by (rule tame_state [OF Complete_tame]) simp
  ultimately show ?thesis by (auto simp: processEvent_def Let_def split: sum.splits option.splits)
qed

lemma lsof_entry_tame: "tame e w (lsof_entry e en w)"
proof -
  have add: "tame e w (LsofGenAddOrUpdateEp e u w)" for u
    unfolding LsofGenAddOrUpdateEp_def by (rule tame_state [OF AddEp_tame]) simp
  then have "tame e w (lsof_fds e dir fds w)" for dir fds
    by (induction fds) (auto split: sum.splits)
  then show ?thesis by (auto simp: lsof_entry_def Let_def split: list.splits sum.splits)
qed

lemma lookoutLsof_tame: "tame e w (state_of (lookoutLsof e w))"
proof (cases "e_readdir e ''/proc''")
  case (Inr entries)
  have "adds e w (bump_gen w)" by (rule adds_same) (simp_all add: bump_gen_def same_paths_def)
  then have "tame e w (for_each (lsof_entry e) entries (bump_gen w))"
    by (rule tame_after) (rule tame_for_each [OF lsof_entry_tame])
  with Inr show ?thesis by (simp add: lookoutLsof_def bindr_assoc)
qed (simp add: lookoutLsof_def)

lemma round_tame:
  assumes "monitor_round e ord1 ord2 w = Inr (Some w')"
  shows "adds e w w'"
proof -
  have "tame e w (bindr (CleanEPs e ord1 w) (PollEPs e ord2))" by (rule tame_bindr [OF CleanEPs_tame PollEPs_tame])
  moreover have "bindr (CleanEPs e ord1 w) (PollEPs e ord2) = Inr w'"
    using assms by (auto simp: monitor_round_def bindr_eq_Inr split: if_splits)
  ultimately show ?thesis by simp
qed

lemma epInotifyStart_tame: "tame e w (epInotifyStart e w)"
proof -
  have "adds e w (sys (SysAddWatch (lh_CTLPath (w_lh w)) (IN_CREATE + IN_ATTRIB)) w')"
    if "adds e w w'" for w'
    using that by (auto intro!: adds_trans [OF that adds_sys] simp: confined_def adds_def same_paths_def)
  then show ?thesis
    by (cases "e_inotify_init e"; cases "e_add_watch e (lh_CTLPath (w_lh w))")
      (simp_all add: epInotifyStart_def)
qed

lemma writePromPath_adds: "adds e w (snd (writePromPath e w))"
proof -
  have "adds e w (sys (SysAppendFile (lh_PromPath (w_lh w)) (Itoa (lh_HttpPort (w_lh w)))) w)"
    by (rule adds_sys) (simp add: confined_def)
  then show ?thesis by (simp add: writePromPath_def Let_def split: option.splits)
qed

lemma monitor_start_tame: "tame e w (monitor_start w)"
  unfolding monitor_start_def by (auto intro!: adds_same simp: same_paths_def)

lemma Start_tame: "tame e w (state_of (Start e w))"
proof -
  have w0: "adds e w (InitializeEpMap w)" by (rule adds_same) (simp_all add: InitializeEpMap_def same_paths_def)
  have rest: "tame e v (bindr (lookoutLsof e v) (\<lambda>(_, w). state_of (bindr (monitor_start w) (\<lambda>w. Inr (None :: goerr option, w)))))" for v
    by (rule tame_state [OF lookoutLsof_tame]) (simp add: bindr_assoc monitor_start_tame)
  have "tame e v (state_of (let (err, w) = writePromPath e v in
          case err of
            Some er \<Rightarrow> Inr (Some er, w)
          | None \<Rightarrow> bindr (lookoutLsof e w) (\<lambda>(_, w). bindr (monitor_start w) (\<lambda>w. Inr (None, w)))))" for v
    using tame_after [OF writePromPath_adds [of e v] rest] writePromPath_adds [of e v]
    by (cases "writePromPath e v"; cases "fst (writePromPath e v)") (simp_all add: bindr_assoc split_def)
  then have "tame e w (bindr (epInotifyStart e (InitializeEpMap w)) (\<lambda>w. state_of (let (err, w) = writePromPath e w in
          case err of
            Some er \<Rightarrow> Inr (Some er, w)
          | None \<Rightarrow> bindr (lookoutLsof e w) (\<lambda>(_, w). bindr (monitor_start w) (\<lambda>w. Inr (None, w))))))"
    by (intro tame_bindr tame_after [OF w0 epInotifyStart_tame])
  then show ?thesis by (simp add: Start_def bindr_assoc split: sum.splits)
qed

end
