(* ===== verification/EndpointLog.thy ===== *)
theory EndpointLog
  imports ContainerInv Xlog
begin

text \<open>
  The endpoint's own log methods of \<open>ctl_interface.go\<close>, \<open>LogWithDepth\<close> and \<open>Log\<close>, which put the endpoint's
  identity and state before a message, and the call sites the lines they and the helpers of
  \<open>xlog.go\<close> make are reported for.
\<close>

section \<open>The methods\<close>

definition millisecond :: gotime where "millisecond = 1000000"

text \<open>\<open>Duration.Truncate\<close>, which rounds towards zero.\<close>

definition Truncate :: "gotime \<Rightarrow> gotime \<Rightarrow> gotime" where
  "Truncate d m = (if 0 \<le> d then d - d mod m else d + (- d) mod m)"

text \<open>\<open>time.Since\<close> keeps to the range of a duration.\<close>

definition Since :: "env \<Rightarrow> gotime \<Rightarrow> gotime" where
  "Since e t = max min_int64 (min max_int64 (e_now e - t))"

definition prefixFormat :: string where
  "prefixFormat = ''%s@%s s=%s pc=%d age=%s lg=%d wid=%d''"

definition LogWithDepth :: "env \<Rightarrow> ep_ref \<Rightarrow> int \<Rightarrow> int \<Rightarrow> string \<Rightarrow> garg list \<Rightarrow> world \<Rightarrow> lcall res" where
  "LogWithDepth e r level depth format args w =
     (let ep = w_eps w r in
      case ep_App ep of
        None \<Rightarrow> Inl nil_deref
      | Some a \<Rightarrow>
          let prefixArgs =
                [AVal (GetAppName a), AVal (e_uuid_String e (ep_Uuid ep)), AVal (Epstate_String (ep_State ep)),
                 AInt (int (length (ep_pendingCmds ep))), ADuration (Truncate (Since e (ep_LastSeen ep)) millisecond),
                 AInt (uint (ep_lsofGen ep)), AInt (sint (ep_wid ep))];
              (combinedFmt, combinedArgs) =
                (if format \<noteq> [] then
                   (prefixFormat @ '' :: '' @ format, if length args > 0 then prefixArgs @ args else prefixArgs)
                 else (prefixFormat, prefixArgs))
          in Inr (WithDepth level (1 + depth) combinedFmt combinedArgs))"

definition Log :: "env \<Rightarrow> ep_ref \<Rightarrow> int \<Rightarrow> string \<Rightarrow> garg list \<Rightarrow> world \<Rightarrow> lcall res" where
  "Log e r level format args w = LogWithDepth e r level 1 format args w"

section \<open>What they log\<close>

text \<open>In a consistent state a message about an allocated endpoint never fails.\<close>

lemma LogWithDepth_returns:
  assumes "linv w" and "r < w_neps w"
  obtains a where "ep_App (w_eps w r) = Some a"
    and "LogWithDepth e r level depth format args w = Inr (WithDepth level (1 + depth)
       (if format = [] then prefixFormat else prefixFormat @ '' :: '' @ format)
       ([AVal (GetAppName a), AVal (e_uuid_String e (ep_Uuid (w_eps w r))), AVal (Epstate_String (ep_State (w_eps w r))),
         AInt (int (length (ep_pendingCmds (w_eps w r)))), ADuration (Truncate (Since e (ep_LastSeen (w_eps w r))) millisecond),
         AInt (uint (ep_lsofGen (w_eps w r))), AInt (sint (ep_wid (w_eps w r)))] @ (if format = [] then [] else args)))"
proof -
  have "app_ok w r" using assms by (simp add: linv_def ep_ok_def)
  then obtain a where "ep_App (w_eps w r) = Some a" unfolding app_ok_def Let_def by blast
  then show ?thesis by (intro that [of a]) (auto simp: LogWithDepth_def Let_def)
qed

section \<open>Call sites\<close>

text \<open>The frame \<open>Format\<close> takes the file, the line and the function of a message from.\<close>

definition line_site :: "lcall \<Rightarrow> frame list \<Rightarrow> frame option" where
  "line_site c frames = find_site 100 (case lc_depth c of None \<Rightarrow> 0 | Some d \<Rightarrow> d) frames"

text \<open>The frames of the logger are skipped, however many there are.\<close>

lemma find_site_skip:
  assumes "list_all (\<lambda>f. \<not> external f) inner" and "length inner \<le> k"
  shows "find_site k depth (inner @ fs) = find_site (k - length inner) depth fs"
  using assms
proof (induction inner arbitrary: k)
  case (Cons f inner)
  then show ?case by (cases k) simp_all
qed simp

lemma find_site_nth:
  assumes "list_all external fs" and "n < length fs" and "n < k"
  shows "find_site k (int n) (fs @ gs) = Some (fs ! n)"
  using assms
proof (induction fs arbitrary: n k)
  case (Cons f fs)
  then obtain k' where "k = Suc k'" by (cases k) auto
  with Cons show ?case by (cases n) simp_all
qed simp

lemma find_site_stack:
  assumes "list_all (\<lambda>f. \<not> external f) inner" and "list_all external outer"
    and "n < length outer" and "length inner + n < 100"
  shows "find_site 100 (int n) (inner @ outer @ rest) = Some (outer ! n)"
  using assms find_site_nth [of outer n "100 - length inner" rest] by (simp add: find_site_skip)

end
