(* ===== verification/Lab.thy ===== *)
theory Lab
  imports LookoutSystem
begin

text \<open>
  A small concrete machine on which the theorems about the running lookout are instantiated: one process
  holds the control interface of one endpoint open; the kernel knows two directories, the endpoint
  directory and the endpoint's output directory.
\<close>

definition lab_uuid :: uuid where "lab_uuid = 7"

definition lab_ctl :: string where "lab_ctl = ''/tmp/.niova''"

definition lab_out :: string where
  "lab_out = ''/tmp/.niova/00000000-0000-0000-0000-000000000007/output/''"

definition lab_env :: env where
  "lab_env = demo_env
     \<lparr>e_add_watch := (\<lambda>p. if p = lab_ctl then Inr 1 else if p = lab_out then Inr 2 else Inl ENOENT),
      e_readdir := (\<lambda>p. if p = ''/proc'' then Inr [(''7'', True), (''self'', True)]
                        else if p = ''/proc/7/fd'' then Inr [(''0'', False), (''3'', False)] else Inr []),
      e_readlink := (\<lambda>p. if p = ''/proc/7/fd/3''
                         then Inr ''/tmp/.niova/00000000-0000-0000-0000-000000000007/input'' else Inl ENOENT),
      e_uuid_New := (\<lambda>n. of_nat (Suc n))\<rparr>"

definition boot_world :: world where
  "boot_world =
     \<lparr>w_lh = \<lparr>lh_PromPath = ''./targets.json'', lh_HttpPort = 80, lh_CTLPath = lab_ctl, lh_lsofGen = 0,
              lh_state = BOOTING, lh_inotify = \<lparr>ino_ifd = 0, ino_wd = 0, ino_wmap = []\<rparr>\<rparr>,
      w_epc = \<lparr>epc_MonitorUUID = ''*'', epc_epMap = []\<rparr>,
      w_eps = (\<lambda>_. new_ep 0 0), w_neps = 0,
      w_cmds = (\<lambda>_. \<lparr>c_ep = 0, c_cmd = [], c_id = 0, c_outJSON = [], c_err = None, c_op = IdentifyOp,
                      c_start = zero_time\<rparr>), w_ncmds = 0, w_uuids = 0, w_sys = []\<rparr>"

definition outcome :: "world \<Rightarrow> 'a res \<Rightarrow> ('a \<Rightarrow> world) \<Rightarrow> world" where
  "outcome d r f = (case r of Inr x \<Rightarrow> f x | Inl _ \<Rightarrow> d)"

definition lab_world :: world where
  "lab_world = outcome boot_world (Start lab_env boot_world) snd"

lemma lab_Start: "Start lab_env boot_world = Inr (None, lab_world)"
proof -
  have "(case Start lab_env boot_world of Inr (None, _) \<Rightarrow> True | _ \<Rightarrow> False)" by code_simp
  then show ?thesis by (auto simp: lab_world_def outcome_def split: sum.splits option.splits)
qed

lemma lab_inotify: "inotify_ok lab_env"
  by (simp add: inotify_ok_def lab_env_def lab_ctl_def lab_out_def)

lemma lab_uuid_pkg: "uuid_pkg lab_env"
  using demo_uuid_pkg by (simp add: uuid_pkg_def lab_env_def)

lemma lab_proc_ok: "proc_ok lab_env"
  by (simp add: proc_ok_def lab_env_def)

lemma lab_started: "started lab_world"
  unfolding started_def
proof (intro exI conjI)
  show "Start lab_env boot_world = Inr (None, lab_world)" by (rule lab_Start)
qed (use lab_inotify lab_proc_ok in \<open>simp_all add: boot_world_def\<close>)

lemma lab_inv: "linv lab_world"
  by (rule started_inv [OF lab_started])

lemma lab_facts:
  "w_neps lab_world = 1" "w_epMap lab_world = [(7, 0)]" "w_wmap lab_world = [(2, 0)]"
  "ino_wd (w_ino lab_world) = 1" "w_gen lab_world = 1" "lh_state (w_lh lab_world) = RUNNING"
  "ep_State (w_eps lab_world 0) = EPstateInit" "ep_pendingCmds (w_eps lab_world 0) = []"
  "ep_Uuid (w_eps lab_world 0) = 7" "lh_CTLPath (w_lh lab_world) = lab_ctl"
  by code_simp+

lemma lab_Xpath: "Xpath lab_env lab_world 0 EP_PATH_OUTPUT = lab_out"
  by code_simp

text \<open>The first round asks the endpoint to identify itself.\<close>

definition lab_asked :: world where
  "lab_asked = outcome lab_world (monitor_round lab_env [7] [7] lab_world)
     (\<lambda>x. case x of Some w \<Rightarrow> w | None \<Rightarrow> lab_world)"

lemma lab_asked: "monitor_round lab_env [7] [7] lab_world = Inr (Some lab_asked)"
proof -
  have "(case monitor_round lab_env [7] [7] lab_world of Inr (Some _) \<Rightarrow> True | _ \<Rightarrow> False)" by code_simp
  then show ?thesis by (auto simp: lab_asked_def outcome_def split: sum.splits option.splits)
qed

lemma lab_range: "range_order [7] (w_epMap lab_world)"
  by (simp add: range_order_def lab_facts)

lemma lab_step: "lstep lab_world lab_asked"
  using lab_range lab_range lab_asked by (rule lstep.round)

text \<open>The answer to a pending command: a file with the command's uuid appears in the output directory.\<close>

definition lab_event :: "uuid \<Rightarrow> inotifyEvent" where
  "lab_event u = \<lparr>ev_Name = LookoutPrefixStr @ e_uuid_String lab_env u, ev_Wd = 2, ev_Mask = 0x80,
                  ev_Cookie = 0, ev_Len = 48\<rparr>"

definition after :: "world \<Rightarrow> world res \<Rightarrow> world" where
  "after d r = outcome d r id"

lemma after_Inr: "(case r of Inr _ \<Rightarrow> True | _ \<Rightarrow> False) \<Longrightarrow> r = Inr (after d r)"
  by (auto simp: after_def outcome_def split: sum.splits)

text \<open>
  A world with one endpoint in a given state, with a given application and queue; the endpoint is
  registered under descriptor 2 when its state is a watched one.
\<close>

definition lab_w :: "Epstate \<Rightarrow> App \<Rightarrow> (uuid, cmd_ref) gomap \<Rightarrow> EPcmdType \<Rightarrow> world" where
  "lab_w s a pend op =
     \<lparr>w_lh = \<lparr>lh_PromPath = ''./targets.json'', lh_HttpPort = 80, lh_CTLPath = lab_ctl, lh_lsofGen = 5,
              lh_state = RUNNING,
              lh_inotify = \<lparr>ino_ifd = 3, ino_wd = 1, ino_wmap = (if isWatchedState s then [(2, 0)] else [])\<rparr>\<rparr>,
      w_epc = \<lparr>epc_MonitorUUID = ''*'', epc_epMap = [(lab_uuid, 0)]\<rparr>,
      w_eps = (\<lambda>_. (new_ep lab_uuid 1)\<lparr>ep_State := s, ep_App := Some a, ep_LastSeen := 990 * second,
                 ep_pendingCmds := pend, ep_watched := isWatchedState s,
                 ep_wid := (if isWatchedState s then 2 else -1)\<rparr>), w_neps = 1,
      w_cmds = (\<lambda>_. \<lparr>c_ep = 0, c_cmd = ''GET /.*'', c_id = 2, c_outJSON = [], c_err = None, c_op = op,
                      c_start = 995 * second\<rparr>), w_ncmds = 1, w_uuids = 2, w_sys = []\<rparr>"

lemma lab_w_inv:
  assumes "s \<notin> {EPstateAny, EPstateUnknown}" and "app_data_ok a"
    and "s \<in> {EPstateHasIdentity, EPstateRunning, EPstateDown} \<Longrightarrow> recognized a"
    and "pend = [] \<or> pend = [(u, 0)] \<and> op \<noteq> CustomOp \<and>
       (if op = IdentifyOp then s \<in> {EPstateInit, EPstateRemoving} else recognized a)"
  shows "linv (lab_w s a pend op)"
  using assms
  by (auto simp: linv_def maps_ok_def ep_ok_def watch_ok_def app_ok_def pend_ok_def cmd_ok_def Let_def
      lab_w_def new_ep_def mwf_def split: if_splits)

lemma lab_identify:
  "let w = after boot_world (processEvent lab_env (lab_event 2)
        (lab_w EPstateInit (AUnrecognized new_Unrecognized) [(2, 0)] IdentifyOp))
   in ep_State (w_eps w 0) = EPstateHasIdentity \<and> map fst (ep_pendingCmds (w_eps w 0)) = [3]"
  by code_simp

lemma lab_first_answer:
  "let w = after boot_world (processEvent lab_env (lab_event 2)
        (lab_w EPstateHasIdentity (ANisd new_Nisd) [(2, 0)] NISDInfoOp))
   in ep_State (w_eps w 0) = EPstateRunning \<and> ep_pendingCmds (w_eps w 0) = []"
  by code_simp

text \<open>
  The identification query of an endpoint that a clean-up has taken out of service in the meantime: a late answer
  brings the endpoint back.
\<close>

lemma lab_late_answer:
  "let w = after boot_world (Process lab_env 7 2
        (lab_w EPstateRemoving (AUnrecognized new_Unrecognized) [(2, 0)] IdentifyOp))
   in ep_State (w_eps w 0) = EPstateHasIdentity \<and> ep_watched (w_eps w 0)"
  by code_simp

end
