(* ===== verification/GossipInv.thy ===== *)
theory GossipInv
  imports Gossip ContainerInv
begin

text \<open>
  What the gossip functions compute: the first occurrences of a list, a range of ports, the errors of
  the configuration file, and the round trip of an endpoint table through the tags of a lookout.
\<close>

section \<open>Configuration\<close>

lemma removeDuplicateStr_snoc:
  "removeDuplicateStr (xs @ [x]) =
     (if x \<in> set xs then removeDuplicateStr xs else removeDuplicateStr xs @ [x])"
proof -
  let ?f = "\<lambda>item (allKeys, ys). if map_of allKeys item = None
      then (mput item True allKeys, ys @ [item]) else (allKeys, ys)"
  have "map_of (fst (fold ?f xs (ks, ys))) x \<noteq> None \<longleftrightarrow> map_of ks x \<noteq> None \<or> x \<in> set xs" for ks ys
    by (induction xs arbitrary: ks ys) auto
  from this [of "[]" "[]"] show ?thesis
    by (auto simp: removeDuplicateStr_def case_prod_unfold)
qed

lemma removeDuplicateStr_eq: "removeDuplicateStr xs = rev (remdups (rev xs))"
proof (induction xs rule: rev_induct)
  case Nil
  then show ?case by (simp add: removeDuplicateStr_def)
next
  case (snoc x xs)
  then show ?case by (simp add: removeDuplicateStr_snoc)
qed

text \<open>The ports from the first to the last; the count and the ports are taken modulo \<open>2 ^ 16\<close>.\<close>

lemma makeRange_mod:
  "map unat (cm_PortRange (makeRange h)) =
     map (\<lambda>i. (unat (cm_ServicePortRangeS h) + i) mod 2 ^ 16)
       [0 ..< nat ((uint (cm_ServicePortRangeE h) - uint (cm_ServicePortRangeS h) + 1) mod 2 ^ 16)]"
proof -
  let ?s = "cm_ServicePortRangeS h" and ?e = "cm_ServicePortRangeE h"
  have "uint (?e - ?s + 1) = (uint ?e - uint ?s + 1) mod 2 ^ 16"
    by (simp add: uint_word_ariths mod_simps)
  then have n: "unat (?e - ?s + 1) = nat ((uint ?e - uint ?s + 1) mod 2 ^ 16)"
    by (simp only: unat_eq_nat_uint)
  have "unat (?s + of_nat i) = (unat ?s + i) mod 2 ^ 16" for i
    by (simp add: unat_word_ariths unat_of_nat mod_simps)
  then show ?thesis by (simp add: makeRange_def Let_def n comp_def)
qed

lemma makeRange_ports:
  assumes "uint (cm_ServicePortRangeS h) \<le> uint (cm_ServicePortRangeE h)"
    and "uint (cm_ServicePortRangeE h) - uint (cm_ServicePortRangeS h) + 1 < 2 ^ 16"
  shows "map unat (cm_PortRange (makeRange h)) =
    [unat (cm_ServicePortRangeS h) ..< Suc (unat (cm_ServicePortRangeE h))]"
proof -
  let ?s = "cm_ServicePortRangeS h" and ?e = "cm_ServicePortRangeE h"
  have b: "unat ?e < 2 ^ 16" using unsigned_less [of ?e, where ?'a = nat] by simp
  have n: "nat ((uint ?e - uint ?s + 1) mod 2 ^ 16) = Suc (unat ?e) - unat ?s"
  proof -
    have "(uint ?e - uint ?s + 1) mod 2 ^ 16 = uint ?e - uint ?s + 1"
      using assms by (intro mod_pos_pos_trivial) linarith+
    moreover have "nat (b - a + 1) = Suc (nat b) - nat a" if "0 \<le> a" "a \<le> b" for a b :: int
      using that by arith
    ultimately show ?thesis using assms(1) unfolding unat_eq_nat_uint by simp
  qed
  have "(unat ?s + i) mod 2 ^ 16 = unat ?s + i" if "i \<in> set [0 ..< Suc (unat ?e) - unat ?s]" for i
  proof -
    have "i < Suc (unat ?e) - unat ?s" using that by (simp only: set_upt atLeastLessThan_iff)
    then have "unat ?s + i < 2 ^ 16" using b by linarith
    then show ?thesis by (rule mod_less)
  qed
  then have "map (\<lambda>i. (unat ?s + i) mod 2 ^ 16) [0 ..< Suc (unat ?e) - unat ?s] =
      map (\<lambda>i. i + unat ?s) [0 ..< Suc (unat ?e) - unat ?s]"
    by (intro map_cong refl) (simp only: add.commute)
  also have "\<dots> = [unat ?s ..< Suc (unat ?e)]"
  proof -
    have "unat ?s \<le> unat ?e" using assms(1) unfolding unat_eq_nat_uint by (rule nat_mono)
    then have "Suc (unat ?e) - unat ?s + unat ?s = Suc (unat ?e)" by linarith
    then show ?thesis by (simp only: map_add_upt)
  qed
  finally show ?thesis unfolding makeRange_mod n .
qed

text \<open>A full range is an empty one.\<close>

lemma makeRange_full:
  assumes "cm_ServicePortRangeE h + 1 = cm_ServicePortRangeS h"
  shows "cm_PortRange (makeRange h) = []"
proof -
  have "cm_ServicePortRangeE h - cm_ServicePortRangeS h + 1 = 0"
    using assms by (simp add: algebra_simps)
  then show ?thesis by (simp add: makeRange_def)
qed

text \<open>The addresses a lookout reads from the file are ones that survive their publication.\<close>

lemma LoadConfigInfo_addrs:
  assumes "LoadConfigInfo e g path h = Inr (err, h')" and "list_all ip_ok (cm_addrList h)"
  shows "list_all ip_ok (cm_addrList h')"
proof -
  have "list_all ip_ok (map ParseIP xs)" for xs by (induction xs) (simp_all add: ParseIP_ok)
  then show ?thesis
    using assms by (auto simp: LoadConfigInfo_def makeRange_def Let_def split: if_splits sum.splits)
qed

text \<open>Reading the file panics exactly when its second line has no space.\<close>

lemma LoadConfigInfo_panics:
  assumes "e_stat e path \<noteq> Inl ENOENT" and "g_open g path = Inr content"
  shows "(\<exists>x. LoadConfigInfo e g path h = Inl x) \<longleftrightarrow> \<not> Contains (scan_text content 1) '' ''"
  using assms split_one [of "'' ''" "scan_text content 1"] by (simp add: LoadConfigInfo_def Let_def)

section \<open>Tags\<close>

text \<open>What a peer gets to know of an endpoint.\<close>

definition app_tag :: "world \<Rightarrow> ep_ref \<Rightarrow> MonitoredApp" where
  "app_tag w r =
     \<lparr>ma_Status = (if ep_State (w_eps w r) = EPstateRunning then ''1'' else ''0''),
      ma_Type = GetAppName (the (ep_App (w_eps w r)))\<rparr>"

text \<open>What the round trip relies on: the decompressor undoes the compressor on uuids.\<close>

definition gossip_codec :: "env \<Rightarrow> genv \<Rightarrow> bool" where
  "gossip_codec e g =
     (\<forall>u. g_DecompressUUID g (g_CompressUUID g (e_uuid_String e u)) = Inr (e_uuid_String e u))"

definition ep_key :: "env \<Rightarrow> genv \<Rightarrow> uuid \<Rightarrow> string" where
  "ep_key e g u = g_CompressUUID g (e_uuid_String e u)"

lemma ep_key_inj:
  assumes "gossip_codec e g" and "uuid_pkg e"
  shows "ep_key e g u = ep_key e g v \<longleftrightarrow> u = v"
  using assms unfolding gossip_codec_def ep_key_def uuid_pkg_def by (metis sum.inject(2))

lemma Unmarshal_app_marshal:
  "Unmarshal_app e (marshal_app a) = Inr \<lparr>ma_Status = to_valid (ma_Status a), ma_Type = to_valid (ma_Type a)\<rparr>"
proof -
  have "json_parse (marshal_app a) =
      Some (VObj [(raw_string ''Status'', VStr (raw_string (ma_Status a))), (raw_string ''Type'', VStr (raw_string (ma_Type a)))])"
    unfolding marshal_app_def by (subst ctext.dec_enc) (simp_all add: printable_def max_depth_def)
  moreover have names: "unquote (raw_string ''Status'') = ''Status''" "unquote (raw_string ''Type'') = ''Type''"
    by (simp_all add: unquote_raw_ascii)
  moreover have "map json_name MonitoredApp_fields = [''Status'', ''Type'']" by code_simp
  ultimately show ?thesis
    by (simp add: Unmarshal_app_def dec_struct_def dec_field_def resolve_def MonitoredApp_fields_def zero_struct_def
        zero_value_def dec_leaf_def dec_scalar_def dec_string_def unquote_raw_string or_err_def)
qed

lemma app_tag_json: "Unmarshal_app e (marshal_app (app_tag w r)) = Inr (app_tag w r)"
proof -
  have "utf8_valid (GetAppName a)" for a by (cases a) (simp_all add: ascii_valid)
  moreover have "utf8_valid ''0''" "utf8_valid ''1''" by (simp_all add: ascii_valid)
  ultimately show ?thesis by (simp add: Unmarshal_app_marshal app_tag_def to_valid_id)
qed

lemma port_text_valid: "to_valid (Itoa i @ '' '' @ Itoa j) = Itoa i @ '' '' @ Itoa j"
  using Itoa_ascii by (intro to_valid_id ascii_valid) auto

lemma gossip_ep_eq:
  assumes inv: "linv w" and u: "map_of (w_epMap w) u = Some r"
  shows "gossip_ep e g w u m = Inr (mput (ep_key e g u) (marshal_app (app_tag w r)) m)"
proof -
  have "r < w_neps w" "ep_Uuid (w_eps w r) = u" using inv_lookup [OF inv u] .
  moreover then obtain a where "ep_App (w_eps w r) = Some a"
    using inv by (auto simp: linv_def ep_ok_def app_ok_def Let_def)
  ultimately show ?thesis using u by (simp add: gossip_ep_def app_tag_def ep_key_def Let_def)
qed

lemma gossip_eps:
  assumes inv: "linv w" and codec: "gossip_codec e g" "uuid_pkg e"
    and ks: "\<And>u. u \<in> set ks \<Longrightarrow> map_of (w_epMap w) u \<noteq> None"
  shows "\<exists>m'. for_each (gossip_ep e g w) ks m = Inr m' \<and> (mwf m \<longrightarrow> mwf m') \<and>
    (\<forall>u. u \<in> set ks \<longrightarrow> map_of m' (ep_key e g u) =
        map_option (\<lambda>r. marshal_app (app_tag w r)) (map_of (w_epMap w) u)) \<and>
    (\<forall>k. (\<forall>u \<in> set ks. k \<noteq> ep_key e g u) \<longrightarrow> map_of m' k = map_of m k)"
  using ks
proof (induction ks arbitrary: m)
  case (Cons u ks)
  obtain r where r: "map_of (w_epMap w) u = Some r" using Cons.prems [of u] by auto
  let ?m = "mput (ep_key e g u) (marshal_app (app_tag w r)) m"
  obtain m' where m': "for_each (gossip_ep e g w) ks ?m = Inr m'" "mwf ?m \<longrightarrow> mwf m'"
    "\<forall>v. v \<in> set ks \<longrightarrow> map_of m' (ep_key e g v) =
        map_option (\<lambda>r. marshal_app (app_tag w r)) (map_of (w_epMap w) v)"
    "\<forall>k. (\<forall>v \<in> set ks. k \<noteq> ep_key e g v) \<longrightarrow> map_of m' k = map_of ?m k"
    using Cons.IH [of ?m] Cons.prems by auto
  have "map_of m' (ep_key e g u) = map_option (\<lambda>r. marshal_app (app_tag w r)) (map_of (w_epMap w) u)"
  proof (cases "u \<in> set ks")
    case False
    then have "\<forall>v \<in> set ks. ep_key e g u \<noteq> ep_key e g v" using ep_key_inj [OF codec] by auto
    with m'(4) r show ?thesis by simp
  qed (use m'(3) in auto)
  with m' show ?case by (auto simp: gossip_ep_eq [OF inv r])
qed simp

text \<open>The tags after a run: one for each endpoint, and the metadata.\<close>

lemma lo_tags_keys: "(k, v) \<in> set (lo_tags e h) \<Longrightarrow> HasPrefix k ''LO-''"
  by (auto simp: lo_tags_def HasPrefix_def)

lemma fold_put_other: "k \<notin> fst ` set xs \<Longrightarrow> map_of (fold (\<lambda>(k, v). mput k v) xs m) k = map_of m k"
  by (induction xs arbitrary: m) auto

lemma put_lo_tags:
  assumes "\<not> HasPrefix k ''LO-''"
  shows "map_of (fold (\<lambda>(k, v). mput k v) (lo_tags e h) m) k = map_of m k"
  using assms lo_tags_keys by (intro fold_put_other) auto

lemma lo_tag_values:
  "tag (fold (\<lambda>(k, v). mput k v) (lo_tags e h) m) ''LO-UUID'' = cm_LookoutUUID h"
  "tag (fold (\<lambda>(k, v). mput k v) (lo_tags e h) m) ''LO-Hport'' = Itoa (cm_HttpPort h)"
  "tag (fold (\<lambda>(k, v). mput k v) (lo_tags e h) m) ''LO-IPAddr'' = marshal_strs (map ip_String (cm_addrList h))"
  "tag (fold (\<lambda>(k, v). mput k v) (lo_tags e h) m) ''LO-PortRange'' =
     json_string (Itoa (uint (cm_ServicePortRangeS h)) @ '' '' @ Itoa (uint (cm_ServicePortRangeE h)))"
  "tag (fold (\<lambda>(k, v). mput k v) (lo_tags e h) m) ''LO-Time'' = Itoa (e_now e div second)"
  by (simp_all add: lo_tags_def tag_def)

lemma mwf_fold_put: "mwf m \<Longrightarrow> mwf (fold (\<lambda>(k, v). mput k v) xs m)"
  by (induction xs arbitrary: m) auto

lemma gossip_tags:
  assumes inv: "linv w" and codec: "gossip_codec e g" "uuid_pkg e" and ord: "range_order ord (w_epMap w)"
  obtains m where "GetCompressedGossipData e g h ord w = Inr (fold (\<lambda>(k, v). mput k v) (lo_tags e h) m)"
    "mwf m" "\<And>u. map_of m (ep_key e g u) = map_option (\<lambda>r. marshal_app (app_tag w r)) (map_of (w_epMap w) u)"
    "\<And>k. (\<And>u. map_of (w_epMap w) u \<noteq> None \<Longrightarrow> k \<noteq> ep_key e g u) \<Longrightarrow> map_of m k = None"
proof -
  have keys: "u \<in> set ord \<longleftrightarrow> map_of (w_epMap w) u \<noteq> None" for u using range_order_lookup [OF ord] .
  from gossip_eps [OF inv codec, of ord "[]"] keys obtain m where m:
    "for_each (gossip_ep e g w) ord [] = Inr m" "mwf m"
    "\<forall>u. u \<in> set ord \<longrightarrow> map_of m (ep_key e g u) =
        map_option (\<lambda>r. marshal_app (app_tag w r)) (map_of (w_epMap w) u)"
    "\<forall>k. (\<forall>u \<in> set ord. k \<noteq> ep_key e g u) \<longrightarrow> map_of m k = None" by auto
  have "map_of m (ep_key e g u) = map_option (\<lambda>r. marshal_app (app_tag w r)) (map_of (w_epMap w) u)" for u
  proof (cases "u \<in> set ord")
    case False
    then have "\<forall>v \<in> set ord. ep_key e g u \<noteq> ep_key e g v" using ep_key_inj [OF codec] by auto
    with m(4) False keys [of u] show ?thesis by simp
  qed (use m(3) in auto)
  with m(1,2,4) keys show ?thesis by (intro that) (auto simp: GetCompressedGossipData_def)
qed

text \<open>
  Reading the tags: a tag of an endpoint puts its application, a metadata tag nothing. A compressed uuid that begins
  like a metadata key is taken for one.
\<close>

definition hidden :: "env \<Rightarrow> genv \<Rightarrow> uuid \<Rightarrow> bool" where
  "hidden e g u = HasPrefix (ep_key e g u) ''LO-''"

lemma tag_app_key:
  assumes codec: "gossip_codec e g" "uuid_pkg e" and lo: "\<not> hidden e g u"
    and t: "map_of addr (ep_key e g u) = Some (marshal_app (app_tag w r))"
  shows "tag_app e g addr (ep_key e g u) apps = mput u (app_tag w r) apps"
proof -
  have "g_DecompressUUID g (ep_key e g u) = Inr (e_uuid_String e u)" "e_uuid_Parse e (e_uuid_String e u) = Inr u"
    using codec by (simp_all add: gossip_codec_def ep_key_def uuid_pkg_def)
  with t lo app_tag_json show ?thesis by (simp add: tag_app_def tag_def hidden_def)
qed

lemma tag_apps:
  assumes inv: "linv w" and codec: "gossip_codec e g" "uuid_pkg e"
    and t: "\<And>u. \<not> hidden e g u \<Longrightarrow>
      map_of addr (ep_key e g u) = map_option (\<lambda>r. marshal_app (app_tag w r)) (map_of (w_epMap w) u)"
    and ks: "\<And>k. k \<in> set ks \<Longrightarrow> HasPrefix k ''LO-'' \<or> (\<exists>u. map_of (w_epMap w) u \<noteq> None \<and> k = ep_key e g u)"
  shows "map_of (fold (tag_app e g addr) ks apps) u =
    (if ep_key e g u \<in> set ks \<and> \<not> hidden e g u then map_option (app_tag w) (map_of (w_epMap w) u) else map_of apps u)"
  using ks
proof (induction ks arbitrary: apps)
  case (Cons k ks)
  have IH: "map_of (fold (tag_app e g addr) ks apps) u =
    (if ep_key e g u \<in> set ks \<and> \<not> hidden e g u then map_option (app_tag w) (map_of (w_epMap w) u) else map_of apps u)" for apps
    using Cons.IH Cons.prems by simp
  from Cons.prems [of k] consider (lo) "HasPrefix k ''LO-''"
    | (ep) v r where "\<not> HasPrefix k ''LO-''" "map_of (w_epMap w) v = Some r" "k = ep_key e g v" by auto
  then show ?case
  proof cases
    case lo
    then have "tag_app e g addr k apps = apps" "ep_key e g u = k \<Longrightarrow> hidden e g u" by (auto simp: tag_app_def hidden_def)
    with IH show ?thesis by auto
  next
    case ep
    then have "tag_app e g addr k apps = mput v (app_tag w r) apps" "\<not> hidden e g v"
      using tag_app_key [OF codec, of v] t [of v] by (simp_all add: hidden_def)
    with IH ep ep_key_inj [OF codec] show ?thesis by auto
  qed
qed simp

text \<open>
  A lookout that receives the tags another one has published: its table has the publisher with its
  addresses, ports and applications, whatever the order in which either map is visited.
\<close>

lemma lo_prefix: "k \<in> {''LO-UUID'', ''LO-Type'', ''LO-Hport'', ''LO-IPAddr'', ''LO-PortRange'', ''LO-Time''} \<Longrightarrow>
    HasPrefix k ''LO-''"
  by (auto simp: HasPrefix_def)

lemma put_lo_keys:
  "map_of (fold (\<lambda>(k, v). mput k v) (lo_tags e h) m) k \<noteq> None \<longleftrightarrow>
     k \<in> {''LO-UUID'', ''LO-Type'', ''LO-Hport'', ''LO-IPAddr'', ''LO-PortRange'', ''LO-Time''} \<or> map_of m k \<noteq> None"
  by (simp add: lo_tags_def)

lemma tags_received:
  assumes inv: "linv w" and codec: "gossip_codec e g" "uuid_pkg e" and ord: "range_order ord (w_epMap w)"
    and sent: "GetCompressedGossipData e g h ord w = Inr tags" and tord: "range_order tord tags"
    and time: "min_int64 \<le> e_now e div second" "e_now e div second \<le> max_int64"
    and recv: "cm_Lookouts h' = Some m"
  shows "\<exists>l. tag_member e g (tord, tags) h' = Inr (h'\<lparr>cm_Lookouts := Some (mput (cm_LookoutUUID h) l m)\<rparr>) \<and>
     li_IPAddrs l = Some (map ip_String (cm_addrList h)) \<and> li_HTTPPort l = Itoa (cm_HttpPort h) \<and>
     li_PortRange l = Itoa (uint (cm_ServicePortRangeS h)) @ '' '' @ Itoa (uint (cm_ServicePortRangeE h)) \<and>
     map_of (li_Apps l) =
       (\<lambda>u. if hidden e g u then None else map_option (app_tag w) (map_of (w_epMap w) u)) \<and>
     li_LastSeen l = g_time g (e_now e div second)"
proof -
  from gossip_tags [OF inv codec ord] sent obtain m0 where
    tags: "tags = fold (\<lambda>(k, v). mput k v) (lo_tags e h) m0" and
    ep: "\<And>u. map_of m0 (ep_key e g u) = map_option (\<lambda>r. marshal_app (app_tag w r)) (map_of (w_epMap w) u)" and
    only: "\<And>k. (\<And>u. map_of (w_epMap w) u \<noteq> None \<Longrightarrow> k \<noteq> ep_key e g u) \<Longrightarrow> map_of m0 k = None"
    by (metis sum.inject(2))
  have ep': "map_of tags (ep_key e g u) = map_option (\<lambda>r. marshal_app (app_tag w r)) (map_of (w_epMap w) u)"
    if "\<not> hidden e g u" for u
    using ep that by (simp add: tags put_lo_tags hidden_def)
  have keys: "k \<in> set tord \<longleftrightarrow> map_of tags k \<noteq> None" for k using range_order_lookup [OF tord] .
  have known: "HasPrefix k ''LO-'' \<or> (\<exists>u. map_of (w_epMap w) u \<noteq> None \<and> k = ep_key e g u)" if "k \<in> set tord" for k
  proof -
    have "map_of tags k \<noteq> None" using that keys by blast
    then have "k \<in> {''LO-UUID'', ''LO-Type'', ''LO-Hport'', ''LO-IPAddr'', ''LO-PortRange'', ''LO-Time''} \<or> map_of m0 k \<noteq> None"
      unfolding tags put_lo_keys .
    then have "HasPrefix k ''LO-'' \<or> map_of m0 k \<noteq> None" using lo_prefix [of k] by metis
    then show ?thesis using only [of k] by metis
  qed
  have apps: "map_of (fold (tag_app e g tags) tord []) u =
      (if hidden e g u then None else map_option (app_tag w) (map_of (w_epMap w) u))" for u
    using tag_apps [OF inv codec ep' known, of tord "[]" u] keys ep' by auto
  have vals: "tag tags ''LO-UUID'' = cm_LookoutUUID h" "tag tags ''LO-Hport'' = Itoa (cm_HttpPort h)"
    "tag tags ''LO-IPAddr'' = marshal_strs (map ip_String (cm_addrList h))"
    "tag tags ''LO-PortRange'' =
       json_string (Itoa (uint (cm_ServicePortRangeS h)) @ '' '' @ Itoa (uint (cm_ServicePortRangeE h)))"
    "tag tags ''LO-Time'' = Itoa (e_now e div second)"
    by (simp_all add: tags lo_tag_values)
  have "map to_valid (map ip_String (cm_addrList h)) = map ip_String (cm_addrList h)"
    using ip_String_ascii by (simp add: to_valid_id)
  then have dec: "Unmarshal_strs (tag tags ''LO-IPAddr'') = Inr (Some (map ip_String (cm_addrList h)))"
    "Unmarshal_str (tag tags ''LO-PortRange'') =
       Inr (Itoa (uint (cm_ServicePortRangeS h)) @ '' '' @ Itoa (uint (cm_ServicePortRangeE h)))"
    using Unmarshal_strs_strings [of "map ip_String (cm_addrList h)"]
    unfolding vals marshal_strs_def Unmarshal_str_string port_text_valid by simp_all
  have at: "Atoi (tag tags ''LO-Time'') = (e_now e div second, True)" using Atoi_Itoa [OF time] by (simp add: vals)
  let ?l = "\<lparr>li_IPAddrs = Some (map ip_String (cm_addrList h)), li_HTTPPort = tag tags ''LO-Hport'',
      li_PortRange = Itoa (uint (cm_ServicePortRangeS h)) @ '' '' @ Itoa (uint (cm_ServicePortRangeE h)),
      li_Apps = fold (tag_app e g tags) tord [], li_LastSeen = g_time g (e_now e div second)\<rparr>"
  have "tag_member e g (tord, tags) h' = put_lookout (tag tags ''LO-UUID'') ?l h'"
    by (simp add: tag_member_def at dec Let_def)
  then have "tag_member e g (tord, tags) h' = Inr (h'\<lparr>cm_Lookouts := Some (mput (cm_LookoutUUID h) ?l m)\<rparr>)"
    by (simp add: vals(1) put_lookout_def recv)
  then show ?thesis by (intro exI [of _ ?l]) (simp add: vals(2) apps fun_eq_iff)
qed

end
