(* ===== verification/LabGossip.thy ===== *)
theory LabGossip
  imports Lab GossipInv
begin

text \<open>A gossip configuration for the machine of \<open>Lab\<close>, on which the theorems about gossip are instantiated.\<close>

definition lab_handler :: CommHandler where
  "lab_handler = \<lparr>cm_Addr = None, cm_addrList = [ParseIP ''10.0.0.7'', ParseIP ''fe80::7''],
     cm_PortRange = [], cm_ServicePortRangeS = 60,
     cm_ServicePortRangeE = 62, cm_HttpPort = 80, cm_LookoutUUID = ''L'', cm_Lookouts = Some []\<rparr>"

definition lab_genv :: genv where
  "lab_genv = \<lparr>g_CompressUUID = id, g_DecompressUUID = Inr, g_time = (\<lambda>_. ''now''),
     g_open = (\<lambda>_. Inr ''127.0.0.1'')\<rparr>"

lemma hex_digits_hd: "k > 0 \<Longrightarrow> hd (hex_digits k n) \<noteq> CHR ''L''"
proof (induction k arbitrary: n)
  case (Suc k)
  have "n mod 16 < 16" by simp
  then have "''0123456789abcdef'' ! (n mod 16) \<in> set ''0123456789abcdef''" by (intro nth_mem) simp
  then have "''0123456789abcdef'' ! (n mod 16) \<noteq> CHR ''L''" by auto
  with Suc show ?case by (cases "k = 0") (simp_all add: hd_append length_0_conv [symmetric] del: length_0_conv)
qed simp

lemma lab_codec: "gossip_codec lab_env lab_genv"
  by (simp add: gossip_codec_def lab_env_def demo_env_def lab_genv_def)

lemma lab_shown: "\<not> hidden lab_env lab_genv u"
proof -
  have "\<not> HasPrefix (demo_String u) ''LO-''" for u
  proof -
    obtain x xs where h: "hex_digits 32 (unat u) = x # xs"
      using length_hex_digits [of 32 "unat u"] by (cases "hex_digits 32 (unat u)") (simp_all del: hex_digits.simps)
    then have "hd (demo_String u) = hd (hex_digits 32 (unat u))"
      by (simp add: demo_String_eq Let_def del: hex_digits.simps)
    then have "hd (demo_String u) \<noteq> CHR ''L''" using hex_digits_hd [of 32 "unat u"] by (simp del: hex_digits.simps)
    then show ?thesis by (cases "demo_String u") (auto simp: HasPrefix_def)
  qed
  then show ?thesis
    by (simp add: hidden_def ep_key_def lab_env_def demo_env_def lab_genv_def)
qed

text \<open>The tags the machine publishes, in the order in which they are listed.\<close>

lemma lab_tags:
  obtains tags where "GetCompressedGossipData lab_env lab_genv lab_handler [7] lab_world = Inr tags"
    "range_order (map fst tags) tags"
proof -
  obtain m where m: "GetCompressedGossipData lab_env lab_genv lab_handler [7] lab_world =
      Inr (fold (\<lambda>(k, v). mput k v) (lo_tags lab_env lab_handler) m)" "mwf m"
    by (rule gossip_tags [OF lab_inv lab_codec lab_uuid_pkg lab_range]) blast
  show ?thesis by (rule that [OF m(1)]) (rule range_order_keys [OF mwf_fold_put [OF m(2)]])
qed

lemma lab_time: "min_int64 \<le> e_now lab_env div second" "e_now lab_env div second \<le> max_int64"
  by (simp_all add: lab_env_def demo_env_def min_int64_def max_int64_def)

end
