(* ===== verification/GossipLoops.thy ===== *)
theory GossipLoops
  imports GossipInv
begin

text \<open>
  The two gossip loops of \<open>gossip_comms.go\<close> over their rounds: \<open>SetTags\<close>, which publishes the state of the
  endpoints, and \<open>GetTags\<close>, which keeps the table of the lookouts heard of. The serf agent is the list of
  what the rounds meet; its errors are only logged.
\<close>

section \<open>The loops\<close>

text \<open>A round of \<open>SetTags\<close> has an environment, an order in which the endpoints are visited and a state.\<close>

definition SetTags :: "genv \<Rightarrow> CommHandler \<Rightarrow> (env \<times> uuid list \<times> world) list \<Rightarrow> (string, string) gomap list res" where
  "SetTags g h rounds =
     for_each (\<lambda>(e, ord, w) published.
       bindr (GetCompressedGossipData e g h ord w) (\<lambda>tagData. Inr (published @ [tagData]))) rounds []"

text \<open>A round of \<open>GetTags\<close> has an environment and the members' tags with the orders they are visited in.\<close>

definition GetTags ::
  "genv \<Rightarrow> (env \<times> (string list \<times> (string, string) gomap) list) list \<Rightarrow> CommHandler \<Rightarrow> CommHandler res" where
  "GetTags g rounds h = for_each (\<lambda>(e, members). GetTags_round e g members) rounds (GetTags_start h)"

section \<open>Publishing\<close>

lemma SetTags_returns:
  assumes "\<And>e ord w. (e, ord, w) \<in> set rounds \<Longrightarrow>
    linv w \<and> gossip_codec e g \<and> uuid_pkg e \<and> range_order ord (w_epMap w)"
  shows "\<exists>sent. SetTags g h rounds = Inr sent \<and>
    list_all2 (\<lambda>(e, ord, w) t. GetCompressedGossipData e g h ord w = Inr t) rounds sent"
proof -
  let ?f = "\<lambda>(e, ord, w) published.
       bindr (GetCompressedGossipData e g h ord w) (\<lambda>tagData. Inr (published @ [tagData]))"
  have "\<exists>sent. for_each ?f rounds acc = Inr (acc @ sent) \<and>
    list_all2 (\<lambda>(e, ord, w) t. GetCompressedGossipData e g h ord w = Inr t) rounds sent" for acc
    using assms
  proof (induction rounds arbitrary: acc)
    case (Cons x rounds)
    obtain e ord w where x: "x = (e, ord, w)" by (cases x)
    with Cons.prems have ok: "linv w" "gossip_codec e g" "uuid_pkg e" "range_order ord (w_epMap w)" by auto
    obtain t where t: "GetCompressedGossipData e g h ord w = Inr t" by (rule gossip_tags [OF ok])
    from Cons.IH [of "acc @ [t]"] Cons.prems obtain sent where
      "for_each ?f rounds (acc @ [t]) = Inr ((acc @ [t]) @ sent)"
      "list_all2 (\<lambda>(e, ord, w) t. GetCompressedGossipData e g h ord w = Inr t) rounds sent"
      by auto
    then show ?case using x t by (intro exI [of _ "t # sent"]) simp
  qed simp
  from this [of "[]"] show ?thesis by (simp add: SetTags_def)
qed

section \<open>The table\<close>

text \<open>A member puts at most an entry of its own; nothing is ever removed, no other field is written.\<close>

lemma tag_member_grows:
  fixes h :: CommHandler
  assumes "cm_Lookouts h = Some m"
  obtains m' where "tag_member e g x h = Inr (h\<lparr>cm_Lookouts := Some m'\<rparr>)"
    "\<And>k. map_of m k \<noteq> None \<Longrightarrow> map_of m' k \<noteq> None"
proof -
  obtain ord addr where x: "x = (ord, addr)" by force
  have h: "h\<lparr>cm_Lookouts := Some m\<rparr> = h" using assms by simp
  have "tag_member e g x h = Inr h \<or>
    (\<exists>l. tag_member e g x h = Inr (h\<lparr>cm_Lookouts := Some (mput (tag addr ''LO-UUID'') l m)\<rparr>))"
  proof (cases "Atoi (tag addr ''LO-Time'')")
    case (Pair t ok)
    then show ?thesis
      by (cases "Unmarshal_strs (tag addr ''LO-IPAddr'')"; cases "Unmarshal_str (tag addr ''LO-PortRange'')")
         (auto simp: x tag_member_def put_lookout_def assms Let_def)
  qed
  then consider "tag_member e g x h = Inr h"
    | l where "tag_member e g x h = Inr (h\<lparr>cm_Lookouts := Some (mput (tag addr ''LO-UUID'') l m)\<rparr>)"
    by blast
  then show ?thesis
  proof cases
    case 1
    with h show ?thesis by (intro that [of m]) auto
  next
    case 2
    then show ?thesis by (rule that) simp
  qed
qed

lemma for_each_grows:
  fixes h :: CommHandler
  assumes step: "\<And>x h m. cm_Lookouts h = Some m \<Longrightarrow>
      \<exists>m'. f x h = Inr (h\<lparr>cm_Lookouts := Some m'\<rparr>) \<and> (\<forall>k. map_of m k \<noteq> None \<longrightarrow> map_of m' k \<noteq> None)"
    and "cm_Lookouts h = Some m"
  shows "\<exists>m'. for_each f xs h = Inr (h\<lparr>cm_Lookouts := Some m'\<rparr>) \<and>
    (\<forall>k. map_of m k \<noteq> None \<longrightarrow> map_of m' k \<noteq> None)"
  using assms(2)
proof (induction xs arbitrary: h m)
  case Nil
  then have "h\<lparr>cm_Lookouts := Some m\<rparr> = h" by simp
  then show ?case by (intro exI [of _ m]) simp
next
  case (Cons x xs)
  obtain m1 where m1: "f x h = Inr (h\<lparr>cm_Lookouts := Some m1\<rparr>)" "\<forall>k. map_of m k \<noteq> None \<longrightarrow> map_of m1 k \<noteq> None"
    using step [OF Cons.prems] by blast
  with Cons.IH [of "h\<lparr>cm_Lookouts := Some m1\<rparr>" m1] show ?case by auto
qed

lemma GetTags_round_grows:
  assumes "cm_Lookouts h = Some m"
  shows "\<exists>m'. GetTags_round e g members h = Inr (h\<lparr>cm_Lookouts := Some m'\<rparr>) \<and>
    (\<forall>k. map_of m k \<noteq> None \<longrightarrow> map_of m' k \<noteq> None)"
  unfolding GetTags_round_def
proof (rule for_each_grows [OF _ assms])
  fix x and h :: CommHandler and m
  assume "cm_Lookouts h = Some m"
  then show "\<exists>m'. tag_member e g x h = Inr (h\<lparr>cm_Lookouts := Some m'\<rparr>) \<and> (\<forall>k. map_of m k \<noteq> None \<longrightarrow> map_of m' k \<noteq> None)"
    by (rule tag_member_grows [where e = e and g = g and x = x]) blast
qed

lemma GetTags_rounds_grow:
  assumes "cm_Lookouts h = Some m"
  shows "\<exists>m'. for_each (\<lambda>(e, members). GetTags_round e g members) rounds h = Inr (h\<lparr>cm_Lookouts := Some m'\<rparr>) \<and>
    (\<forall>k. map_of m k \<noteq> None \<longrightarrow> map_of m' k \<noteq> None)"
proof (rule for_each_grows [OF _ assms])
  fix x and h :: CommHandler and m
  assume "cm_Lookouts h = Some m"
  then show "\<exists>m'. (case x of (e, members) \<Rightarrow> GetTags_round e g members) h = Inr (h\<lparr>cm_Lookouts := Some m'\<rparr>) \<and>
      (\<forall>k. map_of m k \<noteq> None \<longrightarrow> map_of m' k \<noteq> None)"
    using GetTags_round_grows by (cases x) (simp only: prod.case)
qed

lemma GetTags_returns: "\<exists>m. GetTags g rounds h = Inr (h\<lparr>cm_Lookouts := Some m\<rparr>)"
  using GetTags_rounds_grow [of "GetTags_start h" "[]" g rounds] by (auto simp: GetTags_def GetTags_start_def)

text \<open>
  What one lookout publishes is in the table of another after any round that meets it, and after all the
  rounds that follow.
\<close>

lemma GetTags_keeps:
  assumes "GetTags g (rs1 @ rs2) h = Inr h2" and "GetTags g rs1 h = Inr h1"
    and "cm_Lookouts h1 = Some m1" and "map_of m1 k \<noteq> None"
  shows "\<exists>m2. cm_Lookouts h2 = Some m2 \<and> map_of m2 k \<noteq> None"
proof -
  have "for_each (\<lambda>(e, members). GetTags_round e g members) rs2 h1 = Inr h2"
    using assms(1,2) by (simp add: GetTags_def for_each_append)
  with GetTags_rounds_grow [OF assms(3), of g rs2] assms(4) show ?thesis by auto
qed

lemma peer_known:
  assumes sender: "linv w" "gossip_codec e g" "uuid_pkg e" "range_order ord (w_epMap w)"
    and sent: "GetCompressedGossipData e g h ord w = Inr tags" and tord: "range_order tord tags"
    and time: "min_int64 \<le> e_now e div second" "e_now e div second \<le> max_int64"
    and mem: "(tord, tags) \<in> set members"
  shows "\<exists>m. GetTags g (rs1 @ (e, members) # rs2) h' = Inr (h'\<lparr>cm_Lookouts := Some m\<rparr>) \<and>
    map_of m (cm_LookoutUUID h) \<noteq> None"
proof -
  let ?r = "\<lambda>(e, members). GetTags_round e g members"
  from mem obtain ms1 ms2 where ms: "members = ms1 @ (tord, tags) # ms2" by (auto simp: in_set_conv_decomp)
  obtain m0 where m0: "for_each ?r rs1 (GetTags_start h') = Inr (h'\<lparr>cm_Lookouts := Some m0\<rparr>)"
    using GetTags_rounds_grow [of "GetTags_start h'" "[]" g rs1] by (auto simp: GetTags_start_def)
  obtain m1 where m1: "for_each (tag_member e g) ms1 (h'\<lparr>cm_Lookouts := Some m0\<rparr>) = Inr (h'\<lparr>cm_Lookouts := Some m1\<rparr>)"
    using GetTags_round_grows [of "h'\<lparr>cm_Lookouts := Some m0\<rparr>" m0 e g ms1] by (auto simp: GetTags_round_def)
  obtain l where l: "tag_member e g (tord, tags) (h'\<lparr>cm_Lookouts := Some m1\<rparr>) =
      Inr (h'\<lparr>cm_Lookouts := Some (mput (cm_LookoutUUID h) l m1)\<rparr>)"
    using tags_received [OF sender sent tord time, of "h'\<lparr>cm_Lookouts := Some m1\<rparr>" m1] by auto
  let ?m = "mput (cm_LookoutUUID h) l m1"
  obtain m2 where m2: "for_each (tag_member e g) ms2 (h'\<lparr>cm_Lookouts := Some ?m\<rparr>) = Inr (h'\<lparr>cm_Lookouts := Some m2\<rparr>)"
    "\<forall>k. map_of ?m k \<noteq> None \<longrightarrow> map_of m2 k \<noteq> None"
    using GetTags_round_grows [of "h'\<lparr>cm_Lookouts := Some ?m\<rparr>" ?m e g ms2] by (auto simp: GetTags_round_def)
  obtain m3 where m3: "for_each ?r rs2 (h'\<lparr>cm_Lookouts := Some m2\<rparr>) = Inr (h'\<lparr>cm_Lookouts := Some m3\<rparr>)"
    "\<forall>k. map_of m2 k \<noteq> None \<longrightarrow> map_of m3 k \<noteq> None"
    using GetTags_rounds_grow [of "h'\<lparr>cm_Lookouts := Some m2\<rparr>" m2 g rs2] by auto
  have "GetTags g (rs1 @ (e, members) # rs2) h' = Inr (h'\<lparr>cm_Lookouts := Some m3\<rparr>)"
    using m0 m1 l m2(1) m3(1) by (simp add: GetTags_def for_each_append GetTags_round_def ms)
  moreover have "map_of m3 (cm_LookoutUUID h) \<noteq> None" using m2(2) m3(2) by simp
  ultimately show ?thesis by blast
qed

end
