(* ===== verification/Startup.thy ===== *)
theory Startup
  imports Env
begin

text \<open>
  The start of the program in \<open>cmd/lookout/main.go\<close> with the parts of \<open>http_comms.go\<close> and
  \<open>gossip_comms.go\<close> it calls: the HTTP server's listen loop, the hand-over of its result to \<open>main\<close>
  through a channel, the liveness check, the serf agent's retries and the gossip set-up.
\<close>

section \<open>Listening\<close>

text \<open>
  \<open>ServeHttp\<close>: \<open>n\<close> is the length of the port range; every attempt listens on the same HTTP port. The
  attempts' answers are \<open>None\<close> or an error text. The result is the error returned and whether a server
  is running.
\<close>

fun serve_loop :: "(nat \<Rightarrow> string option) \<Rightarrow> nat \<Rightarrow> string option \<times> bool" where
  "serve_loop listen 0 = (None, False)"
| "serve_loop listen (Suc i) =
     (case listen i of
        None \<Rightarrow> (None, True)
      | Some err \<Rightarrow> if Contains err ''bind'' then serve_loop listen i else (Some err, False))"

definition ServeHttp :: "(nat \<Rightarrow> string option) \<Rightarrow> nat \<Rightarrow> string option \<times> bool" where
  "ServeHttp listen n = serve_loop listen n"

lemma serve_loop_iff:
  "serve_loop listen n = (None, True) \<longleftrightarrow>
     (\<exists>i < n. listen i = None \<and> (\<forall>j. i < j \<and> j < n \<longrightarrow> (\<exists>err. listen j = Some err \<and> Contains err ''bind'')))"
proof (induction n)
  case (Suc n)
  show ?case
  proof (cases "listen n")
    case None
    then show ?thesis by (auto intro!: exI [of _ n])
  next
    case (Some err)
    with Suc show ?thesis by (auto simp: less_Suc_eq)
  qed
qed simp

text \<open>The liveness check asks until it gets an answer; the answers are a list, one per second.\<close>

fun CheckHTTPLiveness :: "bool list \<Rightarrow> nat option" where
  "CheckHTTPLiveness [] = None"
| "CheckHTTPLiveness (ok # oks) = (if ok then Some 0 else map_option Suc (CheckHTTPLiveness oks))"

section \<open>The hand-over\<close>

text \<open>
  \<open>main\<close> and the goroutine it starts, with the channel of capacity one between them. \<open>main\<close> is before
  its receive, blocked in it, or past it with the value; the goroutine is about to send, about to
  receive in \<open>if <-errs != nil\<close>, blocked there, or finished. A send to a blocked receiver hands the
  value over; otherwise it goes to the buffer.
\<close>

datatype main_pc = MBefore | MBlocked | MGot "string option"
datatype go_pc = GSend | GRecv | GBlocked | GDone

record boot =
  b_main :: main_pc
  b_go :: go_pc
  b_buf :: "string option list"

definition boot_init :: boot where
  "boot_init = \<lparr>b_main = MBefore, b_go = GSend, b_buf = []\<rparr>"

inductive boot_step :: "string option \<Rightarrow> boot \<Rightarrow> boot \<Rightarrow> bool" for err where
  send_buf: "\<lbrakk>b_go s = GSend; b_main s \<noteq> MBlocked\<rbrakk> \<Longrightarrow>
     boot_step err s (s\<lparr>b_go := GRecv, b_buf := b_buf s @ [err]\<rparr>)"
| send_main: "\<lbrakk>b_go s = GSend; b_main s = MBlocked\<rbrakk> \<Longrightarrow>
     boot_step err s (s\<lparr>b_go := GRecv, b_main := MGot err\<rparr>)"
| main_recv: "\<lbrakk>b_main s = MBefore; b_buf s = v # vs\<rbrakk> \<Longrightarrow>
     boot_step err s (s\<lparr>b_main := MGot v, b_buf := vs\<rparr>)"
| main_block: "\<lbrakk>b_main s = MBefore; b_buf s = []\<rbrakk> \<Longrightarrow> boot_step err s (s\<lparr>b_main := MBlocked\<rparr>)"
| go_recv: "\<lbrakk>b_go s = GRecv; b_buf s = v # vs\<rbrakk> \<Longrightarrow> boot_step err s (s\<lparr>b_go := GDone, b_buf := vs\<rparr>)"
| go_block: "\<lbrakk>b_go s = GRecv; b_buf s = []\<rbrakk> \<Longrightarrow> boot_step err s (s\<lparr>b_go := GBlocked\<rparr>)"

inductive_simps boot_step_simps: "boot_step err s t"

text \<open>Who has the one value: it is still to be sent, in the buffer, with \<open>main\<close>, or lost to the goroutine.\<close>

definition boot_ok :: "string option \<Rightarrow> boot \<Rightarrow> bool" where
  "boot_ok err s =
     (case b_go s of
        GSend \<Rightarrow> b_buf s = [] \<and> (b_main s = MBefore \<or> b_main s = MBlocked)
      | GRecv \<Rightarrow> b_buf s = [err] \<and> b_main s = MBefore \<or> b_buf s = [] \<and> b_main s = MGot err
      | GBlocked \<Rightarrow> b_buf s = [] \<and> b_main s = MGot err
      | GDone \<Rightarrow> b_buf s = [] \<and> (b_main s = MBefore \<or> b_main s = MBlocked))"

lemma boot_ok_init: "boot_ok err boot_init"
  by (simp add: boot_ok_def boot_init_def)

lemma boot_ok_step: "boot_ok err s \<Longrightarrow> boot_step err s t \<Longrightarrow> boot_ok err t"
  by (cases "b_go s"; cases "b_main s") (auto simp: boot_ok_def boot_step_simps)

lemma boot_ok_reach:
  assumes "(boot_step err)\<^sup>*\<^sup>* boot_init s"
  shows "boot_ok err s"
  using assms by (induction rule: rtranclp_induct) (auto intro: boot_ok_init boot_ok_step)

text \<open>The final states: \<open>main\<close> has the value and the goroutine waits for another, or the other way round.\<close>

lemma boot_final:
  assumes "boot_ok err s"
  shows "(\<nexists>t. boot_step err s t) \<longleftrightarrow>
     b_main s = MGot err \<and> b_go s = GBlocked \<or> b_main s = MBlocked \<and> b_go s = GDone"
  using assms
  by (cases "b_go s"; cases "b_main s"; cases "b_buf s")
     (auto simp: boot_ok_def boot_step_simps)

definition lost :: boot where
  "lost = \<lparr>b_main = MBlocked, b_go = GDone, b_buf = []\<rparr>"

lemma lost_reachable: "(boot_step err)\<^sup>*\<^sup>* boot_init lost"
proof -
  have "boot_step err boot_init \<lparr>b_main = MBefore, b_go = GRecv, b_buf = [err]\<rparr>"
    "boot_step err \<lparr>b_main = MBefore, b_go = GRecv, b_buf = [err]\<rparr> \<lparr>b_main = MBefore, b_go = GDone, b_buf = []\<rparr>"
    "boot_step err \<lparr>b_main = MBefore, b_go = GDone, b_buf = []\<rparr> lost"
    by (simp_all add: boot_step_simps boot_init_def lost_def)
  then show ?thesis by (meson converse_rtranclp_into_rtranclp rtranclp.rtrancl_refl)
qed

section \<open>The serf agent\<close>

text \<open>
  \<open>StartSerfAgent\<close>: one start and, while it finds no member, up to three more. An outcome is the member
  count and the error of one start.
\<close>

type_synonym serf_outcome = "int \<times> goerr option"

fun serf_retry :: "nat \<Rightarrow> (nat \<Rightarrow> serf_outcome) \<Rightarrow> nat \<Rightarrow> serf_outcome \<Rightarrow> serf_outcome" where
  "serf_retry 0 startup i prev = prev"
| "serf_retry (Suc k) startup i prev =
     (let o1 = startup i in if fst o1 > 0 then o1 else serf_retry k startup (Suc i) o1)"

definition StartSerfAgent :: "(nat \<Rightarrow> serf_outcome) \<Rightarrow> goerr option" where
  "StartSerfAgent startup =
     (let o0 = startup 0 in
      if fst o0 = 0 then snd (serf_retry 3 startup 1 o0) else snd o0)"

section \<open>Gossip set-up\<close>

datatype service = ClientAPI | UDPListner | SetTagsLoop | GetTagsLoop

text \<open>The services \<open>gossipSetup\<close> starts, in order.\<close>

definition gossipSetup :: "string \<Rightarrow> goerr option \<Rightarrow> goerr option \<Rightarrow> bool \<Rightarrow> service list" where
  "gossipSetup path load_err serf_err pmdb =
     (if path = [] then []
      else if load_err \<noteq> None then []
      else if serf_err \<noteq> None then []
      else (if pmdb then [ClientAPI, UDPListner] else []) @ [SetTagsLoop, GetTagsLoop])"

end
