(* ===== verification/CmdArgs.thy ===== *)
theory CmdArgs
  imports Xlog Env
begin

text \<open>
  The command line of the lookout: \<open>parseCMDArgs\<close> and \<open>usage\<close> of \<open>cmd/lookout/main.go\<close> over Go's \<open>flag\<close>
  package, whose parser stops at the first argument that is no flag and ends the program on an error.
\<close>

section \<open>How a program ends\<close>

datatype 'a prog = Exits nat | Panics string | Goes 'a

fun bindp :: "'a prog \<Rightarrow> ('a \<Rightarrow> 'b prog) \<Rightarrow> 'b prog" where
  "bindp (Exits rc) f = Exits rc"
| "bindp (Panics s) f = Panics s"
| "bindp (Goes x) f = f x"

text \<open>A fatal log call exits with status 1.\<close>

fun of_res :: "'a res \<Rightarrow> 'a prog" where
  "of_res (Inl (Exit s)) = Exits 1"
| "of_res (Inl (Panic s)) = Panics s"
| "of_res (Inr x) = Goes x"

section \<open>strconv\<close>

definition ParseBool :: "string \<Rightarrow> bool option" where
  "ParseBool s =
     (if s \<in> {''1'', ''t'', ''T'', ''TRUE'', ''true'', ''True''} then Some True
      else if s \<in> {''0'', ''f'', ''F'', ''FALSE'', ''false'', ''False''} then Some False else None)"

definition lower_char :: "char \<Rightarrow> char" where
  "lower_char c = (let n = of_char c :: nat in if 65 \<le> n \<and> n \<le> 90 then char_of (n + 32) else c)"

definition digit_in :: "nat \<Rightarrow> char \<Rightarrow> nat option" where
  "digit_in base c =
     (let l = lower_char c; n = of_char l :: nat;
          d = (if 48 \<le> n \<and> n \<le> 57 then n - 48 else if 97 \<le> n \<and> n \<le> 122 then n - 87 else base)
      in if d < base then Some d else None)"

fun digits_in :: "nat \<Rightarrow> nat \<Rightarrow> string \<Rightarrow> nat option" where
  "digits_in base a [] = Some a"
| "digits_in base a (c # cs) =
     (if c = CHR ''_'' then digits_in base a cs
      else case digit_in base c of None \<Rightarrow> None | Some d \<Rightarrow> digits_in base (base * a + d) cs)"

text \<open>Where underscores may stand: between digits, one also after the prefix of the base.\<close>

datatype usaw = SawStart | SawDigit | SawUnder | SawOther

fun under_scan :: "bool \<Rightarrow> usaw \<Rightarrow> string \<Rightarrow> bool" where
  "under_scan hex saw [] = (saw \<noteq> SawUnder)"
| "under_scan hex saw (c # cs) =
     (if digit_in (if hex then 16 else 10) c \<noteq> None then under_scan hex SawDigit cs
      else if c = CHR ''_'' then saw = SawDigit \<and> under_scan hex SawUnder cs
      else saw \<noteq> SawUnder \<and> under_scan hex SawOther cs)"

definition underscoreOK :: "string \<Rightarrow> bool" where
  "underscoreOK s =
     (if 2 \<le> length s \<and> hd s = CHR ''0'' \<and> lower_char (s ! 1) \<in> {CHR ''b'', CHR ''o'', CHR ''x''}
      then under_scan (lower_char (s ! 1) = CHR ''x'') SawDigit (drop 2 s)
      else under_scan False SawStart s)"

text \<open>\<open>ParseUint(s, 0, _)\<close> without its range check.\<close>

definition ParseUint0 :: "string \<Rightarrow> nat option" where
  "ParseUint0 s =
     (if s = [] then None
      else
        let (base, t) =
          (if hd s \<noteq> CHR ''0'' then (10, s)
           else if 3 \<le> length s \<and> lower_char (s ! 1) = CHR ''b'' then (2, drop 2 s)
           else if 3 \<le> length s \<and> lower_char (s ! 1) = CHR ''o'' then (8, drop 2 s)
           else if 3 \<le> length s \<and> lower_char (s ! 1) = CHR ''x'' then (16, drop 2 s)
           else (8, tl s))
        in case digits_in base 0 t of
             None \<Rightarrow> None
           | Some n \<Rightarrow> if CHR ''_'' \<in> set t \<and> \<not> underscoreOK s then None else Some n)"

definition ParseInt0 :: "string \<Rightarrow> int option" where
  "ParseInt0 s =
     (let neg = (s \<noteq> [] \<and> hd s = CHR ''-'');
          body = (if s \<noteq> [] \<and> hd s \<in> {CHR ''-'', CHR ''+''} then tl s else s)
      in case ParseUint0 body of
           None \<Rightarrow> None
         | Some n \<Rightarrow>
             let v = (if neg then - int n else int n)
             in if min_int64 \<le> v \<and> v \<le> max_int64 then Some v else None)"

section \<open>The flag package\<close>

datatype flagval = FBool bool | FInt int | FString string

fun set_flag :: "flagval \<Rightarrow> string \<Rightarrow> flagval option" where
  "set_flag (FBool _) s = map_option FBool (ParseBool s)"
| "set_flag (FInt _) s = map_option FInt (ParseInt0 s)"
| "set_flag (FString _) s = Some (FString s)"

fun is_bool_flag :: "flagval \<Rightarrow> bool" where
  "is_bool_flag (FBool _) = True"
| "is_bool_flag _ = False"

text \<open>\<open>name=value\<close>; a name does not begin with the equals sign.\<close>

definition split_flag :: "string \<Rightarrow> string \<times> string option" where
  "split_flag s =
     (let name = takeWhile (\<lambda>c. c \<noteq> CHR ''='') s; rest = dropWhile (\<lambda>c. c \<noteq> CHR ''='') s
      in (name, if rest = [] then None else Some (tl rest)))"

text \<open>
  \<open>flag.Parse\<close>: the flags after it and the arguments that are left, or the status the program exits with.
\<close>

fun parse_flags :: "(string, flagval) gomap \<Rightarrow> string list \<Rightarrow> ((string, flagval) gomap \<times> string list) prog" where
  "parse_flags m [] = Goes (m, [])"
| "parse_flags m (s # rest) =
     (if length s < 2 \<or> hd s \<noteq> CHR ''-'' then Goes (m, s # rest)
      else if s = ''--'' then Goes (m, rest)
      else
        let name = (if s ! 1 = CHR ''-'' then drop 2 s else drop 1 s) in
        if name = [] \<or> hd name \<in> {CHR ''-'', CHR ''=''} then Exits 2
        else
          let (name, val) = split_flag name in
          case map_of m name of
            None \<Rightarrow> Exits (if name \<in> {''help'', ''h''} then 0 else 2)
          | Some f \<Rightarrow>
              if is_bool_flag f then
                (case set_flag f (case val of None \<Rightarrow> ''true'' | Some v \<Rightarrow> v) of
                   None \<Rightarrow> Exits 2
                 | Some x \<Rightarrow> parse_flags (mput name x m) rest)
              else
                (case val of
                   Some v \<Rightarrow> (case set_flag f v of None \<Rightarrow> Exits 2 | Some x \<Rightarrow> parse_flags (mput name x m) rest)
                 | None \<Rightarrow>
                     (case rest of
                        [] \<Rightarrow> Exits 2
                      | v # rest' \<Rightarrow>
                          (case set_flag f v of None \<Rightarrow> Exits 2 | Some x \<Rightarrow> parse_flags (mput name x m) rest'))))"

text \<open>The parser ends the program with status 0 or 2 only; its recursion is over the arguments.\<close>

definition flags_end :: "((string, flagval) gomap \<times> string list) prog \<Rightarrow> bool" where
  "flags_end r = (case r of Exits rc \<Rightarrow> rc = 0 \<or> rc = 2 | Panics s \<Rightarrow> False | Goes _ \<Rightarrow> True)"

lemma flags_end_simps [simp]:
  "flags_end (Goes x)" "flags_end (Exits 0)" "flags_end (Exits 2)" "\<not> flags_end (Panics s)"
  by (simp_all add: flags_end_def)

lemma flags_end_intros:
  "(\<And>x. r = Some x \<Longrightarrow> flags_end (f x)) \<Longrightarrow> flags_end d \<Longrightarrow> flags_end (case r of None \<Rightarrow> d | Some x \<Rightarrow> f x)"
  "(P \<Longrightarrow> flags_end y) \<Longrightarrow> (\<not> P \<Longrightarrow> flags_end z) \<Longrightarrow> flags_end (if P then y else z)"
  "(\<And>a b. flags_end (g a b)) \<Longrightarrow> flags_end (case q of (a, b) \<Rightarrow> g a b)"
  "flags_end d \<Longrightarrow> (\<And>v vs. l = v # vs \<Longrightarrow> flags_end (k v vs)) \<Longrightarrow> flags_end (case l of [] \<Rightarrow> d | v # vs \<Rightarrow> k v vs)"
  "flags_end (Exits (if P then 0 else 2))"
  by (simp_all split: option.splits prod.splits list.splits)

lemma parse_flags_end: "flags_end (parse_flags m argv)"
proof (induction "length argv" arbitrary: m argv rule: less_induct)
  case less
  show ?case
  proof (cases argv)
    case (Cons s rest)
    have IH: "flags_end (parse_flags m' rest)" "rest = v # rest' \<Longrightarrow> flags_end (parse_flags m' rest')" for m' v rest'
      using less by (simp_all add: Cons)
    show ?thesis
      unfolding Cons parse_flags.simps(2) Let_def
      by (intro flags_end_intros flags_end_simps(1-3) IH) assumption?
  qed simp
qed

section \<open>parseCMDArgs\<close>

text \<open>What the flags are stored in; \<open>ar_Addr\<close> is the address made of the agent address.\<close>

record args =
  ar_ctlPath :: string
  ar_log :: string
  ar_pmdb :: bool
  ar_UdpPort :: string
  ar_httpPort :: int
  ar_PortRangeStr :: string
  ar_AgentName :: string
  ar_agentAddr :: string
  ar_GossipNodesPath :: string
  ar_promPath :: string
  ar_logger :: string
  ar_RaftUUID :: string
  ar_LookoutUUID :: string

text \<open>The flags in the order they are declared in, for an agent and a lookout with given names.\<close>

definition arg_flags :: "args \<Rightarrow> bool \<Rightarrow> bool \<Rightarrow> (string, flagval) gomap" where
  "arg_flags a h help =
     [(''dir'', FString (ar_ctlPath a)), (''h'', FBool h), (''help'', FBool help), (''log'', FString (ar_log a)),
      (''pmdb'', FBool (ar_pmdb a)), (''u'', FString (ar_UdpPort a)), (''hp'', FInt (ar_httpPort a)),
      (''p'', FString (ar_PortRangeStr a)), (''n'', FString (ar_AgentName a)), (''a'', FString (ar_agentAddr a)),
      (''c'', FString (ar_GossipNodesPath a)), (''pr'', FString (ar_promPath a)), (''l'', FString (ar_logger a)),
      (''r'', FString (ar_RaftUUID a)), (''lu'', FString (ar_LookoutUUID a))]"

definition default_args :: "env \<Rightarrow> args" where
  "default_args e =
     \<lparr>ar_ctlPath = ''/tmp/.niova'', ar_log = ''warn'', ar_pmdb = False, ar_UdpPort = ''1054'', ar_httpPort = 6666,
      ar_PortRangeStr = '''', ar_AgentName = e_uuid_String e (e_uuid_New e 0), ar_agentAddr = ''127.0.0.1'',
      ar_GossipNodesPath = '''', ar_promPath = ''./targets.json'', ar_logger = '''', ar_RaftUUID = '''',
      ar_LookoutUUID = e_uuid_String e (e_uuid_New e 1)\<rparr>"

fun flag_string :: "flagval option \<Rightarrow> string" where
  "flag_string (Some (FString s)) = s"
| "flag_string _ = []"

fun flag_bool :: "flagval option \<Rightarrow> bool" where
  "flag_bool (Some (FBool b)) = b"
| "flag_bool _ = False"

fun flag_int :: "flagval option \<Rightarrow> int" where
  "flag_int (Some (FInt i)) = i"
| "flag_int _ = 0"

definition read_args :: "(string, flagval) gomap \<Rightarrow> args" where
  "read_args m =
     (let str = (\<lambda>n. flag_string (map_of m n)) in
      \<lparr>ar_ctlPath = str ''dir'', ar_log = str ''log'', ar_pmdb = flag_bool (map_of m ''pmdb''),
       ar_UdpPort = str ''u'', ar_httpPort = flag_int (map_of m ''hp''), ar_PortRangeStr = str ''p'',
       ar_AgentName = str ''n'', ar_agentAddr = str ''a'', ar_GossipNodesPath = str ''c'',
       ar_promPath = str ''pr'', ar_logger = str ''l'', ar_RaftUUID = str ''r'', ar_LookoutUUID = str ''lu''\<rparr>)"

text \<open>\<open>usage\<close> prints the flags and exits; what it prints, and on which stream, is not part of the model.\<close>

definition usage :: "nat \<Rightarrow> 'a prog" where
  "usage rc = Exits rc"

definition parseCMDArgs ::
  "env \<Rightarrow> (string \<Rightarrow> llevel option) \<Rightarrow> (string \<Rightarrow> string option) \<Rightarrow> string list \<Rightarrow> (args \<times> llevel) prog" where
  "parseCMDArgs e ParseLevel open_log argv =
     bindp (parse_flags (arg_flags (default_args e) False False) argv) (\<lambda>(m, nonParsed).
     let a = read_args m in
     bindp (of_res (InitXlog ParseLevel open_log (ar_logger a) (ar_log a))) (\<lambda>(level, _).
     if nonParsed \<noteq> [] then usage 1
     else if flag_bool (map_of m ''h'') \<or> flag_bool (map_of m ''help'') then usage 0
     else Goes (a, level)))"

section \<open>What a command line says\<close>

text \<open>Flags as they are written on a command line.\<close>

fun write_flag :: "string \<times> flagval \<Rightarrow> string list" where
  "write_flag (n, FBool b) = [''-'' @ n @ ''='' @ (if b then ''true'' else ''false'')]"
| "write_flag (n, FInt i) = [''-'' @ n, Itoa i]"
| "write_flag (n, FString s) = [''-'' @ n, s]"

definition write_flags :: "(string, flagval) gomap \<Rightarrow> string list" where
  "write_flags fs = concat (map write_flag fs)"

fun same_kind :: "flagval \<Rightarrow> flagval \<Rightarrow> bool" where
  "same_kind (FBool _) (FBool _) = True"
| "same_kind (FInt _) (FInt i) = (min_int64 \<le> i \<and> i \<le> max_int64)"
| "same_kind (FString _) (FString _) = True"
| "same_kind _ _ = False"

fun_cases same_kind_IntE: "same_kind f (FInt i)"
  and same_kind_StringE: "same_kind f (FString s)"
  and same_kind_BoolE: "same_kind f (FBool b)"

definition flag_name :: "string \<Rightarrow> bool" where
  "flag_name n = (n \<noteq> [] \<and> hd n \<noteq> CHR ''-'' \<and> CHR ''='' \<notin> set n)"

lemma split_flag_name: "flag_name n \<Longrightarrow> split_flag n = (n, None)"
  by (auto simp: split_flag_def flag_name_def takeWhile_eq_all_conv dropWhile_eq_Nil_conv)

lemma split_flag_value: "flag_name n \<Longrightarrow> split_flag (n @ CHR ''='' # v) = (n, Some v)"
proof -
  assume "flag_name n"
  then have n: "\<forall>c \<in> set n. c \<noteq> CHR ''=''" by (auto simp: flag_name_def)
  then have "takeWhile (\<lambda>c. c \<noteq> CHR ''='') (n @ CHR ''='' # v) = n"
    "dropWhile (\<lambda>c. c \<noteq> CHR ''='') (n @ CHR ''='' # v) = CHR ''='' # v"
    by (simp_all add: takeWhile_append2 dropWhile_append2)
  then show ?thesis by (simp add: split_flag_def)
qed

lemma flag_arg:
  assumes "flag_name n"
  shows "\<not> length (''-'' @ n @ t) < 2" "''-'' @ n @ t \<noteq> ''--''" "(''-'' @ n @ t) ! 1 \<noteq> CHR ''-''"
    "hd (n @ t) \<notin> {CHR ''-'', CHR ''=''}"
  using assms by (cases n; auto simp: flag_name_def)+

text \<open>An argument that is a flag of the program.\<close>

lemma parse_flag:
  assumes n: "flag_name n" and "t = [] \<or> t = CHR ''='' # v" and m: "map_of m n = Some f"
  shows "parse_flags m ((''-'' @ n @ t) # rest) =
    (let val = snd (split_flag (n @ t)) in
     if is_bool_flag f then
       (case set_flag f (case val of None \<Rightarrow> ''true'' | Some v \<Rightarrow> v) of
          None \<Rightarrow> Exits 2
        | Some x \<Rightarrow> parse_flags (mput n x m) rest)
     else
       (case val of
          Some v \<Rightarrow> (case set_flag f v of None \<Rightarrow> Exits 2 | Some x \<Rightarrow> parse_flags (mput n x m) rest)
        | None \<Rightarrow>
            (case rest of
               [] \<Rightarrow> Exits 2
             | v # rest' \<Rightarrow>
                 (case set_flag f v of None \<Rightarrow> Exits 2 | Some x \<Rightarrow> parse_flags (mput n x m) rest'))))"
proof -
  obtain val where sp: "split_flag (n @ t) = (n, val)"
    using assms(2) split_flag_name [OF n] split_flag_value [OF n, of v] by auto
  let ?s = "''-'' @ n @ t"
  have c: "(length ?s < 2 \<or> hd ?s \<noteq> CHR ''-'') = False" "(?s = ''--'') = False" "(?s ! 1 = CHR ''-'') = False"
    "drop 1 ?s = n @ t" "(n @ t = [] \<or> hd (n @ t) \<in> {CHR ''-'', CHR ''=''}) = False"
    using flag_arg [OF n, of t] n by (simp_all add: flag_name_def)
  show ?thesis
    by (simp only: parse_flags.simps(2) c sp m if_False Let_def prod.case option.case snd_conv)
qed

text \<open>So a written flag is read back, whatever its value.\<close>

lemma digit_in_decimal: "d < 10 \<Longrightarrow> digit_in 10 (digit_char d) = Some d \<and> digit_char d \<noteq> CHR ''_''"
proof -
  assume "d < 10"
  then have "d \<in> set [0..<10]" by simp
  moreover have "list_all (\<lambda>d. digit_in 10 (digit_char d) = Some d \<and> digit_char d \<noteq> CHR ''_'') [0..<10]"
    by (simp add: upt_conv_Cons digit_in_def lower_char_def digit_char_def)
  ultimately show ?thesis unfolding list_all_iff by blast
qed

lemma digits_in_append:
  "digits_in b a (xs @ ys) = Option.bind (digits_in b a xs) (\<lambda>a'. digits_in b a' ys)"
  by (induction b a xs rule: digits_in.induct) (auto split: option.splits)

lemma digits_in_decimal: "digits_in 10 0 (nat_digits n) = Some n \<and> CHR ''_'' \<notin> set (nat_digits n)"
proof (induction n rule: nat_digits.induct)
  case (1 n)
  show ?case
  proof (cases "n < 10")
    case True
    then show ?thesis using digit_in_decimal [of n] by (auto simp: nat_digits.simps [of n])
  next
    case False
    have "n mod 10 < 10" by simp
    with 1 [OF False] False digit_in_decimal [of "n mod 10"] show ?thesis
      by (auto simp: nat_digits.simps [of n] digits_in_append)
  qed
qed

lemma ParseUint0_digits: "ParseUint0 (nat_digits n) = Some n"
proof (cases "hd (nat_digits n) = CHR ''0''")
  case True
  then have z: "nat_digits n = ''0''" using nat_digits_zero by blast
  have "digits_val 0 ''0'' = Some 0" by code_simp
  then have "n = 0" using digits_val_nat_digits [of n] unfolding z by simp
  with z show ?thesis by (simp add: ParseUint0_def)
next
  case False
  with digits_in_decimal [of n] show ?thesis by (simp add: ParseUint0_def)
qed

lemma ParseInt0_Itoa: "min_int64 \<le> i \<Longrightarrow> i \<le> max_int64 \<Longrightarrow> ParseInt0 (Itoa i) = Some i"
  using nat_digits_hd ParseUint0_digits by (auto simp: ParseInt0_def Itoa_def)

lemma parse_written:
  assumes n: "flag_name n" and m: "map_of m n = Some f" and k: "same_kind f v"
  shows "parse_flags m (write_flag (n, v) @ rest) = parse_flags (mput n v m) rest"
proof (cases v)
  case (FBool b)
  with k obtain b' where f: "f = FBool b'" by (auto elim: same_kind_BoolE)
  have "ParseBool ''true'' = Some True" "ParseBool ''false'' = Some False" by (simp_all add: ParseBool_def)
  then show ?thesis
    using parse_flag [OF n _ m, of "CHR ''='' # (if b then ''true'' else ''false'')" _ rest] split_flag_value [OF n]
    by (cases b) (simp_all add: FBool f)
next
  case (FInt i)
  with k obtain j where f: "f = FInt j" and i: "min_int64 \<le> i" "i \<le> max_int64" by (auto elim: same_kind_IntE)
  show ?thesis
    using parse_flag [OF n _ m, of "[]" _ "Itoa i # rest"] split_flag_name [OF n] ParseInt0_Itoa [OF i]
    by (simp add: FInt f)
next
  case (FString s)
  with k obtain s' where f: "f = FString s'" by (auto elim: same_kind_StringE)
  show ?thesis
    using parse_flag [OF n _ m, of "[]" _ "s # rest"] split_flag_name [OF n] by (simp add: FString f)
qed

lemma parse_written_all:
  assumes "\<forall>(n, v) \<in> set fs. flag_name n \<and> (\<exists>f. map_of m n = Some f \<and> same_kind f v)"
  shows "parse_flags m (write_flags fs @ rest) = parse_flags (fold (\<lambda>(n, v). mput n v) fs m) rest"
  using assms
proof (induction fs arbitrary: m)
  case (Cons x fs)
  obtain n v where x: "x = (n, v)" by force
  obtain f where f: "flag_name n" "map_of m n = Some f" "same_kind f v" using Cons.prems by (auto simp: x)
  have "\<forall>(k, u) \<in> set fs. flag_name k \<and> (\<exists>g. map_of (mput n v m) k = Some g \<and> same_kind g u)"
  proof clarify
    fix k u assume "(k, u) \<in> set fs"
    then obtain g where g: "flag_name k" "map_of m k = Some g" "same_kind g u" using Cons.prems by auto
    have "same_kind v u" if "k = n"
      using that g f by (cases v; cases u; cases f; cases g) auto
    with g show "flag_name k \<and> (\<exists>g. map_of (mput n v m) k = Some g \<and> same_kind g u)" by auto
  qed
  from Cons.IH [OF this] parse_written [OF f, of "write_flags fs @ rest"] show ?case
    by (simp add: x write_flags_def)
qed (simp add: write_flags_def)

text \<open>The whole command line.\<close>

lemma read_arg_flags: "read_args (arg_flags a h help) = a"
  by (simp add: read_args_def arg_flags_def)

lemma parse_arg_flags:
  assumes "min_int64 \<le> ar_httpPort a" and "ar_httpPort a \<le> max_int64"
  shows "parse_flags (arg_flags d h0 help0) (write_flags (arg_flags a h help) @ rest) =
    parse_flags (arg_flags a h help) rest"
proof -
  have all: "fold (\<lambda>(n, v). mput n v) (arg_flags a h help) (arg_flags d h0 help0) = arg_flags a h help"
    by (simp add: arg_flags_def)
  have "\<forall>(n, v) \<in> set (arg_flags a h help).
      flag_name n \<and> (\<exists>f. map_of (arg_flags d h0 help0) n = Some f \<and> same_kind f v)"
    using assms by (simp add: arg_flags_def flag_name_def)
  from parse_written_all [OF this, of rest] show ?thesis unfolding all .
qed

lemma parse_command_line:
  assumes port: "min_int64 \<le> ar_httpPort a" "ar_httpPort a \<le> max_int64"
    and log: "ParseLevel (ar_log a) = Some level" "ar_logger a = [] \<or> open_log (ar_logger a) = None"
  shows "parseCMDArgs e ParseLevel open_log (write_flags (arg_flags a h help)) =
      (if h \<or> help then Exits 0 else Goes (a, level))"
    and "length x < 2 \<or> hd x \<noteq> CHR ''-'' \<Longrightarrow>
      parseCMDArgs e ParseLevel open_log (write_flags (arg_flags a h help) @ x # xs) = Exits 1"
    and "flag_name n \<Longrightarrow> n \<notin> fst ` set (arg_flags a h help) \<Longrightarrow>
      parseCMDArgs e ParseLevel open_log (write_flags (arg_flags a h help) @ (''-'' @ n) # xs) = Exits 2"
proof -
  have i: "\<exists>out. InitXlog ParseLevel open_log (ar_logger a) (ar_log a) = Inr (level, out)"
    using log by (auto simp: InitXlog_def split: option.splits)
  have hs: "flag_bool (map_of (arg_flags a h help) ''h'') = h" "flag_bool (map_of (arg_flags a h help) ''help'') = help"
    by (simp_all add: arg_flags_def)
  note p = parse_arg_flags [OF port]
  show "parseCMDArgs e ParseLevel open_log (write_flags (arg_flags a h help)) =
      (if h \<or> help then Exits 0 else Goes (a, level))"
    using i p [where rest = "[]"] hs by (auto simp: parseCMDArgs_def read_arg_flags usage_def)
  show "parseCMDArgs e ParseLevel open_log (write_flags (arg_flags a h help) @ x # xs) = Exits 1"
    if "length x < 2 \<or> hd x \<noteq> CHR ''-''"
    using i p [where rest = "x # xs"] that by (auto simp: parseCMDArgs_def read_arg_flags usage_def)
  show "parseCMDArgs e ParseLevel open_log (write_flags (arg_flags a h help) @ (''-'' @ n) # xs) = Exits 2"
    if n: "flag_name n" and new: "n \<notin> fst ` set (arg_flags a h help)"
  proof -
    have none: "map_of (arg_flags a h help) n = None" using new by (simp add: map_of_eq_None_iff)
    have known: "n \<notin> {''help'', ''h''}" using new by (auto simp: arg_flags_def)
    have c: "(length (''-'' @ n) < 2 \<or> hd (''-'' @ n) \<noteq> CHR ''-'') = False" "(''-'' @ n = ''--'') = False"
      "((''-'' @ n) ! 1 = CHR ''-'') = False" "drop 1 (''-'' @ n) = n"
      "(n = [] \<or> hd n \<in> {CHR ''-'', CHR ''=''}) = False"
      using flag_arg [OF n, of "[]"] n by (simp_all add: flag_name_def)
    have "parse_flags (arg_flags a h help) ((''-'' @ n) # xs) = Exits 2"
      by (simp only: parse_flags.simps(2) c split_flag_name [OF n] none known if_False Let_def prod.case option.case)
    with p [where rest = "(''-'' @ n) # xs"] show ?thesis by (simp add: parseCMDArgs_def)
  qed
qed

end
