(* ===== verification/NisdConfig.thy ===== *)
theory NisdConfig
  imports Container
begin

text \<open>
  The configuration record a NISD asks for by UDP: \<open>FillNisdCStruct\<close> of \<open>nisd.go\<close>, which fills a C
  structure byte by byte. The structure is its bytes; a copy beyond its end is undefined behaviour and
  has no value.
\<close>

section \<open>The C structure\<close>

text \<open>
  \<open>struct nisd_config\<close>: \<open>char nisd_uuid[37]\<close> at 0, \<open>char nisd_ipaddr[16]\<close> at 37, three bytes of padding,
  \<open>int nisdc_addr_len\<close> at 56, \<open>int nisd_port\<close> at 60; 64 bytes in all.
\<close>

definition off_ipaddr :: nat where "off_ipaddr = 37"
definition off_addr_len :: nat where "off_addr_len = 56"
definition off_port :: nat where "off_port = 60"
definition sizeof_nisd_config :: nat where "sizeof_nisd_config = 64"

abbreviation NUL :: char where "NUL \<equiv> CHR 0x00"

text \<open>The C string a pointer leads to, and \<open>strncpy\<close> into a structure at an offset.\<close>

definition c_str :: "string \<Rightarrow> string" where
  "c_str s = takeWhile (\<lambda>c. c \<noteq> NUL) s"

definition store :: "nat \<Rightarrow> string \<Rightarrow> string \<Rightarrow> string option" where
  "store off bs mem =
     (if length mem < off + length bs then None
      else Some (take off mem @ bs @ drop (off + length bs) mem))"

definition strncpy :: "nat \<Rightarrow> string \<Rightarrow> nat \<Rightarrow> string \<Rightarrow> string option" where
  "strncpy off src n mem = store off (take n (c_str src @ replicate n NUL)) mem"

definition c_int :: "int \<Rightarrow> string" where
  "c_int i = put32 (word_of_int i)"

definition FillNisdCStruct :: "string \<Rightarrow> string \<Rightarrow> int \<Rightarrow> string option" where
  "FillNisdCStruct UUID ipaddr port =
     Option.bind (strncpy 0 (UUID @ [NUL]) (length UUID + 1) (replicate sizeof_nisd_config NUL)) (\<lambda>m.
     Option.bind (strncpy off_ipaddr (ipaddr @ [NUL]) (length ipaddr + 1) m) (\<lambda>m.
     Option.bind (store off_addr_len (c_int (int (length ipaddr))) m) (\<lambda>m.
     store off_port (c_int port) m)))"

section \<open>Reading it back\<close>

text \<open>What a C reader of the structure sees.\<close>

definition rd_uuid :: "string \<Rightarrow> string" where "rd_uuid m = c_str m"
definition rd_ipaddr :: "string \<Rightarrow> string" where "rd_ipaddr m = c_str (drop off_ipaddr m)"
definition rd_addr_len :: "string \<Rightarrow> int" where "rd_addr_len m = sint (get32 m off_addr_len)"
definition rd_port :: "string \<Rightarrow> int" where "rd_port m = sint (get32 m off_port)"

lemma length_store: "store off bs mem = Some m \<Longrightarrow> length m = length mem"
  by (auto simp: store_def split: if_splits)

lemma c_str_id: "NUL \<notin> set s \<Longrightarrow> c_str (s @ NUL # t) = s"
  by (auto simp: c_str_def takeWhile_tail)

lemma strncpy_cstr:
  assumes "NUL \<notin> set s" and "off + length s + 1 \<le> length mem"
  shows "strncpy off (s @ [NUL]) (length s + 1) mem =
    Some (take off mem @ s @ NUL # drop (off + length s + 1) mem)"
  using assms c_str_id [OF assms(1), of "[]"] by (simp add: strncpy_def store_def)

text \<open>
  The bytes of the record for a uuid of 36 bytes and an address that fits, both without NUL bytes.
\<close>

lemma FillNisdCStruct_bytes:
  assumes "length UUID = 36" and "length ipaddr \<le> 15" and "NUL \<notin> set UUID" and "NUL \<notin> set ipaddr"
  shows "FillNisdCStruct UUID ipaddr port =
    Some (UUID @ NUL # ipaddr @ replicate (19 - length ipaddr) NUL @ c_int (int (length ipaddr)) @ c_int port)"
proof -
  have drop_rep: "drop k (replicate n NUL) = replicate (n - k) NUL" "take k (replicate n NUL) = replicate (min k n) NUL"
    for k n by simp_all
  have a: "strncpy 0 (UUID @ [NUL]) (length UUID + 1) (replicate sizeof_nisd_config NUL) =
      Some (UUID @ NUL # replicate 27 NUL)"
    using assms(1) by (subst strncpy_cstr [OF assms(3)]) (simp_all add: sizeof_nisd_config_def)
  have b: "strncpy off_ipaddr (ipaddr @ [NUL]) (length ipaddr + 1) (UUID @ NUL # replicate 27 NUL) =
      Some (UUID @ NUL # ipaddr @ replicate (27 - length ipaddr) NUL)"
  proof -
    have "replicate (27 - length ipaddr) NUL = NUL # replicate (26 - length ipaddr) NUL"
      using assms(2) by (cases "27 - length ipaddr") (auto simp: Suc_diff_le)
    then show ?thesis
      using assms(1,2) by (subst strncpy_cstr [OF assms(4)]) (simp_all add: off_ipaddr_def take_Cons' drop_Cons')
  qed
  have split: "replicate (27 - length ipaddr) NUL = replicate (19 - length ipaddr) NUL @ replicate 8 NUL"
    using assms(2) by (simp flip: replicate_add)
  have c: "store off_addr_len x (UUID @ NUL # ipaddr @ replicate (27 - length ipaddr) NUL) =
      Some (UUID @ NUL # ipaddr @ replicate (19 - length ipaddr) NUL @ x @ replicate 4 NUL)"
    if "length x = 4" for x
    using assms(1,2) that unfolding split by (simp add: store_def off_addr_len_def)
  have d: "store off_port y (UUID @ NUL # ipaddr @ replicate (19 - length ipaddr) NUL @ x @ replicate 4 NUL) =
      Some (UUID @ NUL # ipaddr @ replicate (19 - length ipaddr) NUL @ x @ y)"
    if "length x = 4" "length y = 4" for x y
    using assms(1,2) that by (simp add: store_def off_port_def)
  have len: "length (c_int i) = 4" for i by (simp add: c_int_def)
  show ?thesis
    unfolding FillNisdCStruct_def a b c [OF len] d [OF len len] Option.bind.simps ..
qed

text \<open>The copies stay inside the structure exactly for these lengths; beyond them memory is overwritten.\<close>

lemma length_strncpy: "strncpy off src n mem = Some m \<Longrightarrow> length m = length mem"
  by (auto simp: strncpy_def dest: length_store)

lemma strncpy_defined: "strncpy off src n mem \<noteq> None \<longleftrightarrow> off + n \<le> length mem"
  by (auto simp: strncpy_def store_def min_def)

lemma FillNisdCStruct_defined:
  "FillNisdCStruct UUID ipaddr port \<noteq> None \<longleftrightarrow> length UUID \<le> 63 \<and> length ipaddr \<le> 26"
proof -
  have store4: "store off (c_int i) m \<noteq> None \<longleftrightarrow> off + 4 \<le> length m" for off i m
    by (simp add: store_def c_int_def)
  show ?thesis
  proof (cases "length UUID \<le> 63")
    case True
    with strncpy_defined obtain m1 where m1:
      "strncpy 0 (UUID @ [NUL]) (length UUID + 1) (replicate sizeof_nisd_config NUL) = Some m1"
      by (fastforce simp: sizeof_nisd_config_def)
    have l1: "length m1 = 64" using length_strncpy [OF m1] by (simp add: sizeof_nisd_config_def)
    show ?thesis
    proof (cases "length ipaddr \<le> 26")
      case ip: True
      with strncpy_defined l1 obtain m2 where m2:
        "strncpy off_ipaddr (ipaddr @ [NUL]) (length ipaddr + 1) m1 = Some m2"
        by (fastforce simp: off_ipaddr_def)
      have l2: "length m2 = 64" using length_strncpy [OF m2] l1 by simp
      with store4 obtain m3 where m3: "store off_addr_len (c_int (int (length ipaddr))) m2 = Some m3"
        by (fastforce simp: off_addr_len_def)
      have "length m3 = 64" using length_store [OF m3] l2 by simp
      with store4 [of off_port port m3] True ip m1 m2 m3 show ?thesis
        by (simp add: FillNisdCStruct_def off_port_def)
    next
      case False
      with strncpy_defined [of off_ipaddr "ipaddr @ [NUL]" "length ipaddr + 1" m1] l1 m1 show ?thesis
        by (simp add: FillNisdCStruct_def off_ipaddr_def)
    qed
  next
    case False
    with strncpy_defined [of 0 "UUID @ [NUL]" "length UUID + 1" "replicate sizeof_nisd_config NUL"] show ?thesis
      by (simp add: FillNisdCStruct_def sizeof_nisd_config_def)
  qed
qed

lemma c_int_read: "get32 (xs @ c_int i @ ys) (length xs) = word_of_int i"
  unfolding c_int_def by (rule get32_put32) simp_all

lemma FillNisdCStruct_read:
  assumes "length UUID = 36" and "length ipaddr \<le> 15" and "NUL \<notin> set UUID" and "NUL \<notin> set ipaddr"
    and "- (2 ^ 31) \<le> port" and "port < 2 ^ 31"
  obtains m where "FillNisdCStruct UUID ipaddr port = Some m" "length m = 64" "rd_uuid m = UUID"
    "rd_ipaddr m = ipaddr" "rd_addr_len m = int (length ipaddr)" "rd_port m = port"
proof -
  let ?m = "UUID @ NUL # ipaddr @ replicate (19 - length ipaddr) NUL @ c_int (int (length ipaddr)) @ c_int port"
  have rep: "replicate (19 - length ipaddr) NUL = NUL # replicate (18 - length ipaddr) NUL"
    using assms(2) by (cases "19 - length ipaddr") (auto simp: Suc_diff_le)
  have s: "sint (word_of_int i :: 32 word) = i" if "- (2 ^ 31) \<le> i" "i < 2 ^ 31" for i
    using that by (simp add: signed_of_int signed_take_bit_int_eq_self)
  have "rd_uuid ?m = UUID" using assms(3) by (simp add: rd_uuid_def c_str_id)
  moreover have "drop off_ipaddr ?m = ipaddr @ NUL # replicate (18 - length ipaddr) NUL @
      c_int (int (length ipaddr)) @ c_int port"
    using assms(1) by (simp add: off_ipaddr_def rep drop_Cons')
  then have "rd_ipaddr ?m = ipaddr" using assms(4) by (simp add: rd_ipaddr_def c_str_id)
  moreover have "rd_addr_len ?m = int (length ipaddr)"
  proof -
    have "get32 ?m off_addr_len = word_of_int (int (length ipaddr))"
      using c_int_read [of "UUID @ NUL # ipaddr @ replicate (19 - length ipaddr) NUL"
          "int (length ipaddr)" "c_int port"] assms(1,2) by (simp add: off_addr_len_def)
    then show ?thesis using s [of "int (length ipaddr)"] assms(2) by (simp add: rd_addr_len_def)
  qed
  moreover have "rd_port ?m = port"
  proof -
    have "get32 ?m off_port = word_of_int port"
      using c_int_read [of "UUID @ NUL # ipaddr @ replicate (19 - length ipaddr) NUL @ c_int (int (length ipaddr))"
          port "[]"] assms(1,2) by (simp add: off_port_def c_int_def)
    then show ?thesis using s [of port] assms(5,6) by (simp add: rd_port_def)
  qed
  moreover have "length ?m = 64" using assms(1,2) by (simp add: c_int_def)
  ultimately show ?thesis using that FillNisdCStruct_bytes [OF assms(1-4)] by blast
qed

end
