(* ===== verification/UdpService.thy ===== *)
theory UdpService
  imports NisdConfig
begin

text \<open>
  The configuration service of \<open>gossip_comms.go\<close>: \<open>StartUDPListner\<close>, which reads datagrams into a buffer of
  1024 bytes and starts \<open>getConfigNSend\<close> for each, with \<open>RequestPMDB\<close> of \<open>pmdb.go\<close> and the wire types of
  \<open>requestResponseLib.go\<close>.
\<close>

section \<open>Wire types\<close>

record KVRequest =
  kq_Operation :: string
  kq_Key :: string
  kq_Value :: string
  kq_CheckSum :: string

record KVResponse =
  kr_Status :: int
  kr_Value :: string

text \<open>Declared for the same protocol, but used nowhere.\<close>

record PMDBKVResponse =
  pr_Status :: int
  pr_Key :: string
  pr_ResultMap :: "(string, string) gomap"
  pr_ContinueRead :: bool
  pr_Prefix :: string
  pr_SeqNum :: u64
  pr_SnapMiss :: bool

record LookoutRequest =
  lr_UUID :: string
  lr_Cmd :: string

definition zero_KVRequest :: KVRequest where
  "zero_KVRequest = \<lparr>kq_Operation = [], kq_Key = [], kq_Value = [], kq_CheckSum = replicate 16 NUL\<rparr>"

definition zero_KVResponse :: KVResponse where
  "zero_KVResponse = \<lparr>kr_Status = 0, kr_Value = []\<rparr>"

section \<open>Asking PMDB\<close>

text \<open>
  The gob encoder of a request, the service discovery client, which returns bytes and an error, and what
  the gob decoder makes of a response (the error of \<open>Decode\<close> is not looked at).
\<close>

record penv =
  p_Encode :: "KVRequest \<Rightarrow> goerr + string"
  p_Request :: "string \<Rightarrow> string \<times> goerr option"
  p_Decode :: "string \<Rightarrow> KVResponse \<Rightarrow> KVResponse"

definition RequestPMDB :: "penv \<Rightarrow> string \<Rightarrow> string \<times> goerr option" where
  "RequestPMDB p key =
     (case p_Encode p (zero_KVRequest\<lparr>kq_Operation := ''read'', kq_Key := key\<rparr>) of
        Inl err \<Rightarrow> ([], Some err)
      | Inr requestByte \<Rightarrow> p_Request p requestByte)"

text \<open>
  \<open>json.Unmarshal\<close> into a nil map of strings, whose error is not looked at: the map is made for an object
  and takes every member; a value that is no string leaves the member's empty string.
\<close>

definition Unmarshal_strmap :: "string \<Rightarrow> (string, string) gomap" where
  "Unmarshal_strmap s =
     (case json_parse s of
        Some (VObj ms) \<Rightarrow>
          fold (\<lambda>(k, v). mput (unquote k) (case dec_string v of None \<Rightarrow> [] | Some t \<Rightarrow> t)) ms []
      | _ \<Rightarrow> [])"

text \<open>
  The result of \<open>getConfigNSend\<close> is the datagram sent back; a copy beyond the C structure is undefined
  behaviour, which ends the model's run like a panic does.
\<close>

definition getConfigNSend :: "env \<Rightarrow> penv \<Rightarrow> string \<Rightarrow> world \<Rightarrow> string res" where
  "getConfigNSend e p data w =
     (if length data < 36 then Inl (Panic ''slice bounds out of range'')
      else
        let uuidString = take 36 data in
        bindr (MarkAlive e uuidString w) (\<lambda>_.
          let responseByte = fst (RequestPMDB p uuidString);
              responseObj = p_Decode p responseByte zero_KVResponse;
              value = Unmarshal_strmap (kr_Value responseObj);
              get = (\<lambda>k. case map_of value k of None \<Rightarrow> [] | Some v \<Rightarrow> v);
              ipaddr = get ''IP_ADDR'';
              port = fst (Atoi (get ''Port''))
          in (case FillNisdCStruct uuidString ipaddr port of None \<Rightarrow> Inl Undefined | Some m \<Rightarrow> Inr m)))"

section \<open>Listening\<close>

record UdpMessage =
  um_addr :: string
  um_message :: string

text \<open>What \<open>ReadFrom\<close> makes of a new buffer: the datagram as far as it fits, zeros behind it.\<close>

definition udp_bufsize :: nat where "udp_bufsize = 1024"

definition ReadFrom :: "string \<Rightarrow> string" where
  "ReadFrom datagram = take udp_bufsize datagram @ replicate (udp_bufsize - length datagram) NUL"

text \<open>The loop over the reads: a read that fails is skipped, any other is handed to a goroutine.\<close>

fun listen_loop :: "(goerr + string \<times> string) list \<Rightarrow> UdpMessage list" where
  "listen_loop [] = []"
| "listen_loop (Inl err # reads) = listen_loop reads"
| "listen_loop (Inr (datagram, addr) # reads) =
     \<lparr>um_addr = addr, um_message = ReadFrom datagram\<rparr> # listen_loop reads"

text \<open>A failed \<open>ListenPacket\<close> is logged and leaves a nil socket, which the next statements use.\<close>

definition StartUDPListner :: "goerr option \<Rightarrow> (goerr + string \<times> string) list \<Rightarrow> UdpMessage list res" where
  "StartUDPListner listen_err reads = (if listen_err \<noteq> None then Inl nil_deref else Inr (listen_loop reads))"

section \<open>What the service does\<close>

lemma length_ReadFrom [simp]: "length (ReadFrom d) = 1024"
  by (simp add: ReadFrom_def udp_bufsize_def)

lemma take_ReadFrom: "n \<le> length d \<Longrightarrow> n \<le> 1024 \<Longrightarrow> take n (ReadFrom d) = take n d"
  by (simp add: ReadFrom_def udp_bufsize_def min_def)

lemma short_ReadFrom: "length d < n \<Longrightarrow> n \<le> 1024 \<Longrightarrow> NUL \<in> set (take n (ReadFrom d))"
  by (simp add: ReadFrom_def udp_bufsize_def min_def)

lemma listen_loop_eq:
  "listen_loop reads =
     [\<lparr>um_addr = addr, um_message = ReadFrom d\<rparr>. Inr (d, addr) \<leftarrow> reads]"
  by (induction reads rule: listen_loop.induct) simp_all

text \<open>The address PMDB has stored under a key, as far as the code looks: none is the empty address.\<close>

definition stored_addr :: "penv \<Rightarrow> string \<Rightarrow> string" where
  "stored_addr p key =
     (case map_of (Unmarshal_strmap (kr_Value (p_Decode p (fst (RequestPMDB p key)) zero_KVResponse))) ''IP_ADDR'' of
        None \<Rightarrow> []
      | Some v \<Rightarrow> v)"

text \<open>The endpoints \<open>MarkAlive\<close> panics on.\<close>

definition unready :: "env \<Rightarrow> world \<Rightarrow> string \<Rightarrow> bool" where
  "unready e w key =
     (case e_uuid_Parse e key of
        Inl _ \<Rightarrow> False
      | Inr u \<Rightarrow>
          (case map_of (w_epMap w) u of
             None \<Rightarrow> False
           | Some r \<Rightarrow> ep_State (w_eps w r) \<in> {EPstateInit, EPstateDown}))"

lemma MarkAlive_cases:
  obtains "unready e w key" "MarkAlive e key w = Inl (Panic ''This code path is broken'')"
  | err where "\<not> unready e w key" "MarkAlive e key w = Inr err"
  by (cases "unready e w key"; cases "MarkAlive e key w")
     (auto simp: unready_def MarkAlive_def split: sum.splits option.splits if_splits)

lemma getConfigNSend_halts:
  assumes "36 \<le> length data"
  shows "getConfigNSend e p data w = Inl h \<longleftrightarrow>
    (if unready e w (take 36 data) then h = Panic ''This code path is broken''
     else h = Undefined \<and> 26 < length (stored_addr p (take 36 data)))"
proof (cases rule: MarkAlive_cases [of e w "take 36 data"])
  case 1
  with assms show ?thesis by (auto simp: getConfigNSend_def)
next
  case (2 err)
  let ?m = "\<lambda>port. FillNisdCStruct (take 36 data) (stored_addr p (take 36 data)) port"
  have "?m port = None \<longleftrightarrow> 26 < length (stored_addr p (take 36 data))" for port
    using FillNisdCStruct_defined [of "take 36 data" "stored_addr p (take 36 data)" port] assms by auto
  with 2 assms show ?thesis
    by (auto simp: getConfigNSend_def Let_def stored_addr_def split: option.splits)
qed

lemma strmap_printed:
  "Unmarshal_strmap (compact (JObj [(''IP_ADDR'', JStr ip), (''Port'', JStr port)])) =
     [(''IP_ADDR'', to_valid ip), (''Port'', to_valid port)]"
proof -
  have "json_parse (compact (JObj [(''IP_ADDR'', JStr ip), (''Port'', JStr port)])) =
      Some (VObj [(raw_string ''IP_ADDR'', VStr (raw_string ip)), (raw_string ''Port'', VStr (raw_string port))])"
    by (subst ctext.dec_enc) (simp_all add: printable_def max_depth_def)
  moreover have "unquote (raw_string ''IP_ADDR'') = ''IP_ADDR''" "unquote (raw_string ''Port'') = ''Port''"
    by (simp_all add: unquote_raw_ascii)
  ultimately show ?thesis by (simp add: Unmarshal_strmap_def dec_string_def unquote_raw_string)
qed

text \<open>What is sent back for an entry of PMDB: the record with the entry's address and port.\<close>

lemma getConfigNSend_answer:
  assumes "36 \<le> length data" and "MarkAlive e (take 36 data) w = Inr err"
    and "kr_Value (p_Decode p (fst (RequestPMDB p (take 36 data))) zero_KVResponse) =
      compact (JObj [(''IP_ADDR'', JStr ip), (''Port'', JStr (Itoa port))])"
    and "utf8_valid ip" and "min_int64 \<le> port" "port \<le> max_int64"
    and "FillNisdCStruct (take 36 data) ip port = Some m"
  shows "getConfigNSend e p data w = Inr m"
proof -
  have "to_valid (Itoa port) = Itoa port" using Itoa_ascii by (intro to_valid_id ascii_valid)
  with assms show ?thesis
    by (simp add: getConfigNSend_def strmap_printed to_valid_id Atoi_Itoa)
qed

end
