(* ===== verification/MainProg.thy ===== *)
theory MainProg
  imports LookoutSystem GossipInv Startup CmdArgs UdpService
begin

text \<open>
  \<open>main\<close> of \<open>cmd/lookout/main.go\<close>: the command line, the hand-over of the HTTP server's result, the liveness
  check, the gossip set-up and the start of the lookout, in this order.
\<close>

section \<open>The code\<close>

text \<open>The structures handed to the serf agent and to the service discovery client.\<close>

record SerfAgentHandler =
  sa_Name :: string
  sa_Addr :: ip
  sa_ServicePortRangeS :: u16
  sa_ServicePortRangeE :: u16
  sa_AddrList :: "ip list"

record ServiceDiscoveryHandler =
  sd_HTTPRetry :: int
  sd_SerfRetry :: int
  sd_RaftUUID :: string

definition serf_handler :: "args \<Rightarrow> CommHandler \<Rightarrow> SerfAgentHandler" where
  "serf_handler a h =
     \<lparr>sa_Name = ar_AgentName a, sa_Addr = cm_Addr h, sa_ServicePortRangeS = cm_ServicePortRangeS h,
      sa_ServicePortRangeE = cm_ServicePortRangeE h, sa_AddrList = cm_addrList h\<rparr>"

text \<open>
  What \<open>main\<close> meets beside \<open>env\<close> and \<open>genv\<close>: logrus's level parser, the opening of the log file, the answers to
  the attempts to listen, where \<open>main\<close> and the goroutine get to with the channel, the answers to the liveness
  requests, the outcomes of the starts of a serf agent, whether a service discovery client that has been
  started with the path of the gossip file, for which \<open>StartClientAPI\<close> waits, ever becomes ready, the error of
  \<open>ListenPacket\<close> for a UDP port, and whether the goroutine of the UDP listener gets past that call before the
  lookout's \<open>Start\<close> is in its monitor loop.
\<close>

record menv =
  m_ParseLevel :: "string \<Rightarrow> llevel option"
  m_open_log :: "string \<Rightarrow> string option"
  m_listen :: "nat \<Rightarrow> string option"
  m_boot :: boot
  m_live :: "bool list"
  m_serf :: "SerfAgentHandler \<Rightarrow> nat \<Rightarrow> serf_outcome"
  m_ready :: "ServiceDiscoveryHandler \<Rightarrow> string \<Rightarrow> bool"
  m_udp :: "string \<Rightarrow> goerr option"
  m_udp_first :: bool

definition received :: "main_pc \<Rightarrow> string option option" where
  "received pc = (case pc of MGot v \<Rightarrow> Some v | _ \<Rightarrow> None)"

text \<open>The channel carries what \<open>ServeHttp\<close> returns for the one port, and both sides have gone as far as they can.\<close>

definition served :: "menv \<Rightarrow> string option \<times> bool" where
  "served m = ServeHttp (m_listen m) 1"

definition boots :: "menv \<Rightarrow> bool" where
  "boots m = ((boot_step (fst (served m)))\<^sup>*\<^sup>* boot_init (m_boot m) \<and> (\<nexists>t. boot_step (fst (served m)) (m_boot m) t))"

text \<open>The zero values of what \<open>main\<close> does not set; \<open>make([]uint16, 1)\<close> is one zero port.\<close>

definition init_handler :: "args \<Rightarrow> CommHandler" where
  "init_handler a =
     \<lparr>cm_Addr = ParseIP (ar_agentAddr a), cm_addrList = [], cm_PortRange = [0], cm_ServicePortRangeS = 0,
      cm_ServicePortRangeE = 0, cm_HttpPort = ar_httpPort a, cm_LookoutUUID = ar_LookoutUUID a, cm_Lookouts = None\<rparr>"

definition init_world :: "args \<Rightarrow> world" where
  "init_world a =
     \<lparr>w_lh = \<lparr>lh_PromPath = ar_promPath a, lh_HttpPort = ar_httpPort a, lh_CTLPath = ar_ctlPath a, lh_lsofGen = 0,
              lh_state = BOOTING, lh_inotify = \<lparr>ino_ifd = 0, ino_wd = 0, ino_wmap = []\<rparr>\<rparr>,
      w_epc = \<lparr>epc_MonitorUUID = ''*'', epc_epMap = []\<rparr>, w_eps = (\<lambda>_. new_ep 0 0), w_neps = 0,
      w_cmds = (\<lambda>_. \<lparr>c_ep = 0, c_cmd = [], c_id = 0, c_outJSON = [], c_err = None, c_op = IdentifyOp,
                      c_start = zero_time\<rparr>), w_ncmds = 0, w_uuids = 2, w_sys = []\<rparr>"

definition setup_gossip ::
  "env \<Rightarrow> genv \<Rightarrow> (SerfAgentHandler \<Rightarrow> nat \<Rightarrow> serf_outcome) \<Rightarrow> args \<Rightarrow> CommHandler \<Rightarrow> (service list \<times> CommHandler) res" where
  "setup_gossip e g serf a h =
     (if ar_GossipNodesPath a = [] then Inr ([], h)
      else bindr (LoadConfigInfo e g (ar_GossipNodesPath a) h) (\<lambda>(err, h).
        Inr (gossipSetup (ar_GossipNodesPath a) err (StartSerfAgent (serf (serf_handler a h))) (ar_pmdb a), h)))"

text \<open>\<open>StartClientAPI\<close>: whether it returns; the error of the client's goroutine is only logged.\<close>

definition StartClientAPI :: "menv \<Rightarrow> args \<Rightarrow> bool" where
  "StartClientAPI m a =
     m_ready m \<lparr>sd_HTTPRetry = 10, sd_SerfRetry = 5, sd_RaftUUID = ar_RaftUUID a\<rparr> (ar_GossipNodesPath a)"

text \<open>How \<open>main\<close> can go: it ends, waits for ever, or is in the monitor loop with the services started.\<close>

datatype main_end = MExit nat | MPanic string | MWaits | MRuns args "service list" CommHandler world

fun halted :: "halt \<Rightarrow> main_end" where
  "halted (Exit s) = MExit 1"
| "halted (Panic s) = MPanic s"
| "halted Undefined = MPanic ''undefined behaviour''"

text \<open>What the goroutine of the UDP listener, if it is started, does to the process before it reads.\<close>

definition udp_halt :: "menv \<Rightarrow> args \<Rightarrow> service list \<Rightarrow> halt option" where
  "udp_halt m a services =
     (if UDPListner \<in> set services then
        (case StartUDPListner (m_udp m (ar_UdpPort a)) [] of Inl x \<Rightarrow> Some x | Inr _ \<Rightarrow> None)
      else None)"

text \<open>
  The end of \<open>main\<close>: the gossip set-up and the lookout's \<open>Start\<close>. The UDP listener runs beside \<open>Start\<close>: its panic
  ends the process either before \<open>Start\<close> does anything that ends it or when \<open>Start\<close> is in the monitor loop.
\<close>

definition main_lookout :: "env \<Rightarrow> genv \<Rightarrow> menv \<Rightarrow> args \<Rightarrow> main_end" where
  "main_lookout e g m a =
     (case setup_gossip e g (m_serf m) a (init_handler a) of
        Inl x \<Rightarrow> halted x
      | Inr (services, h) \<Rightarrow>
          if ClientAPI \<in> set services \<and> \<not> StartClientAPI m a then MWaits
          else if udp_halt m a services \<noteq> None \<and> m_udp_first m then halted (the (udp_halt m a services))
          else
            (case Start e (init_world a) of
               Inl x \<Rightarrow> halted x
             | Inr (Some err, w) \<Rightarrow> MExit 1
             | Inr (None, w) \<Rightarrow>
                 (case udp_halt m a services of
                    Some x \<Rightarrow> halted x
                  | None \<Rightarrow> MRuns a services h w)))"

definition main :: "env \<Rightarrow> genv \<Rightarrow> menv \<Rightarrow> string list \<Rightarrow> main_end" where
  "main e g m argv =
     (case parseCMDArgs e (m_ParseLevel m) (m_open_log m) argv of
        Exits rc \<Rightarrow> MExit rc
      | Panics s \<Rightarrow> MPanic s
      | Goes (a, level) \<Rightarrow>
          (case received (b_main (m_boot m)) of
             None \<Rightarrow> MWaits
           | Some (Some err) \<Rightarrow> MExit 1
           | Some None \<Rightarrow>
               (case CheckHTTPLiveness (m_live m) of
                  None \<Rightarrow> MWaits
                | Some _ \<Rightarrow> main_lookout e g m a)))"

section \<open>What it comes to\<close>

text \<open>A lookout that runs has been started from the state \<open>main\<close> made.\<close>

lemma halted_not_runs [simp]: "halted x \<noteq> MRuns a services h w" "halted x \<noteq> MWaits"
  by (cases x; simp)+

lemma main_lookout_runs:
  assumes "main_lookout e g m a = MRuns a' services h w"
  shows "Start e (init_world a) = Inr (None, w)"
  using assms by (auto simp: main_lookout_def split: option.splits sum.splits if_splits)

lemma main_lookout_started:
  assumes "inotify_ok e" "proc_ok e" and "main_lookout e g m a = MRuns a' services h w"
  shows "started w"
  using assms main_lookout_runs [OF assms(3)] unfolding started_def
  by (intro exI [of _ e] exI [of _ "init_world a"]) (simp add: init_world_def)

text \<open>The statuses \<open>main\<close> can end with, and what can make it panic.\<close>

definition log_fails :: "menv \<Rightarrow> args \<Rightarrow> bool" where
  "log_fails m a =
     (m_ParseLevel m (ar_log a) = None \<and> m_ParseLevel m ''warn'' = None \<or>
      ar_logger a \<noteq> [] \<and> m_open_log m (ar_logger a) \<noteq> None)"

definition cmd_line :: "env \<Rightarrow> menv \<Rightarrow> string list \<Rightarrow> (args \<times> llevel) prog" where
  "cmd_line e m argv = parseCMDArgs e (m_ParseLevel m) (m_open_log m) argv"

text \<open>The arguments a command line gives, whether or not they are then acted upon.\<close>

definition flag_args :: "env \<Rightarrow> string list \<Rightarrow> args option" where
  "flag_args e argv =
     (case parse_flags (arg_flags (default_args e) False False) argv of
        Goes (m, rest) \<Rightarrow> Some (read_args m)
      | _ \<Rightarrow> None)"

lemma InitXlog_panics:
  assumes "InitXlog (m_ParseLevel m) (m_open_log m) (ar_logger a) (ar_log a) = Inl x"
  shows "(\<exists>s. x = Panic s) \<and> log_fails m a"
  using assms by (auto simp: InitXlog_def log_fails_def split: option.splits if_splits)

lemma cmd_line_ends:
  "case cmd_line e m argv of
     Exits rc \<Rightarrow> rc \<le> 2
   | Panics s \<Rightarrow> \<exists>a. flag_args e argv = Some a \<and> log_fails m a
   | Goes _ \<Rightarrow> True"
proof (cases "parse_flags (arg_flags (default_args e) False False) argv")
  case (Exits rc)
  with parse_flags_end [of "arg_flags (default_args e) False False" argv] show ?thesis
    by (auto simp: cmd_line_def parseCMDArgs_def flags_end_def)
next
  case (Panics s)
  with parse_flags_end [of "arg_flags (default_args e) False False" argv] show ?thesis by simp
next
  case (Goes x)
  obtain mp rest where x: "x = (mp, rest)" by force
  let ?a = "read_args mp"
  have a: "flag_args e argv = Some ?a" by (simp add: flag_args_def Goes x)
  show ?thesis
  proof (cases "InitXlog (m_ParseLevel m) (m_open_log m) (ar_logger ?a) (ar_log ?a)")
    case (Inl y)
    with InitXlog_panics [OF this] Goes x a show ?thesis by (auto simp: cmd_line_def parseCMDArgs_def Let_def)
  next
    case (Inr y)
    with Goes x show ?thesis by (cases y) (simp add: cmd_line_def parseCMDArgs_def Let_def usage_def)
  qed
qed

lemma CheckHTTPLiveness_None: "CheckHTTPLiveness oks = None \<longleftrightarrow> (\<forall>ok \<in> set oks. \<not> ok)"
  by (induction oks) auto

text \<open>A gossip file whose second line has no space.\<close>

definition gossip_unreadable :: "env \<Rightarrow> genv \<Rightarrow> args \<Rightarrow> bool" where
  "gossip_unreadable e g a =
     (let path = ar_GossipNodesPath a in
      path \<noteq> [] \<and> e_stat e path \<noteq> Inl ENOENT \<and>
      (\<exists>content. g_open g path = Inr content \<and> \<not> Contains (scan_text content 1) '' ''))"

lemma LoadConfigInfo_halts: "LoadConfigInfo e g path h = Inl x \<Longrightarrow> x = index_panic"
  by (auto simp: LoadConfigInfo_def Let_def split: sum.splits if_splits)

lemma setup_gossip_halts:
  "(\<exists>x. setup_gossip e g serf a h = Inl x) \<longleftrightarrow> gossip_unreadable e g a"
proof (cases "g_open g (ar_GossipNodesPath a)")
  case (Inl err)
  then show ?thesis by (simp add: gossip_unreadable_def setup_gossip_def LoadConfigInfo_def)
next
  case (Inr content)
  show ?thesis
  proof (cases "e_stat e (ar_GossipNodesPath a) = Inl ENOENT")
    case True
    then show ?thesis by (simp add: gossip_unreadable_def setup_gossip_def LoadConfigInfo_def)
  next
    case False
    from LoadConfigInfo_panics [OF this Inr, of h] False Inr show ?thesis
      by (cases "LoadConfigInfo e g (ar_GossipNodesPath a) h")
         (auto simp: gossip_unreadable_def setup_gossip_def Let_def split: prod.splits)
  qed
qed

lemma setup_gossip_panic: "setup_gossip e g serf a h = Inl x \<Longrightarrow> x = index_panic"
  by (cases "LoadConfigInfo e g (ar_GossipNodesPath a) h")
     (auto simp: setup_gossip_def dest: LoadConfigInfo_halts split: if_splits prod.splits)

lemma setup_gossip_pmdb:
  assumes "setup_gossip e g serf a h = Inr (services, h')" and "ClientAPI \<in> set services \<or> UDPListner \<in> set services"
  shows "ar_pmdb a \<and> ar_GossipNodesPath a \<noteq> []"
  using assms
  by (auto simp: setup_gossip_def gossipSetup_def bindr_eq_Inr split: if_splits prod.splits)

text \<open>The UDP listener panics exactly when it is started and the kernel refuses its port.\<close>

definition udp_refused :: "env \<Rightarrow> genv \<Rightarrow> menv \<Rightarrow> args \<Rightarrow> bool" where
  "udp_refused e g m a =
     (\<exists>services h. setup_gossip e g (m_serf m) a (init_handler a) = Inr (services, h) \<and>
        UDPListner \<in> set services \<and> m_udp m (ar_UdpPort a) \<noteq> None)"

lemma udp_halt_eq:
  "udp_halt m a services = (if UDPListner \<in> set services \<and> m_udp m (ar_UdpPort a) \<noteq> None then Some nil_deref else None)"
  by (simp add: udp_halt_def StartUDPListner_def)

text \<open>The errors \<open>Start\<close> returns: of the endpoint directory or of the file for Prometheus.\<close>

definition start_fails :: "env \<Rightarrow> LookoutHandler \<Rightarrow> bool" where
  "start_fails e l =
     ((\<exists>err. e_stat e (lh_CTLPath l) = Inl err) \<or> e_open_append e (lh_PromPath l) \<noteq> None \<or>
      e_append e (lh_PromPath l) (Itoa (lh_HttpPort l)) \<noteq> None \<or> e_close e (lh_PromPath l) \<noteq> None)"

lemma epInotifyStart_lh:
  "epInotifyStart e w = Inr w' \<Longrightarrow>
     lh_PromPath (w_lh w') = lh_PromPath (w_lh w) \<and> lh_HttpPort (w_lh w') = lh_HttpPort (w_lh w)"
  by (auto simp: epInotifyStart_def Let_def split: sum.splits if_splits)

lemma Start_fails:
  assumes "Start e w = Inr (Some er, w')"
  shows "start_fails e (w_lh w)"
proof (cases "e_stat e (lh_CTLPath (w_lh w))")
  case (Inl err)
  then show ?thesis by (simp add: start_fails_def)
next
  case (Inr st)
  with assms obtain w1 where i: "epInotifyStart e (InitializeEpMap w) = Inr w1"
    by (cases "epInotifyStart e (InitializeEpMap w)") (simp_all add: Start_def)
  obtain err w2 where p: "writePromPath e w1 = (err, w2)" by force
  have er: "err \<noteq> None"
  proof
    assume "err = None"
    with assms Inr i p have "bindr (lookoutLsof e w2) (\<lambda>(_, w). bindr (monitor_start w) (\<lambda>w. Inr (None, w))) = Inr (Some er, w')"
      by (simp add: Start_def)
    then show False by (cases "lookoutLsof e w2") (auto simp: bindr_eq_Inr)
  qed
  have "w_lh (InitializeEpMap w) = w_lh w" by (simp add: InitializeEpMap_def)
  with epInotifyStart_lh [OF i] p er show ?thesis
    by (auto simp: writePromPath_def start_fails_def Let_def split: option.splits)
qed

lemma boots_final:
  assumes "boots m"
  shows "b_main (m_boot m) = MGot (fst (served m)) \<or> b_main (m_boot m) = MBlocked"
proof -
  have "boot_ok (fst (served m)) (m_boot m)" using assms boot_ok_reach unfolding boots_def by blast
  from boot_final [OF this] assms show ?thesis unfolding boots_def by blast
qed

text \<open>What each end of \<open>main\<close> says of the command line and the environment of that run.\<close>

definition end_ok :: "env \<Rightarrow> genv \<Rightarrow> menv \<Rightarrow> string list \<Rightarrow> main_end \<Rightarrow> bool" where
  "end_ok e g m argv r =
    (case r of
      MExit rc \<Rightarrow>
        cmd_line e m argv = Exits rc \<and> rc \<le> 2 \<or>
        rc = 1 \<and> (\<exists>a level. cmd_line e m argv = Goes (a, level) \<and>
          (fst (served m) \<noteq> None \<or> start_refused e (ar_ctlPath a) \<or> start_fails e (w_lh (init_world a))))
    | MPanic s \<Rightarrow>
        (\<exists>a. flag_args e argv = Some a \<and> log_fails m a) \<or>
        (\<exists>a level. cmd_line e m argv = Goes (a, level) \<and>
          (Panic s = index_panic \<and> gossip_unreadable e g a \<or> Panic s = nil_deref \<and> udp_refused e g m a))
    | MWaits \<Rightarrow>
        (\<exists>a level. cmd_line e m argv = Goes (a, level) \<and>
          (b_main (m_boot m) = MBlocked \<or> (\<forall>ok \<in> set (m_live m). \<not> ok) \<or>
           ar_pmdb a \<and> ar_GossipNodesPath a \<noteq> [] \<and> \<not> StartClientAPI m a))
    | MRuns a services h w \<Rightarrow>
        (\<exists>level. cmd_line e m argv = Goes (a, level)) \<and> fst (served m) = None \<and> (\<exists>ok \<in> set (m_live m). ok) \<and>
        \<not> gossip_unreadable e g a \<and> \<not> udp_refused e g m a \<and>
        started w \<and> linv w \<and> lh_state (w_lh w) = RUNNING)"

lemma main_lookout_outcome:
  assumes env: "inotify_ok e" "proc_ok e" and sv: "fst (served m) = None" and ok: "\<exists>ok \<in> set (m_live m). ok"
    and cmd: "cmd_line e m argv = Goes (a, level)"
  shows "end_ok e g m argv (main_lookout e g m a)"
proof (cases "setup_gossip e g (m_serf m) a (init_handler a)")
  case (Inl y)
  from Inl have "gossip_unreadable e g a" by (metis setup_gossip_halts)
  with setup_gossip_panic [OF Inl] cmd show ?thesis
    by (auto simp: main_lookout_def Inl end_ok_def index_panic_def)
next
  case (Inr y)
  obtain services h where y: "y = (services, h)" by force
  have gossip: "\<not> gossip_unreadable e g a" using Inr by (metis setup_gossip_halts Inl_Inr_False)
  have start: "ends (Start e (init_world a)) (\<lambda>h. (\<exists>s. h = Exit s) \<and> start_refused e (ar_ctlPath a))
      (\<lambda>(err, w). err = None \<longrightarrow> linv w \<and> lh_state (w_lh w) = RUNNING)"
    using Start_inv [of e "init_world a"] env by (simp add: init_world_def proc_ok_def)
  have udp: "udp_halt m a services = None \<longleftrightarrow> \<not> udp_refused e g m a" by (simp add: udp_halt_eq udp_refused_def Inr y)
  have udp_panic: "end_ok e g m argv (halted x)" if "udp_halt m a services = Some x" for x
    using that udp cmd by (auto simp: udp_halt_eq end_ok_def nil_deref_def split: if_splits)
  show ?thesis
  proof (cases "ClientAPI \<in> set services \<and> \<not> StartClientAPI m a")
    case True
    with setup_gossip_pmdb [OF Inr [unfolded y]] cmd show ?thesis by (auto simp: main_lookout_def Inr y end_ok_def)
  next
    case ready: False
    show ?thesis
    proof (cases "udp_halt m a services \<noteq> None \<and> m_udp_first m")
      case True
      then show ?thesis using ready udp_panic by (auto simp: main_lookout_def Inr y)
    next
      case later: False
      note main = main_lookout_def [of e g m a, unfolded Inr y sum.case prod.case if_not_P [OF ready] if_not_P [OF later]]
      show ?thesis
      proof (cases "Start e (init_world a)")
        case (Inl z)
        with start cmd show ?thesis by (auto simp: main end_ok_def)
      next
        case r: (Inr z)
        obtain err w where z: "z = (err, w)" by force
        show ?thesis
        proof (cases err)
          case None
          show ?thesis
          proof (cases "udp_halt m a services")
            case None
            then have m: "main_lookout e g m a = MRuns a services h w" using \<open>err = None\<close> by (simp add: main r z)
            show ?thesis using main_lookout_started [OF env m] start r z \<open>err = None\<close> sv ok cmd gossip udp None
              by (simp add: m end_ok_def)
          next
            case (Some x)
            then show ?thesis using \<open>err = None\<close> udp_panic by (simp add: main r z)
          qed
        next
          case (Some er)
          with Start_fails [of e "init_world a" er w] r z cmd show ?thesis by (simp add: main end_ok_def)
        qed
      qed
    qed
  qed
qed

lemma main_outcome:
  assumes env: "inotify_ok e" "proc_ok e" and boots: "boots m"
  shows "end_ok e g m argv (main e g m argv)"
proof (cases "cmd_line e m argv")
  case (Exits rc)
  with cmd_line_ends [where e = e and m = m and argv = argv] show ?thesis by (simp add: main_def end_ok_def cmd_line_def)
next
  case (Panics s)
  with cmd_line_ends [where e = e and m = m and argv = argv] show ?thesis by (simp add: main_def end_ok_def cmd_line_def)
next
  case (Goes x)
  obtain a lvl where x: "x = (a, lvl)" by force
  note cmd = Goes [unfolded x]
  note goes = main_def [of e g m argv, folded cmd_line_def, unfolded cmd prog.case prod.case]
  show ?thesis
  proof (cases "received (b_main (m_boot m))")
    case None
    with boots_final [OF boots] have "b_main (m_boot m) = MBlocked" by (auto simp: received_def)
    with None cmd show ?thesis by (simp add: goes end_ok_def)
  next
    case got: (Some v)
    then have v: "v = fst (served m)" using boots_final [OF boots] by (auto simp: received_def)
    show ?thesis
    proof (cases v)
      case None
      show ?thesis
      proof (cases "CheckHTTPLiveness (m_live m)")
        case dead: None
        then have "\<forall>ok \<in> set (m_live m). \<not> ok" by (simp only: CheckHTTPLiveness_None)
        moreover have "main e g m argv = MWaits" using got None dead by (simp add: goes)
        ultimately show ?thesis using cmd unfolding end_ok_def by (simp only: main_end.case) blast
      next
        case (Some k)
        then have ok: "\<exists>ok \<in> set (m_live m). ok" using CheckHTTPLiveness_None by (metis option.distinct(1))
        show ?thesis using main_lookout_outcome [OF env _ ok cmd] got None v Some by (simp add: goes)
      qed
    next
      case (Some er)
      with got have "main e g m argv = MExit 1" by (simp add: goes)
      moreover have "fst (served m) \<noteq> None" using Some v by simp
      ultimately show ?thesis using cmd by (simp add: end_ok_def)
    qed
  qed
qed

end
