(* ===== verification/JsonTimes.thy ===== *)
theory JsonTimes
  imports JsonDecode
begin

text \<open>
  Which texts \<open>Time.UnmarshalJSON\<close> is called with by the decoder, and what it can do with them: it never
  panics, and it never sees a string that \<open>json.Unmarshal\<close> could read as a time.
\<close>

section \<open>Times in documents\<close>

text \<open>
  What the scanner guarantees of the scalars of a parsed text: a number is one of the grammar, and a string
  has no quote before its first escape.
\<close>

definition no_bare :: "string \<Rightarrow> bool" where
  "no_bare s = (\<forall>p q. s = p @ CHR 0x22 # q \<longrightarrow> CHR 0x5C \<in> set p)"

fun well_scanned :: "jval \<Rightarrow> bool" where
  "well_scanned (VNum s) = valid_number s"
| "well_scanned (VStr s) = no_bare s"
| "well_scanned (VArr vs) = list_all well_scanned vs"
| "well_scanned (VObj ms) = list_all (\<lambda>m. well_scanned (snd m)) ms"
| "well_scanned _ = True"

lemma no_bare_snoc: "no_bare s \<Longrightarrow> c \<noteq> CHR 0x22 \<or> CHR 0x5C \<in> set s \<Longrightarrow> no_bare (s @ [c])"
  unfolding no_bare_def
proof (intro allI impI)
  fix p q
  assume nb: "\<forall>p q. s = p @ CHR 0x22 # q \<longrightarrow> CHR 0x5C \<in> set p" and c: "c \<noteq> CHR 0x22 \<or> CHR 0x5C \<in> set s"
    and eq: "s @ [c] = p @ CHR 0x22 # q"
  show "CHR 0x5C \<in> set p"
  proof (cases q rule: rev_cases)
    case Nil
    with eq c show ?thesis by simp
  next
    case (snoc q' x)
    with eq have "s = p @ CHR 0x22 # q'" by simp
    with nb show ?thesis by blast
  qed
qed

fun lex_ok :: "lstate \<Rightarrow> bool" where
  "lex_ok (LStr acc) = no_bare (rev acc)"
| "lex_ok (LEsc acc) = (no_bare (rev acc) \<and> CHR 0x5C \<in> set acc)"
| "lex_ok (LHex k acc) = (no_bare (rev acc) \<and> CHR 0x5C \<in> set acc)"
| "lex_ok _ = True"

definition token_ok :: "token \<Rightarrow> bool" where
  "token_ok t = (\<forall>s. t = Str s \<longrightarrow> no_bare s)"

lemma lex_open_cases:
  "lex_open c \<in> {None, Some ([], LNone), Some ([LBrack], LNone), Some ([RBrack], LNone), Some ([LBrace], LNone),
     Some ([RBrace], LNone), Some ([Colon], LNone), Some ([Comma], LNone), Some ([], LStr []), Some ([], LNum [c]),
     Some ([], LLit [c])}"
  by (simp add: lex_open_def)

lemma lex_open_ok:
  assumes "lex_open c = Some (ts, st)"
  shows "lex_ok st \<and> list_all token_ok ts"
proof -
  have "no_bare []" by (simp add: no_bare_def)
  with lex_open_cases [of c] show ?thesis
    unfolding assms insert_iff empty_iff by (elim disjE) (simp_all add: token_ok_def)
qed

lemma lex_step_ok: "lex_step st c = Some (ts, st') \<Longrightarrow> lex_ok st \<Longrightarrow> lex_ok st' \<and> list_all token_ok ts"
proof (cases st)
  case (LHex k acc)
  assume "lex_step st c = Some (ts, st')" "lex_ok st"
  then show ?thesis by (cases k) (auto simp: LHex no_bare_snoc split: if_splits)
qed (auto simp: no_bare_snoc token_ok_def dest: lex_open_ok split: if_splits)

lemma lex_end_ok: "lex_end st = Some ts \<Longrightarrow> list_all token_ok ts"
  by (cases st) (auto simp: token_ok_def)

lemma tokens_ok: "tokens st s = Some ts \<Longrightarrow> lex_ok st \<Longrightarrow> list_all token_ok ts"
proof (induction st s arbitrary: ts rule: tokens.induct)
  case (1 st)
  then show ?case by (simp add: lex_end_ok)
next
  case (2 st c cs)
  then obtain ts1 st' ts2 where "lex_step st c = Some (ts1, st')" "tokens st' cs = Some ts2" "ts = ts1 @ ts2"
    by (auto simp: tokens.simps(2) split: option.splits)
  with 2 lex_step_ok show ?case by auto
qed

fun frame_ok :: "frame \<Rightarrow> bool" where
  "frame_ok (InArr vs) = list_all well_scanned vs"
| "frame_ok (InObj ms) = list_all (\<lambda>m. well_scanned (snd m)) ms"
| "frame_ok (InMem ms k) = list_all (\<lambda>m. well_scanned (snd m)) ms"

definition mode_ok :: "mode \<Rightarrow> bool" where
  "mode_ok m = (\<forall>v. m = MAfter v \<longrightarrow> well_scanned v)"

lemma scalar_ok: "scalar t = Some v \<Longrightarrow> token_ok t \<Longrightarrow> well_scanned v"
  by (auto simp: scalar_def token_ok_def split: token.splits if_splits)

lemma begin_value_ok:
  "begin_value t st = Some (m, st') \<Longrightarrow> token_ok t \<Longrightarrow> list_all frame_ok st \<Longrightarrow> mode_ok m \<and> list_all frame_ok st'"
  by (auto simp: begin_value_def mode_ok_def scalar_ok split: if_splits)

lemma begin_key_ok: "begin_key t st = Some (m, st') \<Longrightarrow> list_all frame_ok st \<Longrightarrow> mode_ok m \<and> list_all frame_ok st'"
  by (auto simp: begin_key_def mode_ok_def split: token.splits list.splits frame.splits)

lemma end_value_ok:
  "end_value v t st = Some (m, st') \<Longrightarrow> well_scanned v \<Longrightarrow> list_all frame_ok st \<Longrightarrow> mode_ok m \<and> list_all frame_ok st'"
  by (auto simp: end_value_def mode_ok_def list_all_iff split: list.splits frame.splits if_splits)

lemma parse_step_ok:
  "parse_step m st t = Some (m', st') \<Longrightarrow> token_ok t \<Longrightarrow> mode_ok m \<Longrightarrow> list_all frame_ok st \<Longrightarrow>
     mode_ok m' \<and> list_all frame_ok st'"
  by (cases m; cases st)
    (auto split: if_splits dest: begin_value_ok begin_key_ok end_value_ok simp: mode_ok_def)

lemma parse_run_ok:
  "parse_run m st ts = Some v \<Longrightarrow> list_all token_ok ts \<Longrightarrow> mode_ok m \<Longrightarrow> list_all frame_ok st \<Longrightarrow> well_scanned v"
  by (induction m st ts rule: parse_run.induct)
    (auto split: option.splits mode.splits list.splits dest: parse_step_ok simp: mode_ok_def)

lemma json_parse_ok: "json_parse s = Some v \<Longrightarrow> well_scanned v"
proof -
  assume "json_parse s = Some v"
  then obtain ts where ts: "tokens LNone s = Some ts" and v: "parse_run MVal [] ts = Some v"
    by (auto simp: json_parse_def bind_eq_Some_conv)
  from parse_run_ok [OF v tokens_ok [OF ts]] show ?thesis by (simp add: mode_ok_def)
qed

text \<open>A value and everything inside it.\<close>

fun subvalues :: "jval \<Rightarrow> jval list" where
  "subvalues (VArr vs) = VArr vs # concat (map subvalues vs)"
| "subvalues (VObj ms) = VObj ms # concat (map (\<lambda>m. subvalues (snd m)) ms)"
| "subvalues v = [v]"

lemma subvalue_scanned: "well_scanned v \<Longrightarrow> x \<in> set (subvalues v) \<Longrightarrow> well_scanned x"
  by (induction v rule: subvalues.induct) (auto simp: list_all_iff)

lemma chompQuotes_panics: "chompQuotes s = Inl h \<longleftrightarrow> s = dq \<and> h = index_panic"
  by (cases s) (auto simp: chompQuotes_def Let_def)

text \<open>The text of a value is never a lone quote, so decoding it as a time cannot panic.\<close>

lemma Time_scalar_returns:
  assumes "well_scanned v"
  shows "\<exists>r. Time_UnmarshalJSON e (jtext v) cur = Inr r"
proof -
  have "\<not> valid_number dq" by (simp add: valid_number_def is_digit_def digit_val_def)
  with assms have "jtext v \<noteq> dq" by (cases v) auto
  with chompQuotes_panics [of "jtext v"] show ?thesis
    by (cases "chompQuotes (jtext v)") (auto simp: Time_UnmarshalJSON_def split: sum.splits)
qed

text \<open>
  The text between the quotes of a string is never itself the text of a string: the first quote of such a
  text would stand behind nothing but white space.
\<close>

lemma scalar_str: "scalar t = Some (VStr s) \<Longrightarrow> t = Str s"
  by (auto simp: scalar_def split: token.splits if_splits)

lemma tokens_string: "tokens LNone r = Some (Str s # ts) \<Longrightarrow> \<exists>p q. r = p @ CHR 0x22 # q \<and> list_all json_ws p"
proof (induction r)
  case (Cons c r)
  show ?case
  proof (cases "json_ws c")
    case True
    with Cons obtain p q where "r = p @ CHR 0x22 # q" "list_all json_ws p"
      by (auto simp: tokens.simps(2) lex_open_def)
    with True show ?thesis by (intro exI [of _ "c # p"] exI [of _ q]) simp
  next
    case False
    have num: "tokens (LNum acc) x \<noteq> Some (Str s # ts)" and lit: "tokens (LLit acc) x \<noteq> Some (Str s # ts)" for acc x ts
    proof (induction x arbitrary: acc)
      case (Cons d x)
      { case 1 show ?case using Cons by (auto simp: tokens.simps(2) split: option.splits) }
      { case 2 show ?case using Cons by (auto simp: tokens.simps(2) split: option.splits) }
    qed simp_all
    have "c = CHR 0x22"
      using Cons.prems False num lit
      by (auto simp: tokens.simps(2) lex_open_def split: if_splits)
    then show ?thesis by (intro exI [of _ "[]"] exI [of _ r]) simp
  qed
qed simp

definition compound :: "jval \<Rightarrow> bool" where
  "compound v = (case v of VArr _ \<Rightarrow> True | VObj _ \<Rightarrow> True | _ \<Rightarrow> False)"

lemma begin_value_open: "begin_value t st = Some (m', st') \<Longrightarrow> st \<noteq> [] \<Longrightarrow> st' \<noteq> []"
  by (simp add: begin_value_def split: if_split_asm) auto

lemma begin_key_open: "begin_key t st = Some (m', st') \<Longrightarrow> st' \<noteq> []"
  by (simp add: begin_key_def split: token.splits list.splits frame.splits) auto

lemma end_value_open:
  "end_value v t st = Some (m', st') \<Longrightarrow> st \<noteq> [] \<and> (st' \<noteq> [] \<or> (\<exists>x. m' = MAfter x \<and> compound x))"
  by (simp add: end_value_def compound_def split: list.splits frame.splits if_split_asm) auto

lemma step_compound:
  assumes "parse_step m st t = Some (m', st')" and "st \<noteq> [] \<or> (\<exists>x. m = MAfter x \<and> compound x)"
  shows "st' \<noteq> [] \<or> (\<exists>x. m' = MAfter x \<and> compound x)"
proof (cases m)
  case (MAfter v)
  with assms(1) end_value_open show ?thesis by simp
next
  case MFirst
  with assms begin_value_open show ?thesis by (auto simp: compound_def split: if_split_asm)
next
  case MKeyFirst
  with assms begin_key_open show ?thesis by (auto simp: compound_def split: if_split_asm)
qed (use assms begin_value_open begin_key_open in \<open>auto split: if_split_asm\<close>)

lemma run_compound:
  "parse_run m st ts = Some v \<Longrightarrow> st \<noteq> [] \<or> (\<exists>x. m = MAfter x \<and> compound x) \<Longrightarrow> compound v"
proof (induction ts arbitrary: m st)
  case Nil
  then show ?case by (simp split: mode.splits list.splits)
next
  case (Cons t ts)
  from Cons.prems(1) obtain m' st' where s: "parse_step m st t = Some (m', st')" "parse_run m' st' ts = Some v"
    by (simp split: option.splits prod.splits)
  from Cons.IH [OF s(2) step_compound [OF s(1) Cons.prems(2)]] show ?case .
qed

text \<open>Of a text whose value is a string the string is the only token.\<close>

lemma string_token: "parse_run MVal [] ts = Some (VStr s) \<Longrightarrow> \<exists>ts'. ts = Str s # ts'"
proof (cases ts)
  case (Cons t ts')
  assume "parse_run MVal [] ts = Some (VStr s)"
  with Cons obtain m st where m: "begin_value t [] = Some (m, st)" "parse_run m st ts' = Some (VStr s)"
    by (simp split: option.splits prod.splits)
  have "st = []" using run_compound [OF m(2)] by (simp add: compound_def) blast
  with m(1) obtain v where v: "scalar t = Some v" "m = MAfter v"
    by (simp add: begin_value_def split: if_split_asm) auto
  with m(2) \<open>st = []\<close> have "v = VStr s" by (cases ts') (simp_all add: end_value_def)
  with v Cons scalar_str show ?thesis by simp
qed simp

lemma inner_string: "no_bare r \<Longrightarrow> json_parse r \<noteq> Some (VStr s)"
proof
  assume nb: "no_bare r" and "json_parse r = Some (VStr s)"
  then obtain ts where ts: "tokens LNone r = Some ts" "parse_run MVal [] ts = Some (VStr s)"
    unfolding json_parse_def bind_eq_Some_conv by blast
  with string_token tokens_string obtain p q where r: "r = p @ CHR 0x22 # q" "list_all json_ws p" by metis
  then have "CHR 0x5C \<in> set p" using nb unfolding no_bare_def by blast
  with r(2) have "json_ws (CHR 0x5C)" unfolding list_all_iff by blast
  then show False by (simp add: json_ws_def)
qed

text \<open>So a time is read from a string by the layout alone; the string \<open>null\<close> changes nothing.\<close>

lemma Time_of_string:
  assumes "well_scanned (VStr r)"
  shows "Time_UnmarshalJSON e (jtext (VStr r)) cur =
    Inr (if json_parse r = Some VNull then Inr cur else e_time_Parse e r)"
proof -
  have "chompQuotes (jtext (VStr r)) = Inr r" by (simp add: chompQuotes_def)
  moreover have "json_parse r \<noteq> Some (VStr s)" for s using inner_string assms by simp
  ultimately show ?thesis
    by (auto simp: Time_UnmarshalJSON_def unmarshal_time_def split: option.splits jval.splits)
qed

section \<open>Times written by the lookout\<close>

text \<open>
  The contract of \<open>time.Parse\<close> for the layout, which begins with the name of a day: no text that begins with a
  bracket or a brace matches it.
\<close>

definition time_pkg :: "env \<Rightarrow> bool" where
  "time_pkg e = (\<forall>c s. c \<in> {CHR 0x5B, CHR 0x7B} \<longrightarrow> (\<exists>err. e_time_Parse e (c # s) = Inl err))"

text \<open>A text that begins so has at most a compound value.\<close>

lemma bracketed_compound:
  assumes "c \<in> {CHR 0x5B, CHR 0x7B}" and "json_parse (c # s) = Some v"
  shows "compound v"
proof -
  from assms obtain ts where "tokens LNone (c # s) = Some ts" "parse_run MVal [] ts = Some v"
    unfolding json_parse_def bind_eq_Some_conv by blast
  with assms(1) obtain t ts' where t: "ts = t # ts'" "t \<in> {LBrack, LBrace}"
    by (auto simp: tokens.simps(2) lex_open_def json_ws_def split: option.splits)
  with \<open>parse_run MVal [] ts = Some v\<close> obtain m st where "begin_value t [] = Some (m, st)" "parse_run m st ts' = Some v"
    by (simp split: option.splits prod.splits)
  moreover from this t(2) have "st \<noteq> []" by (auto simp: begin_value_def split: if_splits)
  ultimately show ?thesis using run_compound by blast
qed

lemma Time_of_compound:
  assumes "time_pkg e" and "compound v"
  shows "\<exists>err. Time_UnmarshalJSON e (jtext v) cur = Inr (Inl err)"
proof -
  obtain c s where t: "jtext v = c # s" "c \<in> {CHR 0x5B, CHR 0x7B}" "last (c # s) \<noteq> CHR 0x22"
    using assms(2) by (cases v) (simp_all add: compound_def)
  then have chomp: "chompQuotes (jtext v) = Inr (c # s)" by (auto simp: chompQuotes_def)
  have "unmarshal_time e (c # s) cur = Inl json_err"
    using bracketed_compound [OF t(2), of s]
    by (auto simp: unmarshal_time_def compound_def split: option.splits jval.splits)
  moreover obtain err where "e_time_Parse e (c # s) = Inl err" using assms(1) t(2) unfolding time_pkg_def by blast
  ultimately show ?thesis by (simp add: Time_UnmarshalJSON_def chomp)
qed

lemma dec_time_compound: "time_pkg e \<Longrightarrow> compound v \<Longrightarrow> dec_time e v cur = None"
  using Time_of_compound [of e v cur] by (auto simp: dec_time_def)

end
