(* ===== verification/JsonRound.thy ===== *)
theory JsonRound
  imports Json JsonTimes
begin

text \<open>
  What becomes of the documents the lookout writes when a program decodes them into the same types: the
  control-interface data of an endpoint is read back unless it holds a time, since a \<open>Time\<close> is written as
  an object and only read from a string.
\<close>

section \<open>Numbers\<close>

lemma digit_char_0: "d < 10 \<Longrightarrow> digit_char d = CHR ''0'' \<longleftrightarrow> d = 0"
proof -
  assume "d < 10"
  then have "d \<in> set [0..<10]" by simp
  moreover have "list_all (\<lambda>d. (digit_char d = CHR ''0'') = (d = 0)) [0..<10]" by code_simp
  ultimately show ?thesis unfolding list_all_iff by blast
qed

lemma nat_digits_valid:
  "list_all is_digit (nat_digits n) \<and> (hd (nat_digits n) = CHR ''0'' \<longrightarrow> nat_digits n = ''0'')"
proof (induction n rule: nat_digits.induct)
  case (1 n)
  have dig: "is_digit (digit_char d)" if "d < 10" for d
    using digit_val_char [OF that] by (simp add: is_digit_def)
  show ?case
  proof (cases "n < 10")
    case True
    then show ?thesis using dig digit_char_0 by (simp add: nat_digits.simps [of n] nat_digits.simps [of 0] digit_char_def)
  next
    case False
    then have "nat_digits (n div 10) \<noteq> ''0''" 
    proof -
      have "0 < n div 10" using False by simp
      then have "digits_val 0 (nat_digits (n div 10)) \<noteq> Some 0" by (simp add: digits_val_nat_digits)
      moreover have "digits_val 0 ''0'' = Some 0" by code_simp
      ultimately show ?thesis by metis
    qed
    with 1 [OF False] False show ?thesis by (simp add: nat_digits.simps [of n] dig)
  qed
qed

lemma valid_number_digits:
  assumes "list_all is_digit s" and "s \<noteq> []" and "hd s = CHR ''0'' \<longrightarrow> s = ''0''"
  shows "valid_number s" and "valid_number (CHR ''-'' # s)"
proof -
  have "\<not> is_digit (CHR ''-'')" by (simp add: is_digit_def digit_val_def)
  moreover have "dropWhile is_digit s = []" using assms(1) by (simp add: list_all_iff)
  ultimately show "valid_number s" "valid_number (CHR ''-'' # s)"
    using assms by (cases s; auto simp: valid_number_def valid_frac_def valid_expo_def Let_def)+
qed

lemma valid_number_Itoa: "valid_number (Itoa i)"
  using nat_digits_valid valid_number_digits by (simp add: Itoa_def)

section \<open>Structures\<close>

definition ascii :: "string \<Rightarrow> bool" where
  "ascii s = list_all (\<lambda>c. \<not> digit7 c) s"

lemma ascii_bytes: "ascii s \<Longrightarrow> \<forall>c \<in> set s. (of_char c :: nat) < 128"
proof
  fix c assume "ascii s" "c \<in> set s"
  then have "\<not> digit7 c" by (simp add: ascii_def list_all_iff)
  then show "(of_char c :: nat) < 128" by (cases c) (simp add: of_char_def horner_sum_simps)
qed

text \<open>Tables whose tags are distinct and in ASCII: all of them.\<close>

definition plain_table :: "sfield list \<Rightarrow> bool" where
  "plain_table fs = (distinct (map json_name fs) \<and> list_all ascii (map json_name fs))"

lemma plain_tables:
  "list_all plain_table
     [Histogram_fields, SystemInfo_fields, RaftInfo_fields, NiorqMgr_fields, NISDRoot_fields, NISDChunkInfo_fields,
      BufferSetNodes_fields, TaskInfo_fields, MbMerge_fields, ChunkDefrag_fields, NclientInfo_fields]"
  by code_simp

abbreviation raw_member :: "string \<times> json \<Rightarrow> string \<times> jval" where
  "raw_member m \<equiv> (raw_string (fst m), to_raw (snd m))"

lemma unquote_name: "ascii n \<Longrightarrow> unquote (raw_string n) = n"
  by (rule unquote_raw_ascii) (rule ascii_bytes)

lemma those_append: "those (map Some xs @ ys) = map_option ((@) xs) (those ys)"
  by (induction xs) (simp_all add: option.map_ident option.map_comp comp_def)

lemma dec_field_at:
  assumes "length us = length fs" and "length zs = length gs"
    and "json_name f \<notin> json_name ` set fs" "json_name f \<notin> json_name ` set gs"
  shows "dec_field dec (fs @ f # gs) (json_name f) v (us @ z # zs) =
    map_option (\<lambda>y. us @ y # zs) (dec (f_kind f) v z)"
proof -
  have same: "map2 (\<lambda>f' x. if json_name f' = n then dec (f_kind f') v x else Some x) hs ws = map Some ws"
    if "length ws = length hs" "n \<notin> json_name ` set hs" for hs ws n
    using that(1,2) by (induction ws hs rule: list_induct2) auto
  show ?thesis
    using assms by (simp add: dec_field_def same those_append those_Some_map split: option.split)
qed

lemma dec_members_struct:
  assumes "plain_table (fs @ gs)" and "length us = length fs" and "length vs = length gs"
    and "\<forall>(f, v) \<in> set (zip gs vs). dec (f_kind f) (to_raw (enc v)) (zero_value (f_kind f)) = Some v \<and>
       (tag_omitempty (f_json f) \<and> is_empty_value v \<longrightarrow> v = zero_value (f_kind f))"
  shows "dec_members dec (fs @ gs) (map raw_member (struct_members enc gs vs)) (us @ zero_struct gs) = Some (us @ vs)"
  using assms
proof (induction gs arbitrary: fs us vs)
  case (Cons g gs)
  then obtain v vs' where vs: "vs = v # vs'" by (cases vs) auto
  have IH: "dec_members dec (fs @ g # gs) (map raw_member (struct_members enc gs vs')) ((us @ [v]) @ zero_struct gs) =
      Some (us @ v # vs')"
    using Cons.IH [of "fs @ [g]" "us @ [v]" vs'] Cons.prems by (simp add: vs)
  show ?case
  proof (cases "tag_omitempty (f_json g) \<and> is_empty_value v")
    case True
    moreover then have "zero_value (f_kind g) = v" using Cons.prems by (simp add: vs)
    ultimately show ?thesis using IH by (simp add: vs struct_members_def zero_struct_def)
  next
    case False
    have n: "ascii (json_name g)" "json_name g \<notin> json_name ` set fs" "json_name g \<notin> json_name ` set gs"
      using Cons.prems(1) by (auto simp: plain_table_def)
    have "dec (f_kind g) (to_raw (enc v)) (zero_value (f_kind g)) = Some v" using Cons.prems by (simp add: vs)
    then have "dec_field dec (fs @ g # gs) (json_name g) (to_raw (enc v)) (us @ zero_struct (g # gs)) =
        Some (us @ v # zero_struct gs)"
      using dec_field_at [of us fs "zero_struct gs" gs g] n Cons.prems(2)
      by (simp add: zero_struct_def)
    with False IH n show ?thesis
      by (simp add: vs struct_members_def resolve_def unquote_name json_name_def)
  qed
qed (simp add: struct_members_def zero_struct_def)

lemma dec_struct_enc:
  assumes "plain_table fs" and "length vs = length fs"
    and "\<forall>(f, v) \<in> set (zip fs vs). dec (f_kind f) (to_raw (enc v)) (zero_value (f_kind f)) = Some v \<and>
       (tag_omitempty (f_json f) \<and> is_empty_value v \<longrightarrow> v = zero_value (f_kind f))"
  shows "dec_struct dec fs (to_raw (JObj (struct_members enc fs vs))) (zero_struct fs) = Some vs"
  using dec_members_struct [of "[]" fs "[]" vs] assms by (simp add: dec_struct_def)

section \<open>Values\<close>

text \<open>The values that are read back: numbers but floats, valid strings, booleans and histograms.\<close>

fun plain_value :: "goval \<Rightarrow> bool" where
  "plain_value (GInt _) = True"
| "plain_value (GUint _) = True"
| "plain_value (GString s) = utf8_valid s"
| "plain_value (GBool _) = True"
| "plain_value (GHist bs) = (length bs = length Histogram_fields)"
| "plain_value _ = False"

lemma dec_int_enc: "dec_int (VNum (Itoa (sint (i :: i64)))) = Some i"
proof -
  have "min_int64 \<le> sint i" "sint i \<le> max_int64"
    using sint_greater_eq [of i] sint_less [of i] by (simp_all add: min_int64_def max_int64_def)
  from Atoi_Itoa [OF this] show ?thesis by (simp add: dec_int_def)
qed

lemma dec_uint_enc: "dec_uint (VNum (Itoa (uint (u :: u64)))) = Some u"
proof -
  have "unat u < 2 ^ 64" using unsigned_less [of u, where ?'a = nat] by simp
  then show ?thesis by (simp add: dec_uint_def Itoa_def digits_val_nat_digits nat_less_iff)
qed

lemma length_zero_hist: "zero_struct Histogram_fields = map GInt (replicate (length Histogram_fields) 0)"
  by (simp add: zero_struct_def zero_value_def Histogram_fields_def numeral_eq_Suc)

lemma dec_hist_enc:
  assumes "length bs = length Histogram_fields"
  shows "dec_hist e (to_raw (enc_leaf je e (GHist bs))) (replicate (length Histogram_fields) 0) = Some bs"
proof -
  let ?enc = "\<lambda>v. case v of GInt i \<Rightarrow> JNum (Itoa (sint i)) | _ \<Rightarrow> JNull"
  have "dec_struct (dec_scalar e) Histogram_fields (to_raw (JObj (struct_members ?enc Histogram_fields (map GInt bs))))
      (zero_struct Histogram_fields) = Some (map GInt bs)"
  proof (rule dec_struct_enc)
    show "plain_table Histogram_fields" using plain_tables by simp
    show "\<forall>(f, v) \<in> set (zip Histogram_fields (map GInt bs)).
        dec_scalar e (f_kind f) (to_raw (?enc v)) (zero_value (f_kind f)) = Some v \<and>
        (tag_omitempty (f_json f) \<and> is_empty_value v \<longrightarrow> v = zero_value (f_kind f))"
      using Histogram_kinds
      by (auto simp: zip_map2 dec_scalar_def dec_int_enc zero_value_def dest: set_zip_leftD)
  qed (use assms in simp)
  then show ?thesis by (simp add: dec_hist_def length_zero_hist comp_def)
qed

lemma dec_value_enc:
  assumes "plain_value v" and "kind_of v = k"
  shows "dec_value e k (to_raw (enc_value je e v)) (zero_value k) = Some v"
    and "is_empty_value v \<longrightarrow> v = zero_value k"
  using assms dec_hist_enc
  by (cases v; auto simp: dec_value_def dec_leaf_def dec_scalar_def dec_int_enc dec_uint_enc dec_string_def
      dec_bool_def unquote_raw_valid zero_value_def simp del: enc_leaf.simps(6))+

definition plain_struct :: "sfield list \<Rightarrow> gostruct \<Rightarrow> bool" where
  "plain_struct fs vs = (of_type fs vs \<and> list_all plain_value vs)"

lemma dec_struct_value:
  assumes "plain_table fs" and "plain_struct fs vs"
  shows "dec_struct (dec_value e) fs (to_raw (enc_struct je e fs vs)) (zero_struct fs) = Some vs"
  unfolding enc_struct_def
proof (rule dec_struct_enc [OF assms(1)])
  show "length vs = length fs" using assms(2) by (auto simp: plain_struct_def of_type_def dest: list_all2_lengthD)
  show "\<forall>(f, v) \<in> set (zip fs vs). dec_value e (f_kind f) (to_raw (enc_value je e v)) (zero_value (f_kind f)) = Some v \<and>
       (tag_omitempty (f_json f) \<and> is_empty_value v \<longrightarrow> v = zero_value (f_kind f))"
  proof clarify
    fix f v assume "(f, v) \<in> set (zip fs vs)"
    then have "plain_value v" "kind_of v = f_kind f"
      using assms(2) by (auto simp: plain_struct_def of_type_def has_kind_def list_all_iff list_all2_iff dest: set_zip_rightD)
    from dec_value_enc [OF this] show "dec_value e (f_kind f) (to_raw (enc_value je e v)) (zero_value (f_kind f)) = Some v \<and>
       (tag_omitempty (f_json f) \<and> is_empty_value v \<longrightarrow> v = zero_value (f_kind f))" by blast
  qed
qed

section \<open>Documents\<close>

text \<open>Data without times, floats and uuids: no system information and no Raft entries.\<close>

definition plain_ctl :: "CtlIfOut \<Rightarrow> bool" where
  "plain_ctl c =
     (SysInfo c = None \<and> RaftRootEntry c = [] \<and>
      list_all (plain_struct NiorqMgr_fields) (NiorqMgr c) \<and>
      list_all (plain_struct NISDRoot_fields) (NISDRootEntry c) \<and>
      list_all (plain_struct NISDChunkInfo_fields) (NISDChunk c) \<and>
      list_all (plain_struct MbMerge_fields) (MbMerge c) \<and>
      list_all (plain_struct TaskInfo_fields) (Tasks c) \<and>
      list_all (plain_struct BufferSetNodes_fields) (BufSetNodes c) \<and>
      pred_option (plain_struct NclientInfo_fields) (Nclient c) \<and>
      length (fst (Defrag c)) = length Histogram_fields \<and> length (snd (Defrag c)) = length Histogram_fields)"

lemma dec_ctl_append: "dec_ctl e (xs @ ys) c = Option.bind (dec_ctl e xs c) (dec_ctl e ys)"
proof (induction e xs c rule: dec_ctl.induct)
  case (2 e k v ms c)
  then show ?case by (cases "resolve ctl_names (unquote k)"; cases "dec_ctl_field e (the (resolve ctl_names (unquote k))) v c") auto
qed simp

lemma dec_ctl_member:
  assumes "n \<in> set ctl_names"
  shows "dec_ctl e (raw_member (n, j) # ms) c = Option.bind (dec_ctl_field e n (to_raw j) c) (dec_ctl e ms)"
proof -
  have "list_all ascii ctl_names" by code_simp
  with assms have "unquote (raw_string n) = n" by (simp add: unquote_name list_all_iff)
  with assms show ?thesis by (simp add: resolve_def)
qed

lemma dec_slice_enc:
  assumes "plain_table fs" and "list_all (plain_struct fs) xs"
  shows "dec_slice (dec_value e) fs (to_raw (JArr (map (enc_struct je e fs) xs))) = Some xs"
proof -
  have "those (map (\<lambda>x. dec_struct (dec_value e) fs x (zero_struct fs)) (map to_raw (map (enc_struct je e fs) xs))) = Some xs"
    using assms(2) by (induction xs) (simp_all add: dec_struct_value [OF assms(1)])
  then show ?thesis by (simp add: dec_slice_def comp_def)
qed

text \<open>A slice member, whether written or left out.\<close>

lemma dec_slice_member:
  assumes "n \<in> set ctl_names" and "plain_table fs" and "list_all (plain_struct fs) xs"
    and "\<And>v. dec_ctl_field e n v c = map_option f (dec_slice (dec_value e) fs v)" and "xs = [] \<Longrightarrow> f [] = c"
  shows "dec_ctl e (map raw_member (slice_member je e n fs xs)) c = Some (f xs)"
proof (cases "xs = []")
  case False
  then have "map raw_member (slice_member je e n fs xs) = [raw_member (n, JArr (map (enc_struct je e fs) xs))]"
    by (simp add: slice_member_def)
  then show ?thesis
    unfolding \<open>map raw_member _ = _\<close> dec_ctl_member [OF assms(1)] assms(4) dec_slice_enc [OF assms(2,3)] by simp
qed (simp add: slice_member_def assms(5))

lemma dec_defrag_enc:
  assumes "length a = length Histogram_fields" and "length b = length Histogram_fields"
  defines "z \<equiv> replicate (length Histogram_fields) 0"
  shows "dec_defrag e (to_raw (JObj [(tag_name (f_json (ChunkDefrag_fields ! 0)), enc_hist je e a),
      (tag_name (f_json (ChunkDefrag_fields ! 1)), enc_hist je e b)])) (z, z) = Some (a, b)"
proof -
  have two: "JObj [(tag_name (f_json (ChunkDefrag_fields ! 0)), enc_hist je e a),
      (tag_name (f_json (ChunkDefrag_fields ! 1)), enc_hist je e b)] =
    JObj (struct_members (enc_leaf je e) ChunkDefrag_fields [GHist a, GHist b])"
    by (simp add: struct_members_def ChunkDefrag_fields_def enc_hist_def del: enc_leaf.simps)
  have zero: "zero_struct ChunkDefrag_fields = [GHist z, GHist z]"
    by (simp add: zero_struct_def ChunkDefrag_fields_def zero_value_def z_def)
  have "dec_struct (dec_leaf e) ChunkDefrag_fields (to_raw (JObj (struct_members (enc_leaf je e) ChunkDefrag_fields [GHist a, GHist b])))
      (zero_struct ChunkDefrag_fields) = Some [GHist a, GHist b]"
  proof (rule dec_struct_enc)
    show "plain_table ChunkDefrag_fields" using plain_tables by simp
    show "\<forall>(f, v) \<in> set (zip ChunkDefrag_fields [GHist a, GHist b]).
        dec_leaf e (f_kind f) (to_raw (enc_leaf je e v)) (zero_value (f_kind f)) = Some v \<and>
        (tag_omitempty (f_json f) \<and> is_empty_value v \<longrightarrow> v = zero_value (f_kind f))"
      using dec_hist_enc [OF assms(1), of e je] dec_hist_enc [OF assms(2), of e je]
      by (simp add: ChunkDefrag_fields_def dec_leaf_def zero_value_def del: enc_leaf.simps)
  qed (simp add: ChunkDefrag_fields_def)
  then show ?thesis unfolding two zero by (simp add: dec_defrag_def)
qed

lemma ctl_names_mem:
  "n \<in> {''system_info'', ''niorq_mgr_root_entry'', ''nisd_root_entry'', ''nisd_chunks'', ''mb_merge_root_entry'',
      ''tasks'', ''buffer_set_nodes'', ''chunk_defrag'', ''nclient_root_entry''} \<Longrightarrow> n \<in> set ctl_names"
  by (auto simp: ctl_names_def)

text \<open>The slices of a document, decoded into zero data.\<close>

definition ctl_slices :: "jenv \<Rightarrow> env \<Rightarrow> CtlIfOut \<Rightarrow> (string \<times> json) list" where
  "ctl_slices je e c =
     slice_member je e ''niorq_mgr_root_entry'' NiorqMgr_fields (NiorqMgr c) @
     slice_member je e ''nisd_root_entry'' NISDRoot_fields (NISDRootEntry c) @
     slice_member je e ''nisd_chunks'' NISDChunkInfo_fields (NISDChunk c) @
     slice_member je e ''mb_merge_root_entry'' MbMerge_fields (MbMerge c) @
     slice_member je e ''tasks'' TaskInfo_fields (Tasks c) @
     slice_member je e ''buffer_set_nodes'' BufferSetNodes_fields (BufSetNodes c)"

definition only_slices :: "CtlIfOut \<Rightarrow> CtlIfOut" where
  "only_slices c = zero_ctl\<lparr>NiorqMgr := NiorqMgr c, NISDRootEntry := NISDRootEntry c, 
     NISDChunk := NISDChunk c, MbMerge := MbMerge c, Tasks := Tasks c, BufSetNodes := BufSetNodes c\<rparr>"

lemma dec_ctl_slices:
  assumes c: "plain_ctl c"
  shows "dec_ctl e (map raw_member (ctl_slices je e c)) zero_ctl = Some (only_slices c)"
proof -
  note p = c [unfolded plain_ctl_def]
  have tab: "plain_table NiorqMgr_fields" "plain_table NISDRoot_fields" "plain_table NISDChunkInfo_fields"
    "plain_table MbMerge_fields" "plain_table TaskInfo_fields" "plain_table BufferSetNodes_fields"
    using plain_tables by simp_all
  note facts = tab ctl_names_mem dec_ctl_field_def zero_ctl_def
  let ?c0 = zero_ctl
  let ?c1 = "?c0\<lparr>NiorqMgr := NiorqMgr c\<rparr>"
  let ?c2 = "?c1\<lparr>NISDRootEntry := NISDRootEntry c\<rparr>"
  let ?c3 = "?c2\<lparr>NISDChunk := NISDChunk c\<rparr>"
  let ?c4 = "?c3\<lparr>MbMerge := MbMerge c\<rparr>"
  let ?c5 = "?c4\<lparr>Tasks := Tasks c\<rparr>"
  let ?c6 = "?c5\<lparr>BufSetNodes := BufSetNodes c\<rparr>"
  have s1: "dec_ctl e (map raw_member (slice_member je e ''niorq_mgr_root_entry'' NiorqMgr_fields (NiorqMgr c))) ?c0 = Some ?c1"
    by (rule dec_slice_member [where f = "\<lambda>x. ?c0\<lparr>NiorqMgr := x\<rparr>"]) (use p in \<open>simp_all add: facts\<close>)
  have s2: "dec_ctl e (map raw_member (slice_member je e ''nisd_root_entry'' NISDRoot_fields (NISDRootEntry c))) ?c1 = Some ?c2"
    by (rule dec_slice_member [where f = "\<lambda>x. ?c1\<lparr>NISDRootEntry := x\<rparr>"]) (use p in \<open>simp_all add: facts\<close>)
  have s3: "dec_ctl e (map raw_member (slice_member je e ''nisd_chunks'' NISDChunkInfo_fields (NISDChunk c))) ?c2 = Some ?c3"
    by (rule dec_slice_member [where f = "\<lambda>x. ?c2\<lparr>NISDChunk := x\<rparr>"]) (use p in \<open>simp_all add: facts\<close>)
  have s4: "dec_ctl e (map raw_member (slice_member je e ''mb_merge_root_entry'' MbMerge_fields (MbMerge c))) ?c3 = Some ?c4"
    by (rule dec_slice_member [where f = "\<lambda>x. ?c3\<lparr>MbMerge := x\<rparr>"]) (use p in \<open>simp_all add: facts\<close>)
  have s5: "dec_ctl e (map raw_member (slice_member je e ''tasks'' TaskInfo_fields (Tasks c))) ?c4 = Some ?c5"
    by (rule dec_slice_member [where f = "\<lambda>x. ?c4\<lparr>Tasks := x\<rparr>"]) (use p in \<open>simp_all add: facts\<close>)
  have s6: "dec_ctl e (map raw_member (slice_member je e ''buffer_set_nodes'' BufferSetNodes_fields (BufSetNodes c))) ?c5 = Some ?c6"
    by (rule dec_slice_member [where f = "\<lambda>x. ?c5\<lparr>BufSetNodes := x\<rparr>"]) (use p in \<open>simp_all add: facts\<close>)
  show ?thesis
    by (simp only: ctl_slices_def only_slices_def map_append dec_ctl_append s1 s2 s3 s4 s5 s6 Option.bind.simps)
qed

abbreviation (input) defrag_json :: "jenv \<Rightarrow> env \<Rightarrow> CtlIfOut \<Rightarrow> json" where
  "defrag_json je e c \<equiv>
     JObj [(tag_name (f_json (ChunkDefrag_fields ! 0)), enc_hist je e (fst (Defrag c))),
           (tag_name (f_json (ChunkDefrag_fields ! 1)), enc_hist je e (snd (Defrag c)))]"

definition nclient_json :: "jenv \<Rightarrow> env \<Rightarrow> CtlIfOut \<Rightarrow> (string \<times> json) list" where
  "nclient_json je e c =
     (case Nclient c of None \<Rightarrow> [] | Some n \<Rightarrow> [(''nclient_root_entry'', enc_struct je e NclientInfo_fields n)])"

lemma dec_ctl_nclient:
  assumes "plain_ctl c" and "Nclient d = None"
  shows "dec_ctl e (map raw_member (nclient_json je e c)) d = Some (d\<lparr>Nclient := Nclient c\<rparr>)"
proof (cases "Nclient c")
  case None
  with assms(2) show ?thesis by (cases d) (simp add: nclient_json_def)
next
  case (Some n)
  with assms(1) have n: "plain_struct NclientInfo_fields n" by (simp add: plain_ctl_def)
  have "plain_table NclientInfo_fields" using plain_tables by simp
  from dec_struct_value [OF this n, of e je]
  have "dec_ctl_field e ''nclient_root_entry'' (to_raw (enc_struct je e NclientInfo_fields n)) d =
      Some (d\<lparr>Nclient := Some n\<rparr>)"
    by (simp add: dec_ctl_field_def dec_ptr_def assms(2)) (simp add: enc_struct_def)
  then have "dec_ctl e [raw_member (''nclient_root_entry'', enc_struct je e NclientInfo_fields n)] d =
      Some (d\<lparr>Nclient := Some n\<rparr>)"
    by (subst dec_ctl_member) (simp_all add: ctl_names_mem)
  with Some show ?thesis by (simp only: nclient_json_def option.case list.map)
qed

lemma ctl_read_back:
  assumes c: "plain_ctl c"
  shows "\<exists>ms. enc_ctl je e c = JObj ms \<and> dec_ctl e (map raw_member ms) zero_ctl = Some c"
proof -
  note p = c [unfolded plain_ctl_def]
  let ?s = "only_slices c"
  have sys: "dec_ctl e [raw_member (''system_info'', JNull)] zero_ctl = Some zero_ctl"
    by (subst dec_ctl_member) (simp_all add: ctl_names_mem dec_ctl_field_def dec_ptr_def zero_ctl_def)
  have "dec_defrag e (to_raw (defrag_json je e c)) (Defrag ?s) = Some (Defrag c)"
    using dec_defrag_enc [of "fst (Defrag c)" "snd (Defrag c)" e je] p
    by (simp add: only_slices_def zero_ctl_def del: to_raw.simps)
  then have defrag: "dec_ctl e [raw_member (''chunk_defrag'', defrag_json je e c)] ?s = Some (?s\<lparr>Defrag := Defrag c\<rparr>)"
    by (subst dec_ctl_member) (simp_all add: ctl_names_mem dec_ctl_field_def del: to_raw.simps)
  have "Nclient (?s\<lparr>Defrag := Defrag c\<rparr>) = None" by (simp add: only_slices_def zero_ctl_def)
  note nclient = dec_ctl_nclient [OF c this, of e je]
  have fin: "?s\<lparr>Defrag := Defrag c, Nclient := Nclient c\<rparr> = c"
    using p by (cases c) (simp add: only_slices_def zero_ctl_def)
  have "enc_ctl je e c = JObj ([(''system_info'', JNull)] @ ctl_slices je e c @
      [(''chunk_defrag'', defrag_json je e c)] @ nclient_json je e c)"
    using p by (simp add: enc_ctl_def slice_member_def ctl_slices_def nclient_json_def)
  then show ?thesis
    by (intro exI conjI) (assumption, simp only: map_append list.map dec_ctl_append sys dec_ctl_slices [OF c]
      defrag nclient fin Option.bind.simps)
qed

section \<open>The documents are in the grammar\<close>

lemma jwf_struct: "(\<And>v. jwf (enc v)) \<Longrightarrow> jwf (JObj (struct_members enc fs vs))"
  by (auto simp: struct_members_def)

text \<open>\<open>encoding/json\<close> writes a float as a number.\<close>

definition float_pkg :: "jenv \<Rightarrow> bool" where
  "float_pkg je = (\<forall>f. valid_number (j_float je f))"

lemma jwf_leaf: "float_pkg je \<Longrightarrow> jwf (enc_leaf je e v)"
  by (cases v) (auto simp: float_pkg_def valid_number_Itoa struct_members_def split: goval.splits)

lemma jwf_value: "float_pkg je \<Longrightarrow> jwf (enc_value je e v)"
proof (cases v)
  case (GSlice xs)
  assume "float_pkg je"
  then show ?thesis using jwf_struct [OF jwf_leaf] by (auto simp: GSlice)
qed (simp_all add: jwf_leaf del: enc_leaf.simps)

lemma jwf_enc_struct: "float_pkg je \<Longrightarrow> jwf (enc_struct je e fs vs)"
  unfolding enc_struct_def by (rule jwf_struct) (rule jwf_value)

lemma jwf_slice: "float_pkg je \<Longrightarrow> m \<in> set (slice_member je e n fs xs) \<Longrightarrow> jwf (snd m)"
  by (auto simp: slice_member_def jwf_enc_struct split: if_splits)

lemma jwf_ctl: "float_pkg je \<Longrightarrow> jwf (enc_ctl je e c)"
  using jwf_slice jwf_enc_struct jwf_leaf [of je e "GHist bs" for bs]
  by (fastforce simp: enc_ctl_def enc_hist_def split: option.splits simp del: enc_leaf.simps)

text \<open>No document nests deeper than the decoder allows.\<close>

lemma nested_mono: "nested m j \<Longrightarrow> m \<le> n \<Longrightarrow> nested n j"
proof (induction m j arbitrary: n rule: nested.induct)
  case (1 k xs)
  then show ?case by (auto intro: "1.IH" diff_le_mono)
next
  case (2 k ms)
  then show ?case by (auto intro: "2.IH" diff_le_mono)
qed simp_all

lemma nested_leaf: "nested (Suc k) (enc_leaf je e v)"
  by (cases v) (auto simp: struct_members_def split: goval.splits)

lemma nested_value: "nested (k + 3) (enc_value je e v)"
proof (cases v)
  case (GSlice xs)
  then show ?thesis using nested_leaf [of k] by (auto simp: struct_members_def numeral_3_eq_3)
qed (use nested_leaf [of "k + 2"] in \<open>simp_all add: numeral_3_eq_3 del: enc_leaf.simps\<close>)

lemma nested_enc_struct: "nested (k + 4) (enc_struct je e fs vs)"
  using nested_value [of k] by (auto simp: enc_struct_def struct_members_def numeral_eq_Suc)

lemma nested_ctl: "nested (k + 6) (enc_ctl je e c)"
proof -
  have s: "nested (k + 4) (enc_struct je e fs vs)" "nested (Suc (k + 4)) (enc_struct je e fs vs)" for fs vs
    using nested_enc_struct [of k] nested_enc_struct [of "Suc k"] by simp_all
  have l: "m \<in> set (slice_member je e n fs xs) \<Longrightarrow> nested (k + 5) (snd m)" for m n fs xs
    using s(1) by (auto simp: slice_member_def numeral_eq_Suc split: if_splits)
  have h: "nested (k + 4) (enc_hist je e bs)" for bs
    using nested_leaf [of "k + 3" je e "GHist bs"] by (simp add: enc_hist_def numeral_eq_Suc del: enc_leaf.simps)
  show ?thesis
    using s l h by (fastforce simp: enc_ctl_def numeral_eq_Suc split: option.splits)
qed

lemma ctl_parses:
  assumes "float_pkg je"
  shows "json_parse (indent n (enc_ctl je e c)) = Some (to_raw (enc_ctl je e c))"
proof (rule itext.dec_enc)
  have "nested max_depth (enc_ctl je e c)"
    by (rule nested_mono [OF nested_ctl [of 0]]) (simp add: max_depth_def)
  with jwf_ctl [OF assms] show "printable (enc_ctl je e c)" by (simp add: printable_def)
qed

lemma ctl_round_trip:
  assumes "float_pkg je" and "plain_ctl c"
  shows "Unmarshal_ctl e (indent n (enc_ctl je e c)) = Inr c"
proof -
  obtain ms where "enc_ctl je e c = JObj ms" "dec_ctl e (map raw_member ms) zero_ctl = Some c"
    using ctl_read_back [OF assms(2)] by blast
  with ctl_parses [OF assms(1), of n e c] show ?thesis by (simp add: Unmarshal_ctl_def or_err_def)
qed

text \<open>
  With system information in it a document cannot be decoded: its first field is a time, which is written as an
  object and handed to \<open>Time.UnmarshalJSON\<close> as the text of that object.
\<close>

lemma dec_time_object:
  "time_pkg e \<Longrightarrow> dec_value e KTime (to_raw (enc_value je e (GTime t))) x = None"
  by (simp add: dec_value_def dec_leaf_def dec_scalar_def dec_time_compound compound_def)

lemma dec_system_info:
  assumes tp: "time_pkg e" and "of_type SystemInfo_fields s"
  shows "dec_struct (dec_value e) SystemInfo_fields (to_raw (enc_struct je e SystemInfo_fields s))
    (zero_struct SystemInfo_fields) = None"
proof -
  let ?f = "hd SystemInfo_fields" and ?fs = "tl SystemInfo_fields"
  have fs: "SystemInfo_fields = ?f # ?fs" by (simp add: SystemInfo_fields_def)
  have "f_json ?f = ''current_time''" "f_kind ?f = KTime" by (simp_all add: SystemInfo_fields_def)
  moreover have "tag_name ''current_time'' = ''current_time''" "\<not> tag_omitempty ''current_time''" by code_simp+
  ultimately have f: "json_name ?f = ''current_time''" "f_kind ?f = KTime" "\<not> tag_omitempty (f_json ?f)"
    "tag_name (f_json ?f) = ''current_time''"
    by (simp_all add: json_name_def)
  obtain t vs where s: "s = GTime t # vs"
  proof -
    obtain v vs where "s = v # vs" "kind_of v = KTime"
      using assms(2) f(2) unfolding of_type_def by (subst (asm) fs) (auto simp: list_all2_Cons1 has_kind_def)
    then show ?thesis using that by (cases v) auto
  qed
  have "unquote (raw_string ''current_time'') = ''current_time''" by (rule unquote_name) (simp add: ascii_def)
  moreover have "dec_field (dec_value e) (?f # ?fs) ''current_time'' (to_raw (enc_value je e (GTime t)))
      (zero_struct (?f # ?fs)) = None"
    by (simp add: dec_field_def zero_struct_def f dec_time_object [OF tp] del: list.collapse enc_value.simps)
  ultimately have "dec_members (dec_value e) (?f # ?fs)
      (map raw_member (struct_members (enc_value je e) (?f # ?fs) (GTime t # vs))) (zero_struct (?f # ?fs)) = None"
    by (simp add: struct_members_def f resolve_def del: list.collapse enc_value.simps)
  then show ?thesis unfolding s fs [symmetric] by (simp add: enc_struct_def dec_struct_def)
qed

lemma system_info_unreadable:
  assumes "float_pkg je" and "SysInfo c = Some s" and "of_type SystemInfo_fields s" and "time_pkg e"
  shows "Unmarshal_ctl e (indent n (enc_ctl je e c)) = Inl json_err"
proof -
  obtain ms where ms: "enc_ctl je e c = JObj ((''system_info'', enc_struct je e SystemInfo_fields s) # ms)"
    using assms(2) by (simp add: enc_ctl_def)
  have "dec_ctl_field e ''system_info'' (to_raw (enc_struct je e SystemInfo_fields s)) zero_ctl = None"
    using dec_system_info [OF assms(4,3), of je]
    by (simp add: dec_ctl_field_def dec_ptr_def zero_ctl_def) (simp add: enc_struct_def)
  then have "dec_ctl e (raw_member (''system_info'', enc_struct je e SystemInfo_fields s) # map raw_member ms) zero_ctl = None"
    by (subst dec_ctl_member) (simp_all add: ctl_names_mem)
  with ctl_parses [OF assms(1), of n e c] ms show ?thesis by (simp add: Unmarshal_ctl_def or_err_def)
qed

end
