(* ===== verification/HttpRoutes.thy ===== *)
theory HttpRoutes
  imports Http
begin

text \<open>
  What the requests for endpoint documents are answered with: targets \<open>/v0/\<close> followed by letters, digits and
  dashes, as the states' names and the uuids are, reach the handler unchanged.
\<close>

definition plain_char :: "char \<Rightarrow> bool" where
  "plain_char c = (alnum c \<or> c = CHR ''-'')"

lemma plain_char_safe:
  assumes "plain_char c"
  shows "path_safe c" "c \<noteq> CHR ''%''" "c \<noteq> CHR ''?''" "c \<noteq> CHR ''/''" "32 \<le> (of_char c :: nat)"
    "(of_char c :: nat) \<noteq> 127"
  using assms by (auto simp: plain_char_def path_safe_def alnum_def Let_def)

lemma plain_unescape: "list_all plain_char s \<Longrightarrow> unescape s = Some s"
  by (induction s) (auto dest: plain_char_safe)

lemma plain_escape: "list_all plain_char s \<Longrightarrow> escape s = s"
  by (induction s) (auto simp: escape_def escape_char_def dest: plain_char_safe)

lemma plain_take: "list_all plain_char s \<Longrightarrow> takeWhile (\<lambda>c. c \<noteq> CHR ''?'') s = s"
  by (induction s) (auto dest: plain_char_safe)

lemma plain_target:
  assumes "list_all plain_char s" and "ParseRequestURI (''/v0/'' @ s) = Some u"
  shows "URL_String u = ''/v0/'' @ s"
proof -
  have "escape (''/v0/'' @ s) = ''/v0/'' @ escape s"
    by (simp add: escape_def escape_char_def path_safe_def alnum_def)
  then have "u = \<lparr>u_Path = ''/v0/'' @ s, u_RawPath = [], u_ForceQuery = False, u_RawQuery = []\<rparr>"
    using assms by (auto simp: ParseRequestURI_def Let_def plain_unescape plain_escape plain_take split: if_splits)
  with \<open>escape (''/v0/'' @ s) = ''/v0/'' @ escape s\<close> show ?thesis
    by (simp add: URL_String_def EscapedPath_def plain_escape [OF assms(1)])
qed

lemma plain_no_slash: "list_all plain_char s \<Longrightarrow> \<not> Contains s (CHR ''/'' # p)"
  by (induction s) (auto simp: Contains_def HasPrefix_def dest: plain_char_safe)

lemma plain_split: "list_all plain_char s \<Longrightarrow> Split (''/v0/'' @ s) ''/v0/'' = [[], s]"
  using split_no_sep [OF plain_no_slash, of s "''v0/''"] by (simp add: Split_def HasPrefix_def)

text \<open>The document a plain request is answered with.\<close>

definition document :: "jenv \<Rightarrow> env \<Rightarrow> uuid list \<Rightarrow> string \<Rightarrow> world \<Rightarrow> string" where
  "document je e ord s w =
     (if s = [] then JsonMarshal je e EPstateRunning ord w @ nl
      else if s = ''all'' then JsonMarshal je e EPstateAny ord w @ nl
      else if s = ''down'' then JsonMarshal je e EPstateDown ord w @ nl
      else if s = ''init'' then JsonMarshal je e EPstateInit ord w @ nl
      else if s = ''removing'' then JsonMarshal je e EPstateRemoving ord w @ nl
      else case e_uuid_Parse e s of
             Inr u \<Rightarrow> JsonMarshalUUID je e u w @ nl
           | Inl _ \<Rightarrow> ''Invalid request: url '' @ s @ nl)"

lemma plain_request:
  assumes "list_all plain_char s" and "ParseRequestURI (''/v0/'' @ s) = Some u"
  shows "httpHandleRoute je e ord u w = Inr (document je e ord s w)"
  using plain_split [OF assms(1)]
  by (simp add: httpHandleRoute_def plain_target [OF assms] document_def httpHandleRootRequest_def
      httpHandleUUIDRequest_def split: sum.splits)

lemma v0_contained:
  assumes "ParseRequestURI t = Some u" and "HasPrefix t ''/v0/''"
  shows "Contains (URL_String u) ''/v0/''"
proof -
  obtain t' where "t = ''/v0/'' @ t'" using assms(2) by (auto simp: HasPrefix_iff)
  with ParseRequestURI_v0 assms(1) have "HasPrefix (EscapedPath u) ''/v0/''" by blast
  then show ?thesis by (auto simp: URL_String_def HasPrefix_iff Contains_def)
qed

end
