(* ===== verification/WatchRace.thy ===== *)
theory WatchRace
  imports LookoutFacts
begin

text \<open>
  What the steps taken as wholes leave out: the event loop takes no mutex, so an event may be handled while the
  clean-up is inside \<open>ChangeState\<close>. The state change is cut where it has removed the watch but not yet
  assigned the state, and the handler of an event after it has looked its endpoint up.
\<close>

section \<open>The cuts\<close>

text \<open>\<open>ChangeState\<close> up to the assignment of the state, and the assignment.\<close>

definition change_watch :: "env \<Rightarrow> ep_ref \<Rightarrow> Epstate \<Rightarrow> world \<Rightarrow> world res" where
  "change_watch e r s w = bindr (ensureWatchedState r w) (\<lambda>_. watchCtl e r s w)"

definition set_state :: "env \<Rightarrow> ep_ref \<Rightarrow> Epstate \<Rightarrow> world \<Rightarrow> world" where
  "set_state e r s w =
     (let w = upd_ep r (\<lambda>x. x\<lparr>ep_State := s\<rparr>) w in
      if s \<in> {EPstateInit, EPstateRunning, EPstateHasIdentity}
      then upd_ep r (\<lambda>x. x\<lparr>ep_LastSeen := e_now e\<rparr>) w else w)"

lemma ChangeState_cut:
  "ChangeState e r s w =
     (if s = EPstateAny then Inl (Exit ''any is not a settable state'')
      else if s \<noteq> ep_State (w_eps w r) then bindr (change_watch e r s w) (\<lambda>w. Inr (set_state e r s w))
      else Inr w)"
  by (simp add: ChangeState_def change_watch_def set_state_def bindr_assoc Let_def)

text \<open>The clean-up of an endpoint that has gone, up to the assignment of \<open>EPstateRemoving\<close>.\<close>

definition clean_watch :: "env \<Rightarrow> ep_ref \<Rightarrow> world \<Rightarrow> world res" where
  "clean_watch e r w = change_watch e r EPstateRemoving (RemoveStaleFiles e r (flushStaleCmds e r w))"

text \<open>What the handler of an event does once it has found the endpoint \<open>ep\<close> under the event's descriptor.\<close>

definition event_rest :: "env \<Rightarrow> inotifyEvent \<Rightarrow> ep_ref \<Rightarrow> world \<Rightarrow> world res" where
  "event_rest e ev ep w =
     (let evfile = ev_Name ev in
      if HasPrefix evfile ''.'' then Inr w
      else if \<not> HasPrefix evfile LookoutPrefixStr then Inr w
      else case e_uuid_Parse e (drop (length LookoutPrefixStr) evfile) of
             Inl _ \<Rightarrow> Inr w
           | Inr cmdUuid \<Rightarrow> bindr (Complete e ep cmdUuid None w) (\<lambda>(_, w). Inr w))"

lemma processEvent_cut:
  "ev_Wd ev \<noteq> ino_wd (w_ino w) \<Longrightarrow>
     processEvent e ev w = (case epWatchLookup w (ev_Wd ev) of None \<Rightarrow> Inr w | Some ep \<Rightarrow> event_rest e ev ep w)"
  by (cases "epWatchLookup w (ev_Wd ev)") (simp_all add: processEvent_def event_rest_def Let_def)

section \<open>The two between each other\<close>

lemma change_watch_unwatch:
  assumes "maps_ok w" and "watch_ok w r" and "isWatchedState (ep_State (w_eps w r))" and "\<not> isWatchedState s"
  shows "change_watch e r s w = Inr (unwatch r w)"
  using assms
  by (auto simp: change_watch_def ensureWatchedState_def watchCtl_def EpWatchRemove_def maps_ok_def watch_ok_def
      Let_def unwatch_def upd_ep_def upd_ino_def sys_def)

text \<open>An endpoint that is down but whose watch is gone: an answer runs into the check of the watch.\<close>

lemma Complete_unwatched:
  assumes "ep_State (w_eps w r) = EPstateDown" and "\<not> ep_watched (w_eps w r)"
    and "map_of (ep_pendingCmds (w_eps w r)) u = Some c" and "answer e w c = Inr out"
  shows "Complete e r u output w = Inl (Exit ''invalid state for being watched'')"
  using assms(1,2) by (simp add: Complete_loaded [OF assms(3,4)] ChangeState_def ensureWatchedState_def)

text \<open>The clean-up of an endpoint that is down, at the point of the cut.\<close>

lemma clean_watch_down:
  assumes inv: "linv w" and r: "r < w_neps w" and down: "ep_State (w_eps w r) = EPstateDown"
    and stale: "LsofGenIsStale w r"
  shows "clean_watch e r w = Inr (unwatch r (RemoveStaleFiles e r (flushStaleCmds e r w)))"
    and "CleanEP e r w = bindr (clean_watch e r w) (\<lambda>w. Inr (set_state e r EPstateRemoving w))"
proof -
  let ?w = "RemoveStaleFiles e r (flushStaleCmds e r w)"
  note p = clean_prefix [OF inv r, of e]
  note f = calm_fields [OF p(2)]
  have ok: "maps_ok ?w" "watch_ok ?w r" using p(1) r f by (simp_all add: linv_def ep_ok_def)
  have st: "ep_State (w_eps ?w r) = EPstateDown" using f down by simp
  then show "clean_watch e r w = Inr (unwatch r ?w)"
    unfolding clean_watch_def by (intro change_watch_unwatch [OF ok]) simp_all
  have "LsofGenIsStale ?w r" using stale f by (simp add: LsofGenIsStale_def)
  with st show "CleanEP e r w = bindr (clean_watch e r w) (\<lambda>w. Inr (set_state e r EPstateRemoving w))"
    by (simp add: CleanEP_def ChangeState_cut clean_watch_def)
qed

lemma answer_cong:
  assumes "w_cmds w' = w_cmds w" and "lh_CTLPath (w_lh w') = lh_CTLPath (w_lh w)"
    and "\<And>q. ep_Uuid (w_eps w' q) = ep_Uuid (w_eps w q)"
  shows "answer e w' c = answer e w c"
proof -
  have "getOutFnam e w' c = getOutFnam e w c" by (simp add: getOutFnam_def Xpath_def assms)
  then show ?thesis by (simp only: answer_def checkOutFile_def)
qed

text \<open>The endpoint at the cut: down, without its watch, with its command still pending and its files where they were.\<close>

lemma clean_watch_fields:
  assumes inv: "linv w" and r: "r < w_neps w"
    and cmd: "map_of (ep_pendingCmds (w_eps w r)) u = Some c" "\<not> cmdIsStale e (w_cmds w c)"
    and w1: "w1 = unwatch r (RemoveStaleFiles e r (flushStaleCmds e r w))"
  shows "ep_State (w_eps w1 r) = ep_State (w_eps w r)" "\<not> ep_watched (w_eps w1 r)"
    "map_of (ep_pendingCmds (w_eps w1 r)) u = Some c" "answer e' w1 c = answer e' w c"
proof -
  have pend: "pend_ok w r" using inv r by (simp add: linv_def ep_ok_def)
  note eq = flushStale_eq [OF pend, of e]
  let ?p = "filter (\<lambda>(k, c). \<not> cmdIsStale e (w_cmds w c)) (ep_pendingCmds (w_eps w r))"
  have "(u, c) \<in> set ?p" using map_of_SomeD [OF cmd(1)] cmd(2) by simp
  moreover have "distinct (map fst ?p)" using pend by (simp add: pend_ok_def mwf_def distinct_map_filter Let_def)
  ultimately have "map_of ?p u = Some c" by simp
  then show "ep_State (w_eps w1 r) = ep_State (w_eps w r)" "\<not> ep_watched (w_eps w1 r)"
    "map_of (ep_pendingCmds (w_eps w1 r)) u = Some c"
    by (simp_all add: w1 eq RemoveStaleFiles_eq unwatch_def)
  show "answer e' w1 c = answer e' w c"
    by (rule answer_cong) (simp_all add: w1 eq RemoveStaleFiles_eq unwatch_def)
qed

text \<open>
  Each of the two handlers returns when it runs as a whole; the rest of the event's handler at the cut of the
  clean-up ends the process.
\<close>

lemma event_in_clean_up:
  assumes inv: "linv w" and r: "r < w_neps w" and down: "ep_State (w_eps w r) = EPstateDown"
    and stale: "LsofGenIsStale w r"
    and cmd: "map_of (ep_pendingCmds (w_eps w r)) u = Some c" "\<not> cmdIsStale e (w_cmds w c)"
    and ev: "ev_Wd ev = ep_wid (w_eps w r)" "ev_Wd ev \<noteq> ino_wd (w_ino w)"
      "ev_Name ev = LookoutPrefixStr @ e_uuid_String e' u"
    and uuid: "e_uuid_Parse e' (e_uuid_String e' u) = Inr u" and out: "answer e' w c = Inr out"
  shows "\<exists>w1. clean_watch e r w = Inr w1 \<and> CleanEP e r w = Inr (set_state e r EPstateRemoving w1) \<and>
    processEvent e' ev w = event_rest e' ev r w \<and> returns (event_rest e' ev r w) \<and>
    event_rest e' ev r w1 = Inl (Exit ''invalid state for being watched'')"
proof -
  let ?w1 = "unwatch r (RemoveStaleFiles e r (flushStaleCmds e r w))"
  note clean = clean_watch_down [OF inv r down stale, of e]
  note f = clean_watch_fields [OF inv r cmd refl]
  have rest: "event_rest e' ev r v = bindr (Complete e' r u None v) (\<lambda>(_, w). Inr w)" for v
    using uuid by (simp add: event_rest_def ev(3) HasPrefix_def LookoutPrefixStr_def)
  have halt: "Complete e' r u None ?w1 = Inl (Exit ''invalid state for being watched'')"
    by (rule Complete_unwatched [OF _ f(2,3)]) (use f(1,4) down out in simp_all)
  have look: "epWatchLookup w (ev_Wd ev) = Some r"
    using inv r down ev(1) by (auto simp: linv_def ep_ok_def watch_ok_def epWatchLookup_def Let_def)
  have "ends (Complete e' r u None w) (\<lambda>_. False) (\<lambda>_. True)"
    by (rule ends_mono [OF Complete_inv [OF inv r, of e' u None]]) (use down in auto)
  from ends_returns [OF this] obtain out' w' where "Complete e' r u None w = Inr (out', w')" by fastforce
  with halt look show ?thesis
    using clean processEvent_cut [OF ev(2), of e'] by (auto simp: rest)
qed

end
