(* ===== verification/Spec2Isabelle.thy ===== *)
theory Spec2Isabelle
  imports LookoutEffects EndpointLog LabGossip GossipLoops MainProg JsonRound HttpRoutes WatchRace
begin

text \<open>
  Verification of the niova lookout: the daemon that finds the processes of a Niova cluster on a host by
  their control-interface directories, asks them for their state through files, and serves what it knows by
  HTTP, to Prometheus and, by gossip, to the lookouts of other hosts.

  \<^bold>\<open>The program and the theories.\<close>
  \<^item> \<open>Prelude\<close>, \<open>GoLib\<close>, \<open>Env\<close>: the result type (a value, a panic or a fatal exit), loops that stop at a halt,
    Go maps with arbitrary visiting orders; the functions of \<open>strings\<close>, \<open>strconv\<close> and \<open>path\<close> the code uses;
    the environment of one handler run, that is everything it asks of the system.
  \<^item> \<open>NetIP\<close>: \<open>net.ParseIP\<close> and \<open>IP.String\<close>, with the proof that every address survives being written and read.
  \<^item> \<open>JsonText\<close>, \<open>JsonDecode\<close>, \<open>JsonTimes\<close>: \<open>encoding/json\<close> as the code uses it. A lexer and a parser with a stack
    read any text, the printers write compact or indented text, and what is printed is parsed back; the decoders
    of \<open>application.go\<close>'s structures, its \<open>Time.UnmarshalJSON\<close> included; which times a document can hold.
  \<^item> \<open>AppTables\<close>, \<open>Applications\<close>, \<open>AppMetrics\<close>: \<open>pkg/monitor/applications\<close>. The reported structures are tables
    of fields and tags, since the code only reads them by reflection; the interface \<open>AppIF\<close> is a datatype
    with one function per method, which dispatches to the method of the type; \<open>LoadSystemInfo\<close> and \<open>Parse\<close> of each application.
  \<^item> \<open>Prometheus\<close>: \<open>pkg/prometheusHandler\<close>.
  \<^item> \<open>LookoutState\<close>, \<open>InotifyWatch\<close>, \<open>Endpoint\<close>, \<open>Container\<close>, \<open>Lookout\<close>, \<open>InotifyBuf\<close>: \<open>ctl_interface.go\<close>,
    \<open>endpointContainer.go\<close> and \<open>lookout.go\<close> of \<open>pkg/monitor\<close>. One record holds the state of the process;
    endpoints and commands live in stores because pointers to them are shared; every effect on the system
    is appended to a list.
  \<^item> \<open>EndpointInv\<close>, \<open>ContainerInv\<close>, \<open>LookoutInv\<close>, \<open>EndpointOps\<close>: what each operation does to the invariant
    \<open>linv\<close> and to the state, on every branch. \<open>LookoutSystem\<close>: the handlers as a transition system, and
    the life cycle of an endpoint as its abstraction. \<open>LookoutFine\<close>: the goroutines at the grain of the
    container's mutex (one endpoint of a clean-up or poll, one entry of \<open>/proc\<close>, one event, the step of the counter)
    from the start of the event loop on, of which the runs of whole handlers are runs. \<open>WatchRace\<close>: a state change and
    an event cut in two, with the interleaving that ends the process. \<open>LookoutLoops\<close>: the
    scanner's loop and the wait for a state. \<open>LookoutFacts\<close>: facts about whole runs. \<open>LookoutEffects\<close>: the
    files, directories and watches each handler touches. \<open>Lab\<close>, \<open>LabGossip\<close>: a concrete machine on which the theorems are
    instantiated.
  \<^item> \<open>Json\<close>, \<open>JsonRound\<close>: the documents and reading them back. \<open>UrlPath\<close>, \<open>Http\<close>, \<open>HttpRoutes\<close>: the HTTP service
    (\<open>http_comms.go\<close>): \<open>net/url\<close> and the matching of \<open>ServeMux\<close> for the targets it gets, the handlers, and what the
    requests for documents are answered with.
  \<^item> \<open>Gossip\<close>, \<open>GossipInv\<close>, \<open>GossipLoops\<close>: the gossip half of \<open>gossip_comms.go\<close> with its loops \<open>SetTags\<close> and
    \<open>GetTags\<close>. \<open>NisdConfig\<close>, \<open>UdpService\<close>: the configuration service, from the datagram through \<open>RequestPMDB\<close>
    (\<open>pmdb.go\<close>) and the wire types (\<open>requestResponseLib.go\<close>) to the bytes of the C structure.
  \<^item> \<open>Xlog\<close>, \<open>EndpointLog\<close>: \<open>pkg/xlog\<close> and the endpoint's log methods.
  \<^item> \<open>CmdArgs\<close>, \<open>Startup\<close>, \<open>MainProg\<close>: \<open>cmd/lookout/main.go\<close>: the command line over Go's \<open>flag\<close> package, the listen
    loop, the hand-over of its result, and \<open>main\<close>, which puts all parts together.

  \<^bold>\<open>How the parts interact.\<close> \<open>main\<close> reads the command line, serves HTTP, starts the gossip services and then
  \<open>Start\<close>. A scan of \<open>/proc\<close> or an inotify event on the endpoint directory adds an endpoint
  to the container; each round of the monitor cleans and polls all endpoints; a poll writes a command file
  and queues the command; the output file's inotify event completes it and moves the endpoint along its life
  cycle. The HTTP and gossip parts only read this state, except for the liveness mark of the UDP listener.

  \<^bold>\<open>Interfaces.\<close> \<open>go_map\<close> (maps), \<open>app_if\<close> (applications), \<open>watch_registry\<close> (inotify watches),
  \<open>codec\<close> and \<open>exact_codec\<close> (decimal numbers, IP addresses, compact and indented JSON) and
  \<open>invariant_system\<close> (the running lookout) are locales, each interpreted on the model.

  \<^bold>\<open>Bounds.\<close> Generations are 64-bit and a scan step excludes the wrap-around of the counter; descriptors and
  event offsets are 32-bit; ports are 16-bit; the event buffer has 4096 bytes and its loop is total because
  a slice out of range panics; a datagram is cut to 1024 bytes; a JSON text is parsed to a depth of 10000; a line of the
  gossip file of 64 KiB or more makes \<open>bufio.Scanner\<close> fail once and then return what its buffer holds. Endless
  loops are functions of the list of what their rounds meet.

  \<^bold>\<open>Parameters and contracts.\<close> \<open>uuid_pkg\<close>: a uuid's text has 36 bytes and parses back. \<open>inotify_ok\<close>: a descriptor
  \<open>InotifyAddWatch\<close> returns is a non-negative 32-bit number; nothing is assumed of two paths, since the kernel returns
  one descriptor for all paths to a directory. \<open>proc_ok\<close>: the names in \<open>/proc\<close> are not empty. \<open>gossip_codec\<close>: the uuid
  decompressor undoes the compressor. \<open>time_pkg\<close>: \<open>time.Parse\<close> with the layout of \<open>application.go\<close> accepts no text that
  begins with a bracket. \<open>float_pkg\<close>: a floating-point number is written as a JSON number. \<open>e_float\<close>, \<open>e_rfc3339\<close>,
  \<open>e_time_Parse\<close>: the readers of floating-point numbers and times. C26 uses that \<open>uuid.Parse\<close> rejects a text of 36
  bytes, all of which it looks at, when one of them is zero. \<open>penv\<close>, \<open>menv\<close>: the gob codec, the service discovery client,
  the serf agent, the listening sockets. Files, clocks and directories answer through the environment.

  \<^bold>\<open>Grain.\<close> The operations that take the container's mutex are atomic steps, except that a clean-up, a poll and a
  scan are cut between endpoints and entries. The event loop takes no such lock: that the work on one event is one
  step is an assumption of the theorems about runs, weakened in one place, where an endpoint is looked up first and
  its command completed later (\<open>late\<close>). The code does not guarantee it: C4 shows an event inside a clean-up ending the
  process. Other data races inside a step (\<open>Complete\<close> in the event loop against \<open>Poll\<close> on the same endpoint, readers
  of the map without the lock) are outside the model.

  \<^bold>\<open>Not modelled.\<close> serf and the service discovery client, which are third-party packages, beyond the structures
  handed to them and their answers; which messages are logged where, except for the fatal ones; what \<open>usage\<close> prints;
  request targets in absolute form and \<open>CONNECT\<close>; white space inside an array or object that a document has in the
  place of a time.
\<close>

section \<open>The running lookout\<close>

text \<open>
  C1: In every state the lookout can reach from the start of its event loop by the steps of its goroutines, each
  taken as a whole and in any order, its data structures are consistent: an endpoint is watched exactly in the
  watched states and its descriptor leads back to it, the two maps and the endpoints agree, no generation is
  ahead of the scanner's, at most one command is pending and it fits the endpoint's state. A step is the work on
  one endpoint of a clean-up or a poll, one entry of a scan, one event or one late answer; C4 shows that events,
  which take no mutex, must not come inside the others.
\<close>

theorem reachable_consistent:
  assumes "booted w0" and "gstep\<^sup>*\<^sup>* w0 w"
  shows "linv w"
  by (rule lg.reach_I [OF assms])

theorem reachable_consistent_witness: "linv lab_asked"
  using reachable_consistent by (rule run_path [OF lab_started r_into_rtranclp [of lstep, OF lab_step]])

text \<open>
  C2: The running lookout implements the life cycle of an endpoint: each step, and each whole handler, leaves every
  known endpoint in its state or moves it along an edge of the life cycle, never forgets one, and adds new ones only
  in the state \<open>init\<close>. An answer whose endpoint was looked up before a clean-up may besides bring back what the
  clean-up has taken out of service.
\<close>

theorem reachable_life_cycle:
  assumes "booted w0" and "gstep\<^sup>*\<^sup>* w0 w"
  shows "(fstep w w' \<or> lstep w w' \<longrightarrow> life_step (ep_table w) (ep_table w')) \<and>
    (late w w' \<longrightarrow> revive_step (ep_table w) (ep_table w'))"
  using lg.reach_I [OF assms] by (blast intro: fstep_life lstep_life late_revives)

theorem reachable_life_cycle_witness:
  "life_step (ep_table lab_world) (ep_table lab_asked) \<and> life_step (ep_table lab_asked) (ep_table (bump_gen lab_asked))"
proof -
  have g: "w_gen lab_asked \<noteq> -1" by code_simp
  obtain v where v: "booted v" "gstep\<^sup>*\<^sup>* v lab_world" by (rule run_path [OF lab_started rtranclp.rtrancl_refl])
  obtain v' where v': "booted v'" "gstep\<^sup>*\<^sup>* v' lab_asked"
    by (rule run_path [OF lab_started r_into_rtranclp [of lstep, OF lab_step]])
  show ?thesis
    using reachable_life_cycle [OF v] reachable_life_cycle [OF v'] lab_step fstep.tick [OF g] by blast
qed

text \<open>
  C3: None of the handlers' fatal log calls and panics can happen when a handler runs as a whole in a reachable
  state, except where the kernel does not give an output directory a descriptor of its own: it refuses to watch it,
  or, as \<open>inotify_add_watch(2)\<close> does for a second path to the same directory, it returns a descriptor that is
  already in the table. The work of the monitor on an endpoint and its whole rounds always return; a scan halts only
  for endpoints it sees that are not watched, an event only for the endpoint it announces, a late answer only for
  its endpoint, when it is not watched.
\<close>

theorem handlers_return:
  assumes "booted w0" and "gstep\<^sup>*\<^sup>* w0 w" and "inotify_ok e" and "w_gen w \<noteq> -1"
    and "range_order ord1 (w_epMap w)" "range_order ord2 (w_epMap w)"
    and "e_readdir e ''/proc'' = Inr entries" and "\<forall>en \<in> set entries. fst en \<noteq> []"
    and "map_of (w_epMap w) u = Some r"
  shows "returns (monitor_round e ord1 ord2 w) \<and> returns (CleanEP e r w) \<and> returns (Poll e r w) \<and>
    ends (lookoutLsof e w)
      (\<lambda>_. scan_blocked e w (set (lsof_seen e (lh_CTLPath (w_lh w)) entries))) (\<lambda>_. True) \<and>
    ends (processEvent e ev w)
      (\<lambda>_. ev_Wd ev = ino_wd (w_ino w) \<and> (\<exists>u. e_uuid_Parse e (ev_Name ev) = Inr u \<and> blocked e w u))
      (\<lambda>_. True) \<and>
    ends (Process e u c w) (\<lambda>_. blocked e w u) (\<lambda>_. True)"
proof (intro conjI)
  have inv: "linv w" by (rule lg.reach_I [OF assms(1,2)])
  show "returns (CleanEP e r w)" "returns (Poll e r w)"
    by (rule endpoint_work_returns [OF inv assms(9)])+
  show "returns (monitor_round e ord1 ord2 w)"
    by (rule ends_mono [OF monitor_round_inv [OF inv assms(5,6)]]) simp_all
  show "ends (lookoutLsof e w)
      (\<lambda>_. scan_blocked e w (set (lsof_seen e (lh_CTLPath (w_lh w)) entries))) (\<lambda>_. True)"
    using assms(8) by (intro ends_mono [OF lookoutLsof_inv [OF inv assms(3,4,7)]]) auto
  show "ends (processEvent e ev w)
      (\<lambda>_. ev_Wd ev = ino_wd (w_ino w) \<and> (\<exists>u. e_uuid_Parse e (ev_Name ev) = Inr u \<and> blocked e w u))
      (\<lambda>_. True)"
    by (rule ends_mono [OF processEvent_inv [OF inv assms(3)]]) auto
  show "ends (Process e u c w) (\<lambda>_. blocked e w u) (\<lambda>_. True)"
    by (rule ends_mono [OF Process_inv [OF inv assms(3)]]) simp_all
qed

theorem handlers_return_witness:
  "returns (monitor_round lab_env [7] [7] lab_world) \<and> returns (CleanEP lab_env 0 lab_world) \<and>
   returns (lookoutLsof lab_env lab_world)"
proof -
  have r: "e_readdir lab_env ''/proc'' = Inr [(''7'', True), (''self'', True)]" by (simp add: lab_env_def)
  have g: "w_gen lab_world \<noteq> -1" by (simp add: lab_facts)
  obtain v where v: "booted v" "gstep\<^sup>*\<^sup>* v lab_world" by (rule run_path [OF lab_started rtranclp.rtrancl_refl])
  have seen: "set (lsof_seen lab_env lab_ctl [(''7'', True), (''self'', True)]) = {7}" by code_simp
  have "ep_watched (w_eps lab_world 0)" by code_simp
  then have "\<not> scan_blocked lab_env lab_world {7}" by (simp add: scan_blocked_def unwatched_def lab_facts)
  moreover have "map_of (w_epMap lab_world) 7 = Some 0" by (simp add: lab_facts)
  note handlers_return [OF v lab_inotify g lab_range lab_range r _ this, of "lab_event 2" 2]
  ultimately show ?thesis by (simp add: seen lab_facts)
qed

text \<open>
  C4: Event and clean-up need the mutex the event loop does not take. An endpoint is down, no process has held it open
  for two scans, and the answer to its last query arrives: a clean-up that runs as a whole takes the endpoint out of
  service, the event's handler as a whole returns; but when the handler has found the endpoint and the clean-up is then
  in \<open>ChangeState\<close>, with the watch removed and the state not yet assigned, the handler ends the process through the
  fatal check of \<open>ensureWatchedState\<close>.
\<close>

theorem event_inside_clean_up:
  assumes "linv w" and "r < w_neps w" and "ep_State (w_eps w r) = EPstateDown" and "LsofGenIsStale w r"
    and "map_of (ep_pendingCmds (w_eps w r)) u = Some c" and "\<not> cmdIsStale e (w_cmds w c)"
    and "ev_Wd ev = ep_wid (w_eps w r)" and "ev_Wd ev \<noteq> ino_wd (w_ino w)"
    and "ev_Name ev = LookoutPrefixStr @ e_uuid_String e' u" and "e_uuid_Parse e' (e_uuid_String e' u) = Inr u"
    and "answer e' w c = Inr out"
  shows "\<exists>w1. clean_watch e r w = Inr w1 \<and> CleanEP e r w = Inr (set_state e r EPstateRemoving w1) \<and>
    processEvent e' ev w = event_rest e' ev r w \<and> returns (event_rest e' ev r w) \<and>
    event_rest e' ev r w1 = Inl (Exit ''invalid state for being watched'')"
  by (rule event_in_clean_up [OF assms])

theorem event_inside_clean_up_witness:
  "\<exists>w1. clean_watch lab_env 0 (lab_w EPstateDown (ANisd new_Nisd) [(2, 0)] NISDInfoOp) = Inr w1 \<and>
     event_rest lab_env (lab_event 2) 0 w1 = Inl (Exit ''invalid state for being watched'')"
proof -
  let ?w = "lab_w EPstateDown (ANisd new_Nisd) [(2, 0)] NISDInfoOp"
  have inv: "linv ?w" by (rule lab_w_inv) (simp_all add: app_data_ok_def pmdb_bare_def new_Nisd_def new_Unrecognized_def)
  have w: "0 < w_neps ?w" "ep_State (w_eps ?w 0) = EPstateDown" "LsofGenIsStale ?w 0"
    "map_of (ep_pendingCmds (w_eps ?w 0)) 2 = Some 0" "\<not> cmdIsStale lab_env (w_cmds ?w 0)"
    by (simp_all add: lab_w_def LsofGenIsStale_def cmdIsStale_def lab_env_def demo_env_def EPtimeout_def second_def new_ep_def)
  have ev: "ev_Wd (lab_event 2) = ep_wid (w_eps ?w 0)" "ev_Wd (lab_event 2) \<noteq> ino_wd (w_ino ?w)"
    "ev_Name (lab_event 2) = LookoutPrefixStr @ e_uuid_String lab_env 2"
    by (simp_all add: lab_w_def lab_event_def)
  have u: "e_uuid_Parse lab_env (e_uuid_String lab_env 2) = Inr 2" using lab_uuid_pkg by (simp add: uuid_pkg_def)
  have "answer lab_env ?w 0 = Inr demo_text"
    by (simp add: answer_def checkOutFile_def lab_env_def demo_env_def maxOutFileSize_def)
  from event_inside_clean_up [OF inv w ev u this] show ?thesis by blast
qed

text \<open>
  C5: A start-up that does not return an error enters the monitor loop in a consistent state; it halts only by a fatal
  log call, never by a panic, and only when the inotify descriptor cannot be made, the kernel refuses to watch the
  endpoint directory or the output directory of an endpoint the first scan sees, or the output directories of two of
  these endpoints are the same directory.
\<close>

theorem start_up:
  assumes "inotify_ok e" and "proc_ok e"
    and "w_neps w = 0" and "lh_state (w_lh w) = BOOTING" and "w_gen w = 0"
  shows "ends (Start e w) (\<lambda>h. (\<exists>s. h = Exit s) \<and> start_refused e (lh_CTLPath (w_lh w)))
     (\<lambda>(err, w'). err = None \<longrightarrow> linv w' \<and> lh_state (w_lh w') = RUNNING)"
  using assms by (intro Start_inv) (auto simp: proc_ok_def)

theorem start_up_witness: "linv lab_world \<and> lh_state (w_lh lab_world) = RUNNING"
proof -
  have "w_neps boot_world = 0" "lh_state (w_lh boot_world) = BOOTING" "w_gen boot_world = 0"
    by (simp_all add: boot_world_def)
  from start_up [OF lab_inotify lab_proc_ok this] lab_Start show ?thesis by simp
qed

text \<open>
  C6: The program as a whole, from its command line to the monitor loop, with the cause of each end in its own command
  line and environment. It exits with the status the command line gives (at most 2), or with 1 when the server reported
  an error or the lookout's \<open>Start\<close> fails; it panics only over its log set-up, over its gossip file when that has no
  second line with two ports, or over the UDP listener when it is started and its port is refused; it waits for ever
  only when the result of the HTTP server was lost, nobody answers the liveness check or the service discovery client
  it has started is never ready; and when it runs, none of these is the case, and the lookout is in a consistent state
  from which the theorems about the running lookout start.
\<close>

theorem program_outcome:
  assumes "inotify_ok e" and "proc_ok e" and "boots m"
  shows "case main e g m argv of
      MExit rc \<Rightarrow>
        cmd_line e m argv = Exits rc \<and> rc \<le> 2 \<or>
        rc = 1 \<and> (\<exists>a level. cmd_line e m argv = Goes (a, level) \<and>
          (fst (served m) \<noteq> None \<or> start_refused e (ar_ctlPath a) \<or> start_fails e (w_lh (init_world a))))
    | MPanic s \<Rightarrow>
        (\<exists>a. flag_args e argv = Some a \<and> log_fails m a) \<or>
        (\<exists>a level. cmd_line e m argv = Goes (a, level) \<and>
          (Panic s = index_panic \<and> gossip_unreadable e g a \<or> Panic s = nil_deref \<and> udp_refused e g m a))
    | MWaits \<Rightarrow>
        (\<exists>a level. cmd_line e m argv = Goes (a, level) \<and>
          (b_main (m_boot m) = MBlocked \<or> (\<forall>ok \<in> set (m_live m). \<not> ok) \<or>
           ar_pmdb a \<and> ar_GossipNodesPath a \<noteq> [] \<and> \<not> StartClientAPI m a))
    | MRuns a services h w \<Rightarrow>
        (\<exists>level. cmd_line e m argv = Goes (a, level)) \<and> fst (served m) = None \<and> (\<exists>ok \<in> set (m_live m). ok) \<and>
        \<not> gossip_unreadable e g a \<and> \<not> udp_refused e g m a \<and>
        started w \<and> linv w \<and> lh_state (w_lh w) = RUNNING"
  using main_outcome [OF assms, of g argv] by (simp only: end_ok_def)

definition lab_menv :: menv where
  "lab_menv = \<lparr>m_ParseLevel = (\<lambda>_. Some WarnLevel), m_open_log = (\<lambda>_. None), m_listen = (\<lambda>_. None),
     m_boot = \<lparr>b_main = MGot None, b_go = GBlocked, b_buf = []\<rparr>, m_live = [False, True], m_serf = (\<lambda>_ _. (1, None)),
     m_ready = (\<lambda>_ _. False), m_udp = (\<lambda>_. Some ENOENT), m_udp_first = True\<rparr>"

theorem program_outcome_witness:
  "\<exists>a services h w. main lab_env lab_genv lab_menv [''-hp'', ''80''] = MRuns a services h w \<and> started w"
proof -
  have sv: "fst (served lab_menv) = None" by (simp add: served_def lab_menv_def ServeHttp_def)
  have "boot_step None boot_init \<lparr>b_main = MBlocked, b_go = GSend, b_buf = []\<rparr>"
    "boot_step None \<lparr>b_main = MBlocked, b_go = GSend, b_buf = []\<rparr> \<lparr>b_main = MGot None, b_go = GRecv, b_buf = []\<rparr>"
    "boot_step None \<lparr>b_main = MGot None, b_go = GRecv, b_buf = []\<rparr> (m_boot lab_menv)"
    by (simp_all add: boot_step_simps boot_init_def lab_menv_def)
  then have "(boot_step None)\<^sup>*\<^sup>* boot_init (m_boot lab_menv)"
    by (meson converse_rtranclp_into_rtranclp rtranclp.rtrancl_refl)
  moreover have "\<nexists>t. boot_step None (m_boot lab_menv) t" by (simp add: boot_step_simps lab_menv_def)
  ultimately have b: "boots lab_menv" by (simp add: boots_def sv)
  have "(case main lab_env lab_genv lab_menv [''-hp'', ''80''] of MRuns _ _ _ _ \<Rightarrow> True | _ \<Rightarrow> False)" by code_simp
  with program_outcome [OF lab_inotify lab_proc_ok b, where g = lab_genv and argv = "[''-hp'', ''80'']"]
  show ?thesis by (auto split: main_end.splits)
qed

text \<open>
  C7: Nothing a running lookout does, in whatever order the steps of its goroutines come, changes its state, so the loops that end at
  \<open>SHUTDOWN\<close> never end and each round of the scanner scans; waiting for a state during a run returns at once for
  \<open>RUNNING\<close> and never for another.
\<close>

theorem never_shuts_down:
  assumes "started w0" and "\<forall>w \<in> set seen. gstep\<^sup>*\<^sup>* w0 w" and "seen \<noteq> []"
  shows "LookoutWaitUntilState s (map (\<lambda>w. lh_state (w_lh w)) seen) = (if s = RUNNING then Some 0 else None) \<and>
    (\<forall>w \<in> set seen. \<forall>e es. monitorLsof (e # es) w = bindr (lookoutLsof e w) (\<lambda>(_, w). monitorLsof es w))"
proof
  have run: "lh_state (w_lh w) = RUNNING" if "w \<in> set seen" for w
    using running_stays [OF started_inv [OF assms(1)] started_running [OF assms(1)]] assms(2) that by blast
  then show "\<forall>w \<in> set seen. \<forall>e es. monitorLsof (e # es) w = bindr (lookoutLsof e w) (\<lambda>(_, w). monitorLsof es w)"
    by simp
  have "s \<noteq> RUNNING \<Longrightarrow> LookoutWaitUntilState s (map (\<lambda>w. lh_state (w_lh w)) seen) = None"
    using run by (intro waits_forever) auto
  then show "LookoutWaitUntilState s (map (\<lambda>w. lh_state (w_lh w)) seen) = (if s = RUNNING then Some 0 else None)"
    using assms(3) run by (cases seen) auto
qed

theorem never_shuts_down_witness:
  "LookoutWaitUntilState SHUTDOWN (map (\<lambda>w. lh_state (w_lh w)) [lab_world, lab_asked]) = None"
proof -
  have "gstep\<^sup>*\<^sup>* lab_world lab_asked" by (rule fsteps_gsteps [OF lstep_path [OF lab_inv lab_step]])
  then have "\<forall>w \<in> set [lab_world, lab_asked]. gstep\<^sup>*\<^sup>* lab_world w" by auto
  from never_shuts_down [OF lab_started this, of SHUTDOWN] show ?thesis by simp
qed

text \<open>
  C8: One clean-up pass, whatever the order in which it visits the map: it always returns, drops the commands
  that have waited too long, takes a running endpoint not heard of for the time-out down, and takes every
  other endpoint whose generation is stale out of service with its watch; nothing else changes.
\<close>

theorem clean_up:
  assumes "linv w" and "range_order ord (w_epMap w)"
  shows "\<exists>w'. CleanEPs e ord w = Inr w' \<and> linv w' \<and> w_epMap w' = w_epMap w \<and> w_cmds w' = w_cmds w \<and>
     (\<forall>r < w_neps w. w_eps w' r = cleaned e (w_gen w) (w_cmds w) (w_eps w r))"
  using ends_returns [OF CleanEPs_eq [OF assms, of e]] by (auto simp: frame_all_def)

theorem clean_up_witness:
  "\<exists>w'. CleanEPs lab_env [7] lab_world = Inr w' \<and>
     w_eps w' 0 = cleaned lab_env 1 (w_cmds lab_world) (w_eps lab_world 0)"
  using clean_up [OF lab_inv lab_range, of lab_env] by (auto simp: lab_facts)

text \<open>
  C9: An endpoint that two scans in a row do not see in any process is taken out of service by the next
  clean-up, unless it is still running (it then has to time out first).
\<close>

theorem two_missed_scans:
  assumes "linv w" and "r < w_neps w" and "ep_State (w_eps w r) \<noteq> EPstateRunning"
    and "inotify_ok e1" "w_gen w \<noteq> -1" "e_readdir e1 ''/proc'' = Inr ps1"
    and "\<forall>en \<in> set ps1. fst en \<noteq> []" "ep_Uuid (w_eps w r) \<notin> set (lsof_seen e1 (lh_CTLPath (w_lh w)) ps1)"
    and "lookoutLsof e1 w = Inr (x1, w1)"
    and "inotify_ok e2" "w_gen w1 \<noteq> -1" "e_readdir e2 ''/proc'' = Inr ps2"
    and "\<forall>en \<in> set ps2. fst en \<noteq> []" "ep_Uuid (w_eps w r) \<notin> set (lsof_seen e2 (lh_CTLPath (w_lh w)) ps2)"
    and "lookoutLsof e2 w1 = Inr (x2, w2)" and "range_order ord (w_epMap w2)"
  shows "\<exists>w3. CleanEPs e3 ord w2 = Inr w3 \<and> ep_State (w_eps w3 r) = EPstateRemoving \<and>
     \<not> ep_watched (w_eps w3 r) \<and> map_of (w_epMap w3) (ep_Uuid (w_eps w r)) = Some r"
proof -
  have s1: "linv w1" "scanned (set (lsof_seen e1 (lh_CTLPath (w_lh w)) ps1)) w w1"
    using lookoutLsof_inv [OF assms(1,4,5,6)] assms(7,9) by auto
  then have ctl: "lh_CTLPath (w_lh w1) = lh_CTLPath (w_lh w)" by (simp add: scanned_def)
  have s2: "linv w2" "scanned (set (lsof_seen e2 (lh_CTLPath (w_lh w)) ps2)) w1 w2"
    using lookoutLsof_inv [OF s1(1) assms(10,11,12)] assms(13,15) ctl by auto
  note m = missed_twice [OF s1(2) s2(2) assms(1,2,8,14,5,11)]
  have r2: "r < w_neps w2" using s1(2) s2(2) assms(2) by (simp add: scanned_def)
  obtain w3 where w3: "CleanEPs e3 ord w2 = Inr w3" "linv w3" "frame_all w2 w3"
    "\<forall>r < w_neps w2. w_eps w3 r = cleaned e3 (w_gen w2) (w_cmds w2) (w_eps w2 r)"
    using ends_returns [OF CleanEPs_eq [OF s2(1) assms(16), of e3]] by auto
  have "map_of (w_epMap w2) (ep_Uuid (w_eps w r)) = Some r"
    using inv_in_map [OF s2(1) r2] by (simp add: m(1))
  with w3 r2 m assms(3) show ?thesis by (auto simp: cleaned_def Let_def frame_all_def)
qed

definition lab_quiet :: env where
  "lab_quiet = lab_env\<lparr>e_readdir := (\<lambda>_. Inr [])\<rparr>"

theorem two_missed_scans_witness:
  "\<exists>w3. CleanEPs lab_env [7] (bump_gen (bump_gen lab_world)) = Inr w3 \<and> ep_State (w_eps w3 0) = EPstateRemoving"
proof -
  have q: "inotify_ok lab_quiet" using lab_inotify by (simp add: inotify_ok_def lab_quiet_def)
  have p: "e_readdir lab_quiet ''/proc'' = Inr []" "\<forall>en \<in> set []. fst en \<noteq> []"
    "u \<notin> set (lsof_seen lab_quiet ctl [])" "lookoutLsof lab_quiet w = Inr (None, bump_gen w)" for u ctl w
    by (simp_all add: lab_quiet_def lsof_seen_def lookoutLsof_def map_filter_def)
  have "0 < w_neps lab_world" "ep_State (w_eps lab_world 0) \<noteq> EPstateRunning" "w_gen lab_world \<noteq> -1"
    "w_gen (bump_gen lab_world) \<noteq> -1" "range_order [7] (w_epMap (bump_gen (bump_gen lab_world)))"
    using lab_range by (simp_all add: lab_facts)
  then show ?thesis
    using two_missed_scans [OF lab_inv _ _ q _ p q _ p, of 0 "[7]" lab_env] by auto
qed

text \<open>
  C10: One missed scan is enough when a clean-up comes in the middle of the next one: the counter is stepped before the
  processes are looked at, so an endpoint that only the last complete scan has missed, which a clean-up between
  scans leaves alone, is taken out of service with its watch; when the running scan comes to its process, it starts
  again from \<open>init\<close>.
\<close>

theorem early_removal:
  assumes "linv w" and "map_of (w_epMap w) u = Some r" and "ep_State (w_eps w r) \<noteq> EPstateRunning"
    and "ep_lsofGen (w_eps w r) + 1 = w_gen w" and "w_gen w \<noteq> -1"
  shows "(\<exists>w1. CleanEP e r w = Inr w1 \<and> ep_State (w_eps w1 r) = ep_State (w_eps w r)) \<and>
    (\<exists>w2. CleanEP e r (bump_gen w) = Inr w2 \<and> ep_State (w_eps w2 r) = EPstateRemoving \<and> \<not> ep_watched (w_eps w2 r) \<and>
      (inotify_ok e' \<longrightarrow> ends (AddEp e' u w2) (\<lambda>_. blocked e' w2 u)
         (\<lambda>(added, w3). \<not> added \<and> ep_State (w_eps w3 r) = EPstateInit)))"
proof -
  note r = inv_lookup [OF assms(1,2)]
  note m = removed_mid_scan [OF assms(1) r(1) assms(3-5), of e]
  obtain w2 where w2: "CleanEP e r (bump_gen w) = Inr w2" "linv w2" "frame_ep r (bump_gen w) w2"
      "ep_State (w_eps w2 r) = EPstateRemoving" "\<not> ep_watched (w_eps w2 r)" using m(2) by blast
  have u: "map_of (w_epMap w2) u = Some r" "r < w_neps w2" "ep_Uuid (w_eps w2 r) = u"
    using w2(3) assms(2) r frame_ep_all [OF w2(3)] by (simp_all add: frame_all_def)
  have "ends (AddEp e' u w2) (\<lambda>_. blocked e' w2 u)
      (\<lambda>(added, w3). \<not> added \<and> ep_State (w_eps w3 r) = EPstateInit)" if "inotify_ok e'"
    by (rule ends_mono [OF AddEp_inv [OF w2(2) that]])
       (use u w2(4) in \<open>auto simp: discovered_def found_def\<close>)
  with m(1) w2 show ?thesis by blast
qed

theorem early_removal_witness:
  "\<exists>w2. CleanEP lab_env 0 (bump_gen (bump_gen lab_world)) = Inr w2 \<and> ep_State (w_eps w2 0) = EPstateRemoving"
proof -
  have "linv (bump_gen lab_world)" by (rule bump_gen_inv [OF lab_inv]) (simp add: lab_facts)
  moreover have "ep_lsofGen (w_eps lab_world 0) = 1" by code_simp
  then have "ep_lsofGen (w_eps (bump_gen lab_world) 0) + 1 = w_gen (bump_gen lab_world)"
    "w_gen (bump_gen lab_world) \<noteq> -1" "map_of (w_epMap (bump_gen lab_world)) 7 = Some 0"
    "ep_State (w_eps (bump_gen lab_world) 0) \<noteq> EPstateRunning"
    by (simp_all add: lab_facts)
  ultimately show ?thesis using early_removal by blast
qed

text \<open>
  C11: The event of an answer reaches its command: a file \<open>lkoep_<uuid>\<close> that appears in the output directory of a
  watched endpoint completes the command \<open><uuid>\<close> of that endpoint and changes no other endpoint, unless this
  directory is the endpoint directory itself, whose descriptor the kernel then returned a second time.
\<close>

theorem answer_event:
  assumes "linv w" and "r < w_neps w" and "isWatchedState (ep_State (w_eps w r))" and "uuid_pkg e"
    and "ev_Wd ev = ep_wid (w_eps w r)" and "ev_Wd ev \<noteq> ino_wd (w_ino w)"
    and "ev_Name ev = LookoutPrefixStr @ e_uuid_String e u"
  shows "processEvent e ev w = bindr (Complete e r u None w) (\<lambda>(_, w). Inr w) \<and>
    (\<exists>w'. processEvent e ev w = Inr w' \<and> linv w' \<and> (\<forall>q. q \<noteq> r \<longrightarrow> w_eps w' q = w_eps w q))"
proof -
  have ok: "watch_ok w r" using assms(1,2) by (simp add: linv_def ep_ok_def)
  then have reg: "epWatchLookup w (ev_Wd ev) = Some r"
    using assms(3,5) by (auto simp: watch_ok_def epWatchLookup_def Let_def)
  have "e_uuid_Parse e (e_uuid_String e u) = Inr u" using assms(4) by (simp add: uuid_pkg_def)
  then have run: "processEvent e ev w = bindr (Complete e r u None w) (\<lambda>(_, w). Inr w)"
    using reg assms(6,7) by (simp add: processEvent_def HasPrefix_def LookoutPrefixStr_def)
  have "ends (Complete e r u None w) (\<lambda>_. False) (\<lambda>(_, w'). linv w' \<and> frame_ep r w w')"
    by (rule ends_mono [OF Complete_inv [OF assms(1,2), of e u None]]) (use assms(3) in auto)
  from ends_returns [OF this] run show ?thesis by (auto simp: frame_ep_def)
qed

theorem answer_event_witness:
  "\<exists>w'. processEvent lab_env (lab_event 2)
      (lab_w EPstateInit (AUnrecognized new_Unrecognized) [(2, 0)] IdentifyOp) = Inr w' \<and> linv w'"
proof -
  let ?w = "lab_w EPstateInit (AUnrecognized new_Unrecognized) [(2, 0)] IdentifyOp"
  have "linv ?w" by (rule lab_w_inv) (simp_all add: app_data_ok_def pmdb_bare_def new_Nisd_def new_Unrecognized_def)
  moreover have "0 < w_neps ?w" "isWatchedState (ep_State (w_eps ?w 0))"
    "ev_Wd (lab_event 2) = ep_wid (w_eps ?w 0)" "ev_Wd (lab_event 2) \<noteq> ino_wd (w_ino ?w)"
    "ev_Name (lab_event 2) = LookoutPrefixStr @ e_uuid_String lab_env 2"
    by (simp_all add: lab_w_def lab_event_def)
  ultimately show ?thesis using answer_event lab_uuid_pkg by blast
qed

text \<open>
  C12: The answer to the identification poll: the endpoint gets the application the answer names with its own
  uuid, becomes identified, and is at once asked for the application's data by the one command that is then
  pending.
\<close>

theorem identify_answered:
  assumes "linv w" and "r < w_neps w" and "map_of (ep_pendingCmds (w_eps w r)) u = Some c"
    and "c_op (w_cmds w c) = IdentifyOp" and "ep_State (w_eps w r) = EPstateInit"
    and "answer e w c = Inr out" and "DetermineApp e out = (a, None)"
    and "e_write e (query_file e w r)
           (query_text e w (fst (GetAppDetectInfo (SetUUID (ep_Uuid (w_eps w r)) a) False))) = None"
  shows "\<exists>w'. Complete e r u output w = Inr ((None, output), w') \<and>
     ep_State (w_eps w' r) = EPstateHasIdentity \<and>
     ep_App (w_eps w' r) = Some (SetUUID (ep_Uuid (w_eps w r)) a) \<and>
     ep_NiovaSvcType (w_eps w' r) = GetAppName a \<and> ep_LastSeen (w_eps w' r) = e_now e \<and>
     ep_pendingCmds (w_eps w' r) = [(e_uuid_New e (w_uuids w), w_ncmds w)] \<and>
     c_op (w_cmds w' (w_ncmds w)) = snd (GetAppDetectInfo (SetUUID (ep_Uuid (w_eps w r)) a) False)"
  using Complete_identify [OF assms] by (simp add: app.name_setu)

theorem identify_answered_witness:
  "\<exists>w'. Complete lab_env 0 2 None (lab_w EPstateInit (AUnrecognized new_Unrecognized) [(2, 0)] IdentifyOp)
      = Inr ((None, None), w') \<and> ep_State (w_eps w' 0) = EPstateHasIdentity"
proof -
  let ?w = "lab_w EPstateInit (AUnrecognized new_Unrecognized) [(2, 0)] IdentifyOp"
  have inv: "linv ?w" by (rule lab_w_inv) (simp_all add: app_data_ok_def pmdb_bare_def new_Nisd_def new_Unrecognized_def)
  have "0 < w_neps ?w" "map_of (ep_pendingCmds (w_eps ?w 0)) 2 = Some 0" "c_op (w_cmds ?w 0) = IdentifyOp"
    "ep_State (w_eps ?w 0) = EPstateInit" by (simp_all add: lab_w_def)
  moreover have "answer lab_env ?w 0 = Inr demo_text"
    by (simp add: answer_def checkOutFile_def lab_env_def demo_env_def maxOutFileSize_def)
  moreover have "DetermineApp lab_env demo_text = (ANisd new_Nisd, None)" by code_simp
  moreover have "e_write lab_env f s = None" for f s by (simp add: lab_env_def demo_env_def)
  ultimately show ?thesis using identify_answered [OF inv] by blast
qed

text \<open>
  C13: The answer to a data query: whatever asking state the endpoint was in (a time-out included) it is running
  afterwards, was seen now, holds the new data in its application and its document, and its queue is free.
\<close>

theorem data_answered:
  assumes "linv w" and "r < w_neps w" and "map_of (ep_pendingCmds (w_eps w r)) u = Some c"
    and "c_op (w_cmds w c) \<in> {SystemInfoOp, NISDInfoOp, NCLIENTInfoOp}"
    and "asking (ep_State (w_eps w r))" and "ep_App (w_eps w r) = Some a"
    and "answer e w c = Inr out" and "Unmarshal_ctl e out = Inr ctl"
  shows "\<exists>w'. Complete e r u output w = Inr ((None, output), w') \<and>
     ep_State (w_eps w' r) = EPstateRunning \<and> ep_App (w_eps w' r) = Some (SetCtlIfOut ctl a) \<and>
     ep_EPInfo (w_eps w' r) = GetCtlIfOut (SetCtlIfOut ctl a) \<and> ep_LastSeen (w_eps w' r) = e_now e \<and>
     ep_pendingCmds (w_eps w' r) = [] \<and> w_sys w' = w_sys w"
  by (rule Complete_info [OF assms])

theorem data_answered_witness:
  "\<exists>w'. Complete lab_env 0 2 None (lab_w EPstateDown (ANisd new_Nisd) [(2, 0)] NISDInfoOp) = Inr ((None, None), w') \<and>
     ep_State (w_eps w' 0) = EPstateRunning"
proof -
  let ?w = "lab_w EPstateDown (ANisd new_Nisd) [(2, 0)] NISDInfoOp"
  have inv: "linv ?w" by (rule lab_w_inv) (simp_all add: app_data_ok_def pmdb_bare_def new_Nisd_def new_Unrecognized_def)
  have "0 < w_neps ?w" "map_of (ep_pendingCmds (w_eps ?w 0)) 2 = Some 0"
    "c_op (w_cmds ?w 0) \<in> {SystemInfoOp, NISDInfoOp, NCLIENTInfoOp}"
    "asking (ep_State (w_eps ?w 0))" "ep_App (w_eps ?w 0) = Some (ANisd new_Nisd)"
    by (simp_all add: lab_w_def asking_def)
  moreover have "answer lab_env ?w 0 = Inr demo_text"
    by (simp add: answer_def checkOutFile_def lab_env_def demo_env_def maxOutFileSize_def)
  moreover have "Unmarshal_ctl lab_env demo_text = Inr zero_ctl" by code_simp
  ultimately show ?thesis using data_answered [OF inv] by blast
qed

text \<open>
  C14: The fallback of a failed system-information query is lost: the second command overwrites the first one
  through the shared variable and is refused because the queue still holds the first one's entry. Nothing is
  written for it, no error is reported, and the queue is left with an entry whose command carries no uuid.
\<close>

theorem fallback_lost:
  assumes "ep_pendingCmds (w_eps w r) = []" and "ep_App (w_eps w r) = Some (APmdb p)"
    and "e_write e (query_file e w r) (query_text e w ''GET /system_info/.*'') \<noteq> None"
  shows "\<exists>w'. queryApp e r w = Inr (None, w') \<and>
     ep_pendingCmds (w_eps w' r) = [(e_uuid_New e (w_uuids w), w_ncmds w)] \<and>
     c_id (w_cmds w' (w_ncmds w)) = 0 \<and> c_op (w_cmds w' (w_ncmds w)) = RaftInfoOp \<and>
     w_sys w' = w_sys w @ [SysWriteFile (query_file e w r) (query_text e w ''GET /system_info/.*'')]"
proof -
  have d: "GetAppDetectInfo (APmdb p) False = (''GET /system_info/.*'', SystemInfoOp)"
    "GetAppDetectInfo (APmdb p) True = (''GET /raft_root_entry/.*/.*'', RaftInfoOp)"
    by (simp_all add: Pmdb_GetAppDetectInfo_def Syst_GetAppDetectInfo_def)
  from queryApp_fallback [OF assms(1,2) d assms(3)] show ?thesis by auto
qed

theorem fallback_lost_witness:
  "\<exists>w'. queryApp (lab_env\<lparr>e_write := \<lambda>_ _. Some ENOENT\<rparr>) 0 (lab_w EPstateHasIdentity (APmdb new_Pmdb) [] IdentifyOp)
      = Inr (None, w') \<and> c_op (w_cmds w' 1) = RaftInfoOp"
  using fallback_lost [of "lab_w EPstateHasIdentity (APmdb new_Pmdb) [] IdentifyOp" 0 new_Pmdb
      "lab_env\<lparr>e_write := \<lambda>_ _. Some ENOENT\<rparr>"]
  by (auto simp: lab_w_def)

text \<open>
  C15: Polling an idle endpoint that is not identified writes one identification query, whose answer is to be
  left in the file named by a new uuid, and queues it; with a command pending a query writes nothing.
\<close>

theorem poll_unidentified:
  assumes "ep_State (w_eps w r) = EPstateInit" and "ep_pendingCmds (w_eps w r) = []"
  shows "\<exists>w'. Poll e r w = Inr (None, w') \<and>
     ep_pendingCmds (w_eps w' r) = [(e_uuid_New e (Suc (w_uuids w)), w_ncmds w)] \<and>
     c_op (w_cmds w' (w_ncmds w)) = IdentifyOp \<and> ep_State (w_eps w' r) = EPstateInit \<and>
     w_sys w' = w_sys w @ [SysWriteFile
       (Xpath e w r EP_PATH_INPUT @ LookoutPrefixStr @ e_uuid_String e (e_uuid_New e (Suc (w_uuids w))))
       (''GET /.*'' @ nl @ ''OUTFILE /'' @ LookoutPrefixStr @ e_uuid_String e (e_uuid_New e (Suc (w_uuids w))) @ nl)]"
proof -
  let ?w = "w\<lparr>w_uuids := Suc (w_uuids w)\<rparr>"
  have "w_uuids ?w = Suc (w_uuids w)" "w_ncmds ?w = w_ncmds w" "w_sys ?w = w_sys w" "w_eps ?w = w_eps w"
    "Xpath e ?w r EP_PATH_INPUT = Xpath e w r EP_PATH_INPUT" by (simp_all add: Xpath_def)
  then show ?thesis
    using asked_fields [of e r "''GET /.*''" IdentifyOp ?w] assms(1)
    by (simp add: Poll_Init [OF assms] query_file_def query_text_def outfile_line_def)
qed

theorem poll_unidentified_witness:
  "\<exists>w'. Poll lab_env 0 lab_world = Inr (None, w') \<and> c_op (w_cmds w' (w_ncmds lab_world)) = IdentifyOp"
  using poll_unidentified [of lab_world 0 lab_env] by (auto simp: lab_facts)

text \<open>
  C16: What the handlers do to the system, from any state: they watch only the endpoint directory and the output
  directories of endpoints, write only queries, each into the input file of its command and asking for the output
  file of that command, remove only files with the lookout's prefix from input and output directories, and append the
  HTTP port to the port file; and the only watch they ever ask the kernel to give up is \<open>-1\<close>, since the
  descriptor is reset before it is passed on.
\<close>

theorem effects_confined:
  "(Start e w = Inr (err, w') \<longrightarrow> adds e w w') \<and>
   (lookoutLsof e w = Inr (err, w') \<longrightarrow> adds e w w') \<and>
   (monitor_round e ord1 ord2 w = Inr (Some w') \<longrightarrow> adds e w w') \<and>
   (processEvent e ev w = Inr w' \<longrightarrow> adds e w w')"
  using Start_tame [of e w] lookoutLsof_tame [of e w] round_tame processEvent_tame [of e w ev]
  by (auto simp: tame_def)

theorem effects_confined_witness:
  "\<exists>xs. w_sys lab_asked = w_sys lab_world @ xs \<and> list_all (confined lab_env (w_lh lab_world)) xs"
  using effects_confined [of lab_env lab_world _ lab_asked "[7]" "[7]"] lab_asked by (auto simp: adds_def)

text \<open>Taking an endpoint out of service does ask for that, and forgets the descriptor.\<close>

lemma removal_leaks_watch:
  assumes "EpWatchRemove (Some r) w = Inr w'"
  shows "w_sys w' = w_sys w @ [SysRmWatch (-1)] \<and> 0 \<le> sint (ep_wid (w_eps w r)) \<and>
     epWatchLookup w' (ep_wid (w_eps w r)) = None"
proof -
  have rem: "watch_removed r w w'" using assms by (simp add: watch_removed_def)
  have "0 \<le> sint (ep_wid (w_eps w r))" using assms by (auto simp: EpWatchRemove_def split: if_splits)
  then show ?thesis using removed_descriptor [OF assms] reg.removed_not_found [OF rem] by simp
qed

section \<open>The container\<close>

text \<open>
  C17: Adding an endpoint, found by a scan or announced by an event, halts exactly when the endpoint is not watched yet
  and the kernel gives its output directory no descriptor of its own: it refuses, or returns one that is in the table
  already. Otherwise the endpoint is in the map afterwards with the scanner's generation and watched, it is
  reported as new exactly when the map did not have it, and no other endpoint changes.
\<close>

theorem add_endpoint:
  assumes "linv w" and "inotify_ok e"
  shows "ends (AddEp e u w) (\<lambda>_. blocked e w u)
     (\<lambda>(added, w'). \<not> blocked e w u \<and> linv w' \<and> (added \<longleftrightarrow> map_of (w_epMap w) u = None) \<and>
        (\<exists>r < w_neps w'. map_of (w_epMap w') u = Some r \<and> ep_lsofGen (w_eps w' r) = w_gen w \<and> ep_watched (w_eps w' r)) \<and>
        (\<forall>v. v \<noteq> u \<longrightarrow> map_of (w_epMap w') v = map_of (w_epMap w) v) \<and>
        (\<forall>q < w_neps w. ep_Uuid (w_eps w q) \<noteq> u \<longrightarrow> w_eps w' q = w_eps w q))"
proof (rule ends_mono [OF AddEp_inv [OF assms]], clarsimp simp only: prod.case, intro conjI)
  fix w' assume w': "linv w'" "discovered u w w'"
  show "\<exists>r < w_neps w'. map_of (w_epMap w') u = Some r \<and> ep_lsofGen (w_eps w' r) = w_gen w \<and> ep_watched (w_eps w' r)"
    by (rule discovered_watched [OF w'(1,2)])
  show "\<forall>v. v \<noteq> u \<longrightarrow> map_of (w_epMap w') v = map_of (w_epMap w) v"
    "\<forall>q < w_neps w. ep_Uuid (w_eps w q) \<noteq> u \<longrightarrow> w_eps w' q = w_eps w q"
    using w'(2) by (simp_all add: discovered_def)
qed (assumption | rule refl)+

theorem add_endpoint_witness:
  "case AddEp lab_env 7 lab_world of Inr (added, w') \<Rightarrow> \<not> added \<and> linv w' | _ \<Rightarrow> False"
proof -
  have "ep_watched (w_eps lab_world 0)" by code_simp
  then have "\<not> blocked lab_env lab_world 7" by (simp add: blocked_def unwatched_def lab_facts)
  with add_endpoint [OF lab_inv lab_inotify, of 7] show ?thesis
    by (auto simp: lab_facts split: sum.splits)
qed

text \<open>
  The liveness mark that the UDP listener makes panics exactly for an endpoint that is known and in the state
  \<open>init\<close> or \<open>down\<close>; otherwise it only reports whether the text is a uuid.
\<close>

theorem mark_alive:
  "MarkAlive e s w =
     (case e_uuid_Parse e s of
        Inl err \<Rightarrow> Inr (Some err)
      | Inr u \<Rightarrow> if ep_table w u \<in> {Some EPstateInit, Some EPstateDown}
                 then Inl (Panic ''This code path is broken'') else Inr None)"
  by (auto simp: MarkAlive_def ep_table_def split: sum.splits option.splits)

section \<open>Inotify events\<close>

text \<open>
  C18: The bytes of any non-empty sequence of well-formed inotify events, as \<open>inotify(7)\<close> lays them out at the start
  of the 4096-byte buffer, are decoded into exactly these events, in order, whatever an earlier read left behind
  them.
\<close>

theorem events_decoded:
  assumes "list_all ev_valid evs" and "evs \<noteq> []" and "lh_state (w_lh w) \<noteq> SHUTDOWN"
    and "length (concat (map ev_bytes evs) @ old) = ev_bufsize"
  shows "epInotifyWatch_iter e (Inr (int (length (concat (map ev_bytes evs))), concat (map ev_bytes evs) @ old)) w =
     bindr (for_each (processEvent e) evs w) (\<lambda>w. Inr (Some w))"
  using ev_loop_events [OF assms(1,2,4)] assms(3) by (simp add: epInotifyWatch_iter_def)

theorem events_decoded_witness:
  "epInotifyWatch_iter lab_env (Inr (16, ev_bytes \<lparr>ev_Name = [], ev_Wd = 9, ev_Mask = 0x80, ev_Cookie = 0, ev_Len = 0\<rparr>
      @ replicate 4080 (CHR 0x41))) lab_world = Inr (Some lab_world)"
proof -
  let ?ev = "\<lparr>ev_Name = [], ev_Wd = 9, ev_Mask = 0x80, ev_Cookie = 0, ev_Len = 0\<rparr> :: inotifyEvent"
  have v: "list_all ev_valid [?ev]" by (simp add: ev_valid_def)
  then have len: "length (ev_bytes ?ev) = 16" using length_ev_bytes [of ?ev] by simp
  have "processEvent lab_env ?ev lab_world = Inr lab_world"
    by (simp add: processEvent_def lab_facts epWatchLookup_def)
  moreover have "lh_state (w_lh lab_world) \<noteq> SHUTDOWN" "length (concat (map ev_bytes [?ev]) @ replicate 4080 (CHR 0x41)) = ev_bufsize"
    using len by (simp_all add: lab_facts ev_bufsize_def)
  ultimately show ?thesis using events_decoded [OF v, of lab_world "replicate 4080 (CHR 0x41)" lab_env] len by simp
qed

text \<open>
  C19: A read of fewer than 16 bytes makes the limit \<open>uint32(n - SizeofInotifyEvent)\<close> wrap around, and the loop
  runs over the old contents of the buffer until a slice is out of bounds: the watcher never survives it.
\<close>

theorem short_read_panics:
  assumes "lh_state (w_lh w) \<noteq> SHUTDOWN" and "length buf = ev_bufsize" and "0 \<le> n" and "n < 16"
  shows "epInotifyWatch_iter e (Inr (n, buf)) w \<noteq> Inr x"
  using ev_loop_short_read [OF assms(2-4)] assms(1)
  by (auto simp: epInotifyWatch_iter_def bindr_eq_Inr split: prod.splits)

theorem short_read_panics_witness:
  "\<forall>x. epInotifyWatch_iter lab_env (Inr (0, replicate ev_bufsize (CHR 0x00))) lab_world \<noteq> Inr x"
  by (intro allI short_read_panics) (simp_all add: lab_facts)

section \<open>Metrics\<close>

text \<open>
  C20: In a consistent state, and so in every reachable one, a scrape of \<open>/metrics\<close> succeeds exactly when no running
  endpoint lacks what the code dereferences without a check: a PMDB its system information and a Raft entry, a NISD
  its queue statistics, a client its system information and its own entry.
\<close>

theorem scrape_returns:
  assumes "linv w" and "visits (e_ord e)" and "range_order ord1 (w_epMap w)" "range_order ord2 (w_epMap w)"
  shows "returns (MetricsHandler e ord1 ord2 w) \<longleftrightarrow>
    \<not> (\<exists>u r a. map_of (w_epMap w) u = Some r \<and> ep_State (w_eps w r) = EPstateRunning \<and>
        ep_App (w_eps w r) = Some a \<and> metrics_panics a)"
  by (rule MetricsHandler_returns [OF assms(2-4) inv_typed [OF assms(1)]])

theorem scrape_returns_witness: "returns (MetricsHandler lab_env [7] [7] lab_world)"
proof -
  have app: "ep_App (w_eps lab_world 0) = Some (AUnrecognized new_Unrecognized)" by code_simp
  have "visits (e_ord lab_env)" using visits_keys by (simp add: lab_env_def demo_env_def)
  from scrape_returns [OF lab_inv this lab_range lab_range] show ?thesis
    by (simp add: lab_facts app metrics_panics_def split: if_splits)
qed

text \<open>
  C21: In every consistent state, and so in every reachable one, as soon as one PMDB endpoint is running each scrape of \<open>/metrics\<close> panics: no
  operation ever stores system information in a PMDB application.
\<close>

theorem running_pmdb_breaks_scrape:
  assumes "linv w" and "map_of (w_epMap w) u = Some r"
    and "ep_State (w_eps w r) = EPstateRunning" and "ep_App (w_eps w r) = Some (APmdb p)"
    and "range_order ord1 (w_epMap w)" "range_order ord2 (w_epMap w)"
  shows "MetricsHandler e ord1 ord2 w \<noteq> Inr out"
  by (rule scrape_pmdb [OF assms])

theorem running_pmdb_breaks_scrape_witness:
  "\<forall>out. MetricsHandler lab_env [7] [7] (lab_w EPstateRunning (APmdb new_Pmdb) [] IdentifyOp) \<noteq> Inr out"
proof -
  let ?w = "lab_w EPstateRunning (APmdb new_Pmdb) [] IdentifyOp"
  have "linv ?w" by (rule lab_w_inv) (simp_all add: app_data_ok_def pmdb_bare_def new_Pmdb_def zero_ctl_def typed_ctl_def)
  moreover have "map_of (w_epMap ?w) 7 = Some 0" "range_order [7] (w_epMap ?w)"
    "ep_State (w_eps ?w 0) = EPstateRunning" "ep_App (w_eps ?w 0) = Some (APmdb new_Pmdb)"
    by (simp_all add: lab_w_def lab_uuid_def range_order_def)
  ultimately show ?thesis using running_pmdb_breaks_scrape by blast
qed

text \<open>
  C22: A histogram is rendered as its non-zero buckets in increasing order of their bounds followed by the sum of
  all buckets, whatever the order in which the bucket map is visited.
\<close>

theorem histogram_rendered:
  assumes "visits ord"
  shows "makePromHistogram ord metric label (parseHistogram bs) = histogram_text metric label bs"
  by (rule makePromHistogram_text [OF assms])

theorem histogram_rendered_witness:
  "makePromHistogram (\<lambda>m. rev (map fst m)) ''m'' ''l'' (parseHistogram [3, 0, 4]) = histogram_text ''m'' ''l'' [3, 0, 4]"
  by (rule histogram_rendered [OF visits_rev_keys])

text \<open>
  C23: The exporter never panics on the structures the applications report: on a value of one of these types it
  writes one block per exported field, in field order, each of the kind the field's tag asks for.
\<close>

theorem structure_rendered:
  assumes "visits ord" and "fs \<in> set metric_tables" and "of_type fs vs"
  shows "GenericPromDataParser fmtv ord fs vs labels =
     Inr (concat (map (\<lambda>(f, v). prom_block fmtv (makeLabelString ord labels) f v) (zip fs vs)))"
  by (rule GenericPromDataParser_blocks [OF assms(1) table_exportable [OF assms(2)] assms(3)])

theorem structure_rendered_witness:
  "\<exists>out. GenericPromDataParser (\<lambda>_. ''1'') (map fst) BufferSetNodes_fields
     [GString ''n'', GUint 1, GUint 2, GUint 3, GUint 4, GUint 5, GUint 6] [] = Inr out"
proof -
  have "of_type BufferSetNodes_fields [GString ''n'', GUint 1, GUint 2, GUint 3, GUint 4, GUint 5, GUint 6]"
    by (simp add: of_type_def BufferSetNodes_fields_def has_kind_def)
  from structure_rendered [OF visits_keys _ this] show ?thesis by simp
qed

text \<open>
  An application's own part of a scrape returns exactly when everything it indexes and dereferences is there.
\<close>

theorem application_rendered:
  assumes "visits (e_ord e)" and "typed_app a"
  shows "returns (Parse e a labels) \<longleftrightarrow> parse_ready a"
  by (rule Parse_returns [OF assms])

theorem application_rendered_witness: "returns (Parse lab_env (ANisd new_Nisd) [])"
proof -
  have "visits (e_ord lab_env)" using visits_keys by (simp add: lab_env_def demo_env_def)
  moreover have "typed_app (ANisd new_Nisd)" by (simp add: new_Nisd_def zero_ctl_def typed_ctl_def)
  ultimately have "returns (Parse lab_env (ANisd new_Nisd) []) \<longleftrightarrow> parse_ready (ANisd new_Nisd)"
    by (rule application_rendered)
  then show ?thesis by (simp add: new_Nisd_def zero_ctl_def)
qed

section \<open>The configuration of a NISD\<close>

text \<open>
  C24: A C program that reads the record sent to a NISD finds the uuid, the address, its length and the port that
  were put in, for every uuid text of 36 bytes, every address of at most 15 bytes and every 32-bit port.
\<close>

theorem nisd_config_read_back:
  assumes "length UUID = 36" and "length ipaddr \<le> 15" and "NUL \<notin> set UUID" and "NUL \<notin> set ipaddr"
    and "- (2 ^ 31) \<le> port" and "port < 2 ^ 31"
  shows "\<exists>m. FillNisdCStruct UUID ipaddr port = Some m \<and> length m = sizeof_nisd_config \<and> rd_uuid m = UUID \<and>
    rd_ipaddr m = ipaddr \<and> rd_addr_len m = int (length ipaddr) \<and> rd_port m = port"
  by (rule FillNisdCStruct_read [OF assms, of ?thesis]) (auto simp: sizeof_nisd_config_def)

theorem nisd_config_read_back_witness:
  "\<exists>m. FillNisdCStruct ''00000000-0000-0000-0000-000000000007'' ''10.0.0.7'' 8080 = Some m \<and> rd_ipaddr m = ''10.0.0.7''"
  using nisd_config_read_back [of "''00000000-0000-0000-0000-000000000007''" "''10.0.0.7''" 8080] by auto

text \<open>
  C25: The copies into the record stay inside its 64 bytes exactly when the uuid text has at most 63 bytes and the
  address at most 26; a longer address, which nothing checks, is written beyond the structure.
\<close>

theorem nisd_config_in_bounds:
  "FillNisdCStruct UUID ipaddr port \<noteq> None \<longleftrightarrow> length UUID \<le> 63 \<and> length ipaddr \<le> 26"
  by (rule FillNisdCStruct_defined)

text \<open>
  C26: What a datagram can do to the process: it is read into a buffer of 1024 bytes, so even a short one has the 36
  bytes that are cut out, and only two kinds stop the lookout. One begins with the uuid of an endpoint that is known in
  the state \<open>init\<close> or \<open>down\<close>, which panics; for the other PMDB has an address of more than 26 bytes stored under
  the first 36 bytes, which is copied beyond the C structure.
\<close>

theorem udp_request:
  assumes "\<And>s. length s = 36 \<Longrightarrow> NUL \<in> set s \<Longrightarrow> \<exists>err. e_uuid_Parse e s = Inl err"
  shows "getConfigNSend e p (ReadFrom datagram) w = Inl h \<longleftrightarrow>
    (if 36 \<le> length datagram \<and> unready e w (take 36 datagram) then h = Panic ''This code path is broken''
     else h = Undefined \<and> 26 < length (stored_addr p (take 36 (ReadFrom datagram))))"
proof (cases "36 \<le> length datagram")
  case True
  then have "take 36 (ReadFrom datagram) = take 36 datagram" by (simp add: take_ReadFrom)
  with True show ?thesis by (simp add: getConfigNSend_halts)
next
  case False
  then have "NUL \<in> set (take 36 (ReadFrom datagram))" by (intro short_ReadFrom) simp_all
  from assms [OF _ this] have "\<not> unready e w (take 36 (ReadFrom datagram))" by (auto simp: unready_def)
  with False show ?thesis by (simp add: getConfigNSend_halts)
qed

definition lab_penv :: penv where
  "lab_penv = \<lparr>p_Encode = (\<lambda>r. Inr (kq_Key r)), p_Request = (\<lambda>k. (k, None)),
     p_Decode = (\<lambda>bs z. z\<lparr>kr_Value := compact (JObj [(''IP_ADDR'', JStr ''10.0.0.7''), (''Port'', JStr (Itoa 80))])\<rparr>)\<rparr>"

definition strict_env :: env where
  "strict_env = lab_env\<lparr>e_uuid_Parse := (\<lambda>s. if length s = 36 \<and> NUL \<in> set s then Inl ENOENT else e_uuid_Parse lab_env s)\<rparr>"

theorem udp_request_witness:
  "\<nexists>h. getConfigNSend strict_env lab_penv (ReadFrom ''hello'') lab_world = Inl h"
proof -
  have "\<exists>err. e_uuid_Parse strict_env s = Inl err" if "length s = 36" "NUL \<in> set s" for s
    using that by (simp add: strict_env_def)
  moreover have "stored_addr lab_penv k = ''10.0.0.7''" for k
    using to_valid_id [of "''10.0.0.7''"] by (simp add: stored_addr_def lab_penv_def strmap_printed ascii_valid)
  ultimately show ?thesis using udp_request [of strict_env lab_penv "''hello''" lab_world] by simp
qed

text \<open>
  C27: The configuration service end to end: when PMDB has an address and a port stored under the uuid a datagram begins
  with, the answer is a record in which a C program finds this uuid, this address and this port.
\<close>

theorem udp_answer:
  assumes "36 \<le> length datagram" and "NUL \<notin> set (take 36 datagram)"
    and "MarkAlive e (take 36 datagram) w = Inr err"
    and "kr_Value (p_Decode p (fst (RequestPMDB p (take 36 datagram))) zero_KVResponse) =
      compact (JObj [(''IP_ADDR'', JStr ip), (''Port'', JStr (Itoa port))])"
    and "utf8_valid ip" and "length ip \<le> 15" and "NUL \<notin> set ip" and "- (2 ^ 31) \<le> port" and "port < 2 ^ 31"
  shows "\<exists>m. getConfigNSend e p (ReadFrom datagram) w = Inr m \<and> length m = sizeof_nisd_config \<and>
    rd_uuid m = take 36 datagram \<and> rd_ipaddr m = ip \<and> rd_port m = port"
proof -
  have k: "take 36 (ReadFrom datagram) = take 36 datagram" using assms(1) by (simp add: take_ReadFrom)
  have "length (take 36 datagram) = 36" using assms(1) by simp
  from FillNisdCStruct_read [OF this assms(6,2,7-9)] obtain m where m:
    "FillNisdCStruct (take 36 datagram) ip port = Some m" "length m = 64" "rd_uuid m = take 36 datagram"
    "rd_ipaddr m = ip" "rd_port m = port" by blast
  have "min_int64 \<le> port" "port \<le> max_int64" using assms(8,9) by (simp_all add: min_int64_def max_int64_def)
  with getConfigNSend_answer [of "ReadFrom datagram" e w err p ip port m] assms(3-5) m k show ?thesis
    by (simp add: sizeof_nisd_config_def)
qed

theorem udp_answer_witness:
  "\<exists>m. getConfigNSend lab_env lab_penv (ReadFrom ''00000000-0000-0000-0000-000000000009'') lab_world = Inr m \<and>
     rd_ipaddr m = ''10.0.0.7'' \<and> rd_port m = 80"
proof -
  let ?d = "''00000000-0000-0000-0000-000000000009''"
  have d: "36 \<le> length ?d" "NUL \<notin> set (take 36 ?d)" by simp_all
  have m: "MarkAlive lab_env (take 36 ?d) lab_world = Inr None"
  proof -
    have "(case MarkAlive lab_env (take 36 ?d) lab_world of Inr None \<Rightarrow> True | _ \<Rightarrow> False)" by code_simp
    then show ?thesis by (auto split: sum.splits option.splits)
  qed
  have v: "kr_Value (p_Decode lab_penv (fst (RequestPMDB lab_penv (take 36 ?d))) zero_KVResponse) =
      compact (JObj [(''IP_ADDR'', JStr ''10.0.0.7''), (''Port'', JStr (Itoa 80))])"
    by (simp add: lab_penv_def)
  have "utf8_valid ''10.0.0.7''" by (rule ascii_valid) simp
  from udp_answer [OF d m v this] show ?thesis by auto
qed

section \<open>Gossip\<close>

text \<open>
  C28: A lookout that gets the tags another lookout has published records it under its uuid with its addresses,
  which parse back to those its configuration has, its HTTP port, its port range and, with the status and the type of
  its application, exactly those of its endpoints whose compressed uuid does not begin with \<open>LO-\<close>: the receiver takes
  the others for tags of the lookout. Neither the order in which the sender visits its endpoints nor that in which the
  receiver visits the tags matters.
\<close>

theorem gossip_round_trip:
  assumes "linv w" and "gossip_codec e g" and "uuid_pkg e" and "range_order ord (w_epMap w)"
    and "GetCompressedGossipData e g h ord w = Inr tags" and "range_order tord tags"
    and "min_int64 \<le> e_now e div second" and "e_now e div second \<le> max_int64" and "cm_Lookouts h' = Some m"
    and "list_all ip_ok (cm_addrList h)"
  shows "\<exists>l ips. GetTags_round e g [(tord, tags)] h' = Inr (h'\<lparr>cm_Lookouts := Some (mput (cm_LookoutUUID h) l m)\<rparr>) \<and>
     li_IPAddrs l = Some ips \<and> map ParseIP ips = cm_addrList h \<and> li_HTTPPort l = Itoa (cm_HttpPort h) \<and>
     li_PortRange l = Itoa (uint (cm_ServicePortRangeS h)) @ '' '' @ Itoa (uint (cm_ServicePortRangeE h)) \<and>
     map_of (li_Apps l) = (\<lambda>u. if HasPrefix (g_CompressUUID g (e_uuid_String e u)) ''LO-'' then None
                              else map_option (app_tag w) (map_of (w_epMap w) u))"
  using tags_received [OF assms(1-9)] ipc.decode_all [OF assms(10)]
  by (auto simp: GetTags_round_def hidden_def ep_key_def)

theorem gossip_round_trip_witness:
  "\<exists>tags h'. GetCompressedGossipData lab_env lab_genv lab_handler [7] lab_world = Inr tags \<and>
     GetTags_round lab_env lab_genv [(map fst tags, tags)] lab_handler = Inr h' \<and>
     (\<exists>l ips. cm_Lookouts h' = Some [(''L'', l)] \<and> li_IPAddrs l = Some ips \<and>
        map ParseIP ips = [ParseIP ''10.0.0.7'', ParseIP ''fe80::7''] \<and> map_of (li_Apps l) 7 \<noteq> None)"
proof -
  obtain tags where t: "GetCompressedGossipData lab_env lab_genv lab_handler [7] lab_world = Inr tags"
    "range_order (map fst tags) tags" by (rule lab_tags)
  have h: "cm_Lookouts lab_handler = Some []" "list_all ip_ok (cm_addrList lab_handler)" "cm_LookoutUUID lab_handler = ''L''"
    "cm_addrList lab_handler = [ParseIP ''10.0.0.7'', ParseIP ''fe80::7'']"
    by (simp_all add: lab_handler_def ParseIP_ok)
  have s: "\<not> HasPrefix (g_CompressUUID lab_genv (e_uuid_String lab_env 7)) ''LO-''"
    using lab_shown by (simp add: hidden_def ep_key_def)
  from gossip_round_trip [OF lab_inv lab_codec lab_uuid_pkg lab_range t lab_time h(1,2)] h t(1) s
  show ?thesis by (fastforce simp: lab_facts)
qed

text \<open>
  C29: What a lookout publishes reaches the table of every lookout that meets its tags in one round, whatever other members
  say in any round, and it stays there: no round fails and no entry is ever removed.
\<close>

theorem peer_stays_known:
  assumes "linv w" and "gossip_codec e g" and "uuid_pkg e" and "range_order ord (w_epMap w)"
    and "GetCompressedGossipData e g h ord w = Inr tags" and "range_order tord tags"
    and "min_int64 \<le> e_now e div second" and "e_now e div second \<le> max_int64"
    and "(tord, tags) \<in> set members"
  shows "\<exists>m. GetTags g (before @ (e, members) # later) h' = Inr (h'\<lparr>cm_Lookouts := Some m\<rparr>) \<and>
    map_of m (cm_LookoutUUID h) \<noteq> None"
  by (rule peer_known [OF assms])

theorem peer_stays_known_witness:
  "\<exists>tags m. GetCompressedGossipData lab_env lab_genv lab_handler [7] lab_world = Inr tags \<and>
     GetTags lab_genv [(lab_env, [(map fst tags, tags)]), (demo_env, [([], [])])] lab_handler =
       Inr (lab_handler\<lparr>cm_Lookouts := Some m\<rparr>) \<and> map_of m ''L'' \<noteq> None"
proof -
  obtain tags where t: "GetCompressedGossipData lab_env lab_genv lab_handler [7] lab_world = Inr tags"
    "range_order (map fst tags) tags" by (rule lab_tags)
  have u: "cm_LookoutUUID lab_handler = ''L''" by (simp add: lab_handler_def)
  from peer_stays_known [OF lab_inv lab_codec lab_uuid_pkg lab_range t lab_time, of "[(map fst tags, tags)]" "[]"
      "[(demo_env, [([], [])])]" lab_handler]
  show ?thesis using t(1) u by auto
qed

text \<open>
  C30: The port arithmetic is modulo \<open>2 ^ 16\<close>. So the service ports are those from the first to the last one of the
  configuration when there are fewer than \<open>2 ^ 16\<close> of them; but a range of all ports, as any range whose end is
  just before its start, has no ports at all, and a range that ends earlier wraps around.
\<close>

theorem port_range:
  "map unat (cm_PortRange (makeRange h)) =
     map (\<lambda>i. (unat (cm_ServicePortRangeS h) + i) mod 2 ^ 16)
       [0 ..< nat ((uint (cm_ServicePortRangeE h) - uint (cm_ServicePortRangeS h) + 1) mod 2 ^ 16)] \<and>
   (uint (cm_ServicePortRangeS h) \<le> uint (cm_ServicePortRangeE h) \<and>
      uint (cm_ServicePortRangeE h) - uint (cm_ServicePortRangeS h) + 1 < 2 ^ 16 \<longrightarrow>
    map unat (cm_PortRange (makeRange h)) =
      [unat (cm_ServicePortRangeS h) ..< Suc (unat (cm_ServicePortRangeE h))])"
  using makeRange_mod makeRange_ports by blast

theorem port_range_witness:
  "map unat (cm_PortRange (makeRange lab_handler)) =
     [unat (cm_ServicePortRangeS lab_handler) ..< Suc (unat (cm_ServicePortRangeE lab_handler))]"
  by (rule port_range [THEN conjunct2, THEN mp]) (simp add: lab_handler_def)

text \<open>The addresses of the configuration are its distinct addresses in the order of their first occurrence.\<close>

theorem addresses_distinct: "removeDuplicateStr xs = rev (remdups (rev xs))"
  by (rule removeDuplicateStr_eq)

text \<open>
  C31: Reading a configuration file that can be opened panics exactly when its second line, empty if there is none,
  has no space between two ports.
\<close>

theorem config_panics:
  assumes "e_stat e path \<noteq> Inl ENOENT" and "g_open g path = Inr content"
  shows "(\<exists>x. LoadConfigInfo e g path h = Inl x) \<longleftrightarrow> \<not> Contains (scan_text content 1) '' ''"
  by (rule LoadConfigInfo_panics [OF assms])

theorem config_panics_witness:
  "\<exists>x. LoadConfigInfo lab_env lab_genv ''gossip'' lab_handler = Inl x"
proof -
  have "e_stat lab_env ''gossip'' \<noteq> Inl ENOENT" "g_open lab_genv ''gossip'' = Inr ''127.0.0.1''"
    by (simp_all add: lab_env_def demo_env_def lab_genv_def)
  note panics = config_panics [OF this]
  have "scan_text ''127.0.0.1'' 1 = []" by (simp add: scan_text_def Scan_def drop_cr_def)
  then show ?thesis by (simp add: panics Contains_def HasPrefix_def)
qed

text \<open>
  A line of serf's log of four fields is logged once, with the level named in brackets in its last field and
  the rest of that field as the message, and its whole length is reported as written; without a well-placed pair
  of brackets the whole field is logged as information.
\<close>

theorem serf_log_line:
  assumes "SplitN line '' '' 4 = [a, b, c, rest]"
  shows "logrusWriter_Write line =
    (int (length line),
     case (Index rest ''['', Index rest '']'') of
       (Some i, Some j) \<Rightarrow>
         if i < j then [(log_level (take (j - (i + 1)) (drop (i + 1) rest)), TrimSpace (drop (j + 1) rest))]
         else [(INFO, rest)]
     | _ \<Rightarrow> [(INFO, rest)])"
proof -
  have "log_level ''INFO'' = INFO" by (simp add: log_level_def ToUpper_def upper_char_def)
  then show ?thesis using assms by (simp add: logrusWriter_Write_def Let_def split: option.splits)
qed

theorem serf_log_line_witness:
  "logrusWriter_Write ''2024/01/01 10:00:00 x [ERROR] lost'' = (34, [(ERROR, ''lost'')])"
proof -
  have "SplitN ''2024/01/01 10:00:00 x [ERROR] lost'' '' '' 4 = [''2024/01/01'', ''10:00:00'', ''x'', ''[ERROR] lost'']"
    by code_simp
  from serf_log_line [OF this] show ?thesis
    by (simp add: HasPrefix_def log_level_def ToUpper_def upper_char_def TrimSpace_def is_space_def)
qed

section \<open>Documents\<close>

definition lab_jenv :: jenv where
  "lab_jenv = \<lparr>j_float = (\<lambda>_. ''0''), j_time = (\<lambda>_. ''now'')\<rparr>"

text \<open>
  C32: The JSON document of the endpoints in a state does not depend on the order in which the map is visited: it
  holds exactly the endpoints of the map that are in the state, and all of them for \<open>any\<close>.
\<close>

theorem document_order:
  assumes "linv w" and "uuid_pkg e" and "range_order ord (w_epMap w)" "range_order ord' (w_epMap w)"
  shows "JsonMarshal je e state ord w = JsonMarshal je e state ord' w \<and>
    map_of (JsonMarshal_select state ord w) u =
      (case map_of (w_epMap w) u of
         None \<Rightarrow> None
       | Some r \<Rightarrow> if state = EPstateAny \<or> ep_State (w_eps w r) = state then Some r else None)"
  using JsonMarshal_order [OF assms] select_map_of [OF assms(3)] by blast

theorem document_order_witness:
  "map_of (JsonMarshal_select EPstateInit [7] lab_world) 7 = Some 0"
  using document_order [OF lab_inv lab_uuid_pkg lab_range lab_range, of undefined EPstateInit 7] by (simp add: lab_facts)

text \<open>
  C33: Which requests for endpoint documents are answered. The multiplexer matches the decoded path, the handler splits
  the URL as it was sent: a request that is routed to the documents is answered exactly when this text contains
  \<open>/v0/\<close>, so every target that begins with it is, and panics otherwise, as for the target \<open>/v%30/\<close>. A target \<open>/v0/\<close> followed
  by letters, digits and dashes gets the document of the state or of the endpoint these name, any other text an error
  line.
\<close>

theorem document_requests:
  assumes "ParseRequestURI t = Some u" and "mux u = RouteV0"
  shows "(if Contains (URL_String u) ''/v0/'' then returns (httpHandleRoute je e ord u w)
     else httpHandleRoute je e ord u w = Inl index_panic) \<and>
    (HasPrefix t ''/v0/'' \<longrightarrow> returns (httpHandleRoute je e ord u w)) \<and>
    (\<forall>s. t = ''/v0/'' @ s \<and> list_all plain_char s \<longrightarrow>
       httpHandleRoute je e ord u w = Inr (document je e ord s w)) \<and>
    (\<exists>v. ParseRequestURI ''/v%30/'' = Some v \<and> mux v = RouteV0 \<and>
       httpHandleRoute je e ord v w = Inl index_panic)"
proof (intro conjI allI impI)
  show answered: "if Contains (URL_String u) ''/v0/'' then returns (httpHandleRoute je e ord u w)
      else httpHandleRoute je e ord u w = Inl index_panic"
    by (rule httpHandleRoute_returns)
  show "returns (httpHandleRoute je e ord u w)" if "HasPrefix t ''/v0/''"
    using answered v0_contained [OF assms(1) that] by simp
  show "httpHandleRoute je e ord u w = Inr (document je e ord s w)" if "t = ''/v0/'' @ s \<and> list_all plain_char s" for s
    using that assms(1) by (intro plain_request) simp_all
  obtain v where v: "ParseRequestURI ''/v%30/'' = Some v" "mux v = RouteV0" "URL_String v = ''/v%30/''"
    using encoded_target by blast
  moreover have "\<not> Contains ''/v%30/'' ''/v0/''" by code_simp
  ultimately show "\<exists>v. ParseRequestURI ''/v%30/'' = Some v \<and> mux v = RouteV0 \<and>
      httpHandleRoute je e ord v w = Inl index_panic"
    using httpHandleRoute_returns [of v je e ord w] by auto
qed

theorem document_requests_witness:
  "\<exists>u. ParseRequestURI ''/v0/down'' = Some u \<and>
     httpHandleRoute lab_jenv lab_env [7] u lab_world = Inr (JsonMarshal lab_jenv lab_env EPstateDown [7] lab_world @ nl)"
proof -
  let ?u = "\<lparr>u_Path = ''/v0/down'', u_RawPath = [], u_ForceQuery = False, u_RawQuery = []\<rparr>"
  have u: "ParseRequestURI ''/v0/down'' = Some ?u" "mux ?u = RouteV0" by code_simp+
  have "list_all plain_char ''down''" by (simp add: plain_char_def alnum_def)
  with document_requests [OF u, of lab_jenv lab_env "[7]" lab_world] u(1) show ?thesis by (auto simp: document_def)
qed

section \<open>Logging\<close>

text \<open>
  C34: The line of an endpoint's message is reported for the function that called \<open>Log\<close>, however many frames the logger
  has put on the stack, and the message never fails; but the line of \<open>FatalIF\<close> is reported for the caller of the
  function that called it.
\<close>

theorem log_sites:
  assumes "list_all (\<lambda>f. \<not> external f) logger" and "length logger < 95"
    and "list_all external [with_depth, log, caller, up]" and "linv w" and "r < w_neps w"
  shows "(\<exists>c. Log e r level format args w = Inr c \<and>
      line_site c (logger @ [with_depth, log, caller, up] @ rest) = Some caller) \<and>
    (\<exists>c. FatalIF True format args = Some c \<and> line_site c (logger @ [caller, up] @ rest) = Some up)"
proof
  obtain c where c: "Log e r level format args w = Inr c" "lc_depth c = Some 2"
    by (rule LogWithDepth_returns [OF assms(4,5), of e level 1 format args]) (simp add: Log_def WithDepth_def)
  have "find_site 100 (int 2) (logger @ [with_depth, log, caller, up] @ rest) = Some caller"
    using assms(2) by (subst find_site_stack [OF assms(1,3)]) simp_all
  with c show "\<exists>c. Log e r level format args w = Inr c \<and>
      line_site c (logger @ [with_depth, log, caller, up] @ rest) = Some caller" by (auto simp: line_site_def)
  have "find_site 100 (int 1) (logger @ [caller, up] @ rest) = Some up"
    using assms(2,3) by (subst find_site_stack [OF assms(1)]) simp_all
  then show "\<exists>c. FatalIF True format args = Some c \<and> line_site c (logger @ [caller, up] @ rest) = Some up"
    by (simp add: FatalIF_def WithDepth_def line_site_def)
qed

theorem log_sites_witness:
  "\<exists>c. Log lab_env 0 INFO ''ok'' [] lab_world = Inr c \<and>
     map_option fr_func (line_site c (map (\<lambda>f. \<lparr>fr_func = f, fr_file = [], fr_line = 0\<rparr>)
       [''logrus.Entry'', ''xlog.WithDepth'', ''monitor.LogWithDepth'', ''monitor.Log'', ''monitor.EpWatchAdd'', ''monitor.watchCtl''])) =
     Some ''monitor.EpWatchAdd''"
proof -
  let ?f = "\<lambda>f. \<lparr>fr_func = f, fr_file = [], fr_line = 0\<rparr>"
  have l: "list_all (\<lambda>f. \<not> external f) (map ?f [''logrus.Entry'', ''xlog.WithDepth''])"
    "length (map ?f [''logrus.Entry'', ''xlog.WithDepth'']) < 95"
    "list_all external [?f ''monitor.LogWithDepth'', ?f ''monitor.Log'', ?f ''monitor.EpWatchAdd'', ?f ''monitor.watchCtl'']"
    by (simp_all add: external_def Contains_def HasPrefix_def)
  have "0 < w_neps lab_world" by (simp add: lab_facts)
  from log_sites [OF l lab_inv this, of lab_env INFO "''ok''" "[]" "[]"] show ?thesis by auto
qed

section \<open>Decoding\<close>

text \<open>
  C35: Decoding a time panics exactly on a lone quote, which no value of a parsed text is; and of the strings in a
  parsed text it accepts only those of the one layout of \<open>time.Parse\<close>, and \<open>null\<close>, which changes nothing: the
  quotes are gone when \<open>json.Unmarshal\<close> gets the text, so it never finds an RFC 3339 string in it.
\<close>

theorem times_decoded:
  assumes "json_parse text = Some root" and "v \<in> set (subvalues root)"
  shows "((\<exists>h. Time_UnmarshalJSON e data cur = Inl h) \<longleftrightarrow> data = [CHR 0x22]) \<and>
    (\<exists>r. Time_UnmarshalJSON e (jtext v) cur = Inr r) \<and>
    (\<forall>s. v = VStr s \<longrightarrow> Time_UnmarshalJSON e (jtext v) cur =
       Inr (if json_parse s = Some VNull then Inr cur else e_time_Parse e s))"
proof (intro conjI allI impI)
  have v: "well_scanned v" using subvalue_scanned [OF json_parse_ok [OF assms(1)] assms(2)] .
  show "(\<exists>h. Time_UnmarshalJSON e data cur = Inl h) \<longleftrightarrow> data = [CHR 0x22]"
    by (cases data) (auto simp: Time_UnmarshalJSON_def chompQuotes_def Let_def split: sum.splits if_splits)
  show "\<exists>r. Time_UnmarshalJSON e (jtext v) cur = Inr r" by (rule Time_scalar_returns [OF v])
  fix s assume "v = VStr s"
  with v show "Time_UnmarshalJSON e (jtext v) cur =
      Inr (if json_parse s = Some VNull then Inr cur else e_time_Parse e s)"
    using Time_of_string [of s e cur] by blast
qed

theorem times_decoded_witness:
  "Time_UnmarshalJSON demo_env ''\"2024-01-01T00:00:00Z\"'' 5 = Inr (Inl (ErrorString ''invalid''))"
proof -
  have parsed: "json_parse ''[\"2024-01-01T00:00:00Z\"]'' = Some (VArr [VStr ''2024-01-01T00:00:00Z''])"
    and inner: "json_parse ''2024-01-01T00:00:00Z'' = None" by code_simp+
  have "VStr ''2024-01-01T00:00:00Z'' \<in> set (subvalues (VArr [VStr ''2024-01-01T00:00:00Z'']))" by simp
  from times_decoded [OF parsed this] inner show ?thesis by (simp add: demo_env_def)
qed

text \<open>
  C36: A program that decodes the control-interface data the lookout writes into the same types gets the data back,
  as long as it holds no system information and no Raft entries and its strings are valid UTF-8.
\<close>

theorem ctl_document_round_trip:
  assumes "float_pkg je" and "plain_ctl c"
  shows "Unmarshal_ctl e (indent n (enc_ctl je e c)) = Inr c"
  by (rule ctl_round_trip [OF assms])

definition lab_ctl_data :: CtlIfOut where
  "lab_ctl_data = zero_ctl\<lparr>BufSetNodes :=
     [[GString ''set'', GUint 1, GUint 2, GUint 3, GUint 4, GUint 5, GUint 6]]\<rparr>"

theorem ctl_document_round_trip_witness:
  "Unmarshal_ctl lab_env (indent 0 (enc_ctl lab_jenv lab_env lab_ctl_data)) = Inr lab_ctl_data"
proof (rule ctl_document_round_trip)
  show "float_pkg lab_jenv" by (simp add: float_pkg_def lab_jenv_def valid_number_def is_digit_def digit_val_def valid_frac_def valid_expo_def)
  show "plain_ctl lab_ctl_data"
    by (simp add: plain_ctl_def lab_ctl_data_def zero_ctl_def plain_struct_def of_type_def BufferSetNodes_fields_def
        has_kind_def ascii_valid)
qed

text \<open>
  C37: Data with system information in it cannot be read back: its times are written as objects, which the decoder
  hands to \<open>Time.UnmarshalJSON\<close> as they stand, and no text that begins with a bracket is a time in its one layout.
\<close>

theorem own_times_unreadable:
  assumes "float_pkg je" and "SysInfo c = Some s" and "of_type SystemInfo_fields s" and "time_pkg e"
  shows "Unmarshal_ctl e (indent n (enc_ctl je e c)) = Inl json_err"
  by (rule system_info_unreadable [OF assms])

theorem own_times_unreadable_witness:
  "Unmarshal_ctl lab_env (indent 0 (enc_ctl lab_jenv lab_env
     (zero_ctl\<lparr>SysInfo := Some (zero_struct SystemInfo_fields)\<rparr>))) = Inl json_err"
proof (rule own_times_unreadable [where s = "zero_struct SystemInfo_fields"])
  show "float_pkg lab_jenv" by (simp add: float_pkg_def lab_jenv_def valid_number_def is_digit_def digit_val_def valid_frac_def valid_expo_def)
  show "time_pkg lab_env" by (simp add: time_pkg_def lab_env_def demo_env_def)
qed simp_all

section \<open>Start-up of the program\<close>

text \<open>
  C38: A command line that gives every flag is understood: the program gets exactly the values that were written, for
  every port number and all texts, or shows its usage and ends with status 0 when help is asked for; one more
  argument that is no flag ends it with status 1, an unknown flag with status 2. So does \<open>-std\<close>, which \<open>README.md\<close>
  documents: the program has no such flag.
\<close>

theorem command_line:
  assumes "min_int64 \<le> ar_httpPort a" and "ar_httpPort a \<le> max_int64"
    and "ParseLevel (ar_log a) = Some level" and "ar_logger a = [] \<or> open_log (ar_logger a) = None"
  shows "parseCMDArgs e ParseLevel open_log (write_flags (arg_flags a h hl)) =
      (if h \<or> hl then Exits 0 else Goes (a, level)) \<and>
    (length x < 2 \<or> hd x \<noteq> CHR ''-'' \<longrightarrow>
      parseCMDArgs e ParseLevel open_log (write_flags (arg_flags a h hl) @ x # xs) = Exits 1) \<and>
    (flag_name n \<and> n \<notin> fst ` set (arg_flags a h hl) \<longrightarrow>
      parseCMDArgs e ParseLevel open_log (write_flags (arg_flags a h hl) @ (''-'' @ n) # xs) = Exits 2)"
proof -
  note cl = parse_command_line [where a = a and ParseLevel = ParseLevel and open_log = open_log, OF assms]
  show ?thesis by (intro conjI impI) (simp_all only: cl(1,2), rule cl(3), blast+)
qed

definition lab_args :: args where
  "lab_args = \<lparr>ar_ctlPath = ''/run/niova'', ar_log = ''info'', ar_pmdb = True, ar_UdpPort = ''1054'', ar_httpPort = 80,
     ar_PortRangeStr = '''', ar_AgentName = ''agent'', ar_agentAddr = ''10.0.0.7'', ar_GossipNodesPath = ''gossip'',
     ar_promPath = ''targets.json'', ar_logger = '''', ar_RaftUUID = '''', ar_LookoutUUID = ''L''\<rparr>"

theorem command_line_witness:
  "parseCMDArgs lab_env (\<lambda>_. Some InfoLevel) (\<lambda>_. None) (write_flags (arg_flags lab_args False False)) =
     Goes (lab_args, InfoLevel) \<and>
   parseCMDArgs lab_env (\<lambda>_. Some InfoLevel) (\<lambda>_. None) (write_flags (arg_flags lab_args False False) @ [''now'']) = Exits 1 \<and>
   parseCMDArgs lab_env (\<lambda>_. Some InfoLevel) (\<lambda>_. None) (write_flags (arg_flags lab_args False False) @ [''-std'']) = Exits 2"
proof -
  have p: "min_int64 \<le> ar_httpPort lab_args" "ar_httpPort lab_args \<le> max_int64"
    by (simp_all add: lab_args_def min_int64_def max_int64_def)
  have "flag_name ''std''" "''std'' \<notin> fst ` set (arg_flags lab_args False False)"
    by (simp_all add: flag_name_def arg_flags_def)
  with command_line [OF p, of "\<lambda>_. Some InfoLevel" InfoLevel "\<lambda>_. None" lab_env False False "''now''" "[]" "''std''"]
  show ?thesis by simp
qed

text \<open>
  The result of the HTTP server can be lost: the goroutine that sends it may receive it back itself, and
  \<open>main\<close> then waits for ever. The state is reachable for every result and has no successor.
\<close>

theorem result_can_be_lost:
  "(boot_step err)\<^sup>*\<^sup>* boot_init lost \<and> (\<nexists>t. boot_step err lost t) \<and> b_main lost = MBlocked"
  using lost_reachable boot_final [OF boot_ok_reach [OF lost_reachable], of err] by (simp add: lost_def)

text \<open>
  C39: A start can only come to rest in two ways: \<open>main\<close> has exactly the server's result and the goroutine waits
  for a second one, or \<open>main\<close> waits and the goroutine is finished. The second one, in which the result is lost and
  \<open>main\<close> waits for ever, can be reached for every result.
\<close>

theorem boot_outcomes:
  assumes "(boot_step err)\<^sup>*\<^sup>* boot_init s" and "\<nexists>t. boot_step err s t"
  shows "(b_main s = MGot err \<and> b_go s = GBlocked \<or> b_main s = MBlocked \<and> b_go s = GDone) \<and>
    (boot_step err)\<^sup>*\<^sup>* boot_init lost \<and> (\<nexists>t. boot_step err lost t) \<and> b_main lost = MBlocked"
  using boot_final [OF boot_ok_reach [OF assms(1)]] assms(2) lost_reachable
    boot_final [OF boot_ok_reach [OF lost_reachable], of err] by (simp add: lost_def)

theorem boot_outcomes_witness:
  "b_main lost = MGot None \<and> b_go lost = GBlocked \<or> b_main lost = MBlocked \<and> b_go lost = GDone"
proof -
  have "\<nexists>t. boot_step None lost t" by (simp add: boot_step_simps lost_def)
  from boot_outcomes [OF lost_reachable this] show ?thesis by (rule conjunct1)
qed

text \<open>
  C40: \<open>ServeHttp\<close> has a server running exactly when one attempt succeeds after attempts that all failed to bind;
  when every attempt fails to bind it reports no error although nothing is served.
\<close>

theorem serve_outcome:
  "(ServeHttp listen n = (None, True) \<longleftrightarrow>
     (\<exists>i < n. listen i = None \<and> (\<forall>j. i < j \<and> j < n \<longrightarrow> (\<exists>err. listen j = Some err \<and> Contains err ''bind'')))) \<and>
   ((\<forall>j < n. \<exists>err. listen j = Some err \<and> Contains err ''bind'') \<longrightarrow> ServeHttp listen n = (None, False))"
proof
  show "(\<forall>j < n. \<exists>err. listen j = Some err \<and> Contains err ''bind'') \<longrightarrow> ServeHttp listen n = (None, False)"
    by (induction n) (auto simp: ServeHttp_def)
qed (simp add: ServeHttp_def serve_loop_iff)

theorem serve_outcome_witness: "ServeHttp (\<lambda>_. Some ''bind: address already in use'') 1 = (None, False)"
proof -
  have "Contains ''bind: address already in use'' ''bind''" by (simp add: Contains_def HasPrefix_def)
  with serve_outcome [of "\<lambda>_. Some ''bind: address already in use''" 1] show ?thesis by simp
qed

text \<open>
  The serf agent is started at most four times; the error returned is that of the first start that finds a
  member, or of the fourth one, and is no error when that start had none although it found no member.
\<close>

theorem serf_starts:
  assumes "\<forall>i. 0 \<le> fst (startup i)"
  shows "\<exists>k \<le> 3. StartSerfAgent startup = snd (startup k) \<and> (\<forall>j < k. fst (startup j) = 0) \<and>
     (k < 3 \<longrightarrow> 0 < fst (startup k))"
proof -
  have pos: "fst (startup i) = 0 \<longleftrightarrow> \<not> 0 < fst (startup i)" for i using assms [rule_format, of i] by auto
  consider "0 < fst (startup 0)" | "fst (startup 0) = 0" "0 < fst (startup 1)"
    | "fst (startup 0) = 0" "fst (startup 1) = 0" "0 < fst (startup 2)"
    | "fst (startup 0) = 0" "fst (startup 1) = 0" "fst (startup 2) = 0" using pos by blast
  then show ?thesis
  proof cases
    case 1 then show ?thesis by (intro exI [of _ 0]) (simp add: StartSerfAgent_def)
  next
    case 2 then show ?thesis by (intro exI [of _ 1]) (simp add: StartSerfAgent_def numeral_3_eq_3 Let_def)
  next
    case 3 then show ?thesis
      by (intro exI [of _ 2]) (auto simp: StartSerfAgent_def numeral_3_eq_3 numeral_2_eq_2 Let_def less_Suc_eq)
  next
    case 4 then show ?thesis
      by (intro exI [of _ 3]) (auto simp: StartSerfAgent_def numeral_3_eq_3 numeral_2_eq_2 Let_def less_Suc_eq)
  qed
qed

theorem serf_starts_witness: "StartSerfAgent (\<lambda>i. (if i = 2 then 4 else 0, None)) = None"
proof -
  have "\<forall>i :: nat. 0 \<le> fst (if i = 2 then 4 else 0 :: int, None :: goerr option)" by simp
  from serf_starts [OF this] show ?thesis by auto
qed

end
